(* ===== verification/Prelude.thy ===== *)
theory Prelude
  imports
    Main
    "HOL-Library.Finite_Map"
    "HOL-Library.Word"
    "HOL-Library.List_Lexorder"
    "HOL-Library.Char_ord"
begin

text \<open>
  Shared vocabulary of the development: the Go types the sources use, errors as values, Go maps
  and their iteration order, and the generic lemmas the component theories rest on.

  \<^item> Go's \<open>int\<close> and \<open>int64\<close> are 64 bits wide on the supported platforms: \<open>goint\<close>, compared with the
    signed orders of words, so that additions wrap as they do in the program.
  \<^item> A Go map is a finite map. A key that is absent reads as the zero value of the value type
    (\<open>fmget\<close>). A Go set \<open>map[string]struct{}\<close> is a finite set.
  \<^item> The order in which \<open>range\<close> visits a map is not specified by Go. Every operation that ranges
    over a map takes an iteration order \<open>ord\<close>, a function from key sets to key lists, and the
    theorems hold for every such order (\<open>iter_order\<close>).
  \<^item> An error is a value of \<open>goerr\<close>: the sentinel errors of the sources, the errors of the libraries
    they inspect, and \<open>Errorf\<close> for \<open>fmt.Errorf\<close> and \<open>errors.New\<close>, which keeps the format string, its
    arguments and the wrapped error unrendered.
  \<^item> Text that ends up in a response is kept as what it is rendered from (\<open>gotext\<close>): a literal, a
    format with its arguments, or the message of an error.
\<close>

named_theorems go_simps \<open>unfolding rules of the Go primitives\<close>
named_theorems field_simps_go \<open>what an operation leaves unchanged of the state\<close>

type_synonym goint = "64 word"
type_synonym uint32 = "32 word"
type_synonym uint64 = "64 word"
type_synonym bytes = "8 word list"

section \<open>Errors as values\<close>

datatype goerr =
    ErrNoRows
  | ErrSqlite int
  | ErrContext
  | ErrNotExist
  | ErrFunctionExists
  | ErrFunctionNotFound
  | ErrNoRunnerAvailable
  | ErrPrepareInstance string string
  | ErrUnknownInstance
  | ErrStatus string gotext
  | ErrInvalidParam string goerr
  | ErrRequiredParam string
  | ErrDecode goerr string
  | ErrExternal string
  | Errorf string "string list" "goerr option"
and gotext =
    Lit string
  | Fmt string "string list"
  | ErrText goerr

type_synonym 'a res = "goerr + 'a"

text \<open>\<open>errors.Is\<close>: the error itself or one it wraps is the target.\<close>

fun errors_Is :: "goerr \<Rightarrow> goerr \<Rightarrow> bool" where
  "errors_Is (Errorf f args (Some e)) t = errors_Is e t"
| "errors_Is e t = (e = t)"

text \<open>\<open>errors.AsType[*routing.ErrPrepareInstance]\<close> and \<open>errors.As\<close> for \<open>*sqlite.Error\<close>.\<close>

fun errors_AsPrepareInstance :: "goerr \<Rightarrow> (string \<times> string) option" where
  "errors_AsPrepareInstance (ErrPrepareInstance f r) = Some (f, r)"
| "errors_AsPrepareInstance (Errorf f args (Some e)) = errors_AsPrepareInstance e"
| "errors_AsPrepareInstance _ = None"

fun errors_AsSqlite :: "goerr \<Rightarrow> int option" where
  "errors_AsSqlite (ErrSqlite code) = Some code"
| "errors_AsSqlite (Errorf f args (Some e)) = errors_AsSqlite e"
| "errors_AsSqlite _ = None"

text \<open>
  \<open>errors.AsType\<close> for the parameter errors of the generated API package, which carry the name of the
  parameter, and for \<open>*decodeErr\<close>, which carries a code.
\<close>

fun errors_AsInvalidParam :: "goerr \<Rightarrow> string option" where
  "errors_AsInvalidParam (ErrInvalidParam p e) = Some p"
| "errors_AsInvalidParam (Errorf f args (Some e)) = errors_AsInvalidParam e"
| "errors_AsInvalidParam _ = None"

fun errors_AsRequiredParam :: "goerr \<Rightarrow> string option" where
  "errors_AsRequiredParam (ErrRequiredParam p) = Some p"
| "errors_AsRequiredParam (Errorf f args (Some e)) = errors_AsRequiredParam e"
| "errors_AsRequiredParam _ = None"

fun errors_AsDecode :: "goerr \<Rightarrow> (goerr \<times> string) option" where
  "errors_AsDecode (ErrDecode e code) = Some (e, code)"
| "errors_AsDecode (Errorf f args (Some e)) = errors_AsDecode e"
| "errors_AsDecode _ = None"

text \<open>
  \<open>errorTextIs\<close> is the comparison of \<open>err.Error()\<close> with a message of the libraries; no format of the
  sources renders to such a message.
\<close>

fun errorTextIs :: "goerr \<Rightarrow> string \<Rightarrow> bool" where
  "errorTextIs (ErrExternal s) t \<longleftrightarrow> s = t"
| "errorTextIs _ t \<longleftrightarrow> False"

text \<open>\<open>fmt.Errorf\<close> with a \<open>%w\<close> verb.\<close>

abbreviation wrapf :: "string \<Rightarrow> string list \<Rightarrow> goerr \<Rightarrow> goerr" where
  "wrapf f args e \<equiv> Errorf f args (Some e)"

section \<open>Panics\<close>

text \<open>
  A call that may panic is an \<open>outcome\<close>. \<open>assertThat\<close> is \<open>assert.That\<close>: it goes on exactly when its
  condition holds.
\<close>

datatype 'a outcome = Returns 'a | Panics string

definition assertThat :: "bool \<Rightarrow> string \<Rightarrow> 'a outcome \<Rightarrow> 'a outcome" where
  "assertThat trueCond msg k = (if \<not> trueCond then Panics msg else k)"

section \<open>Maps and iteration\<close>

text \<open>Indexing a Go map: the zero value \<open>z\<close> when the key is absent.\<close>

definition fmget :: "'v \<Rightarrow> ('k, 'v) fmap \<Rightarrow> 'k \<Rightarrow> 'v" where
  "fmget z m k = (case fmlookup m k of None \<Rightarrow> z | Some v \<Rightarrow> v)"

type_synonym iterorder = "string fset \<Rightarrow> string list"

definition iter_order :: "iterorder \<Rightarrow> bool" where
  "iter_order ord \<longleftrightarrow> (\<forall>S. distinct (ord S) \<and> set (ord S) = fset S)"

section \<open>Lemmas on maps and iteration\<close>

lemma assertThat_simps [simp]: "assertThat True msg k = k" "assertThat False msg k = Panics msg"
  by (simp_all add: assertThat_def)

lemma fmget_empty [simp]: "fmget z fmempty k = z"
  by (simp add: fmget_def)

lemma fmget_upd [simp]: "fmget z (fmupd k v m) k' = (if k = k' then v else fmget z m k')"
  by (simp add: fmget_def)

lemma fmget_drop [simp]: "fmget z (fmdrop k m) k' = (if k = k' then z else fmget z m k')"
  by (simp add: fmget_def)

lemma fmget_Some [simp]: "fmlookup m k = Some v \<Longrightarrow> fmget z m k = v"
  by (simp add: fmget_def)

lemma fmget_None [simp]: "fmlookup m k = None \<Longrightarrow> fmget z m k = z"
  by (simp add: fmget_def)

lemma iter_orderD:
  assumes "iter_order ord"
  shows "distinct (ord S)" and "set (ord S) = fset S"
  using assms by (auto simp: iter_order_def)

lemma iter_order_sorted: "iter_order sorted_list_of_fset"
  by (simp add: iter_order_def sorted_list_of_fset.rep_eq)

lemma fmap_eq_iff: "m = n \<longleftrightarrow> (\<forall>k. fmlookup m k = fmlookup n k)"
  by (auto intro: fmap_ext)

lemma fmdom_empty_iff: "fmdom m = {||} \<longleftrightarrow> (\<forall>k. fmlookup m k = None)"
  by (metis fmdom_empty fmdom_notI fmempty_lookup fmap_eq_iff fmrestrict_fset_dom
      fmrestrict_fset_null fmlookup_dom_iff fempty_iff option.distinct(1) not_None_eq)

text \<open>A count below \<open>2 ^ 63\<close> is not changed by its conversion to \<open>int\<close>.\<close>

lemma sint_of_nat_small:
  assumes "n < 2 ^ 63"
  shows "sint (of_nat n :: goint) = int n"
proof -
  have "int n < 2 ^ 63" using assms by (metis of_nat_less_numeral_power_cancel_iff)
  then show ?thesis by (simp add: signed_of_nat signed_take_bit_int_eq_self_iff)
qed

lemma errors_Is_wrapf [simp]: "errors_Is (wrapf f args e) t = errors_Is e t"
  by simp

end
