(* ===== verification/GoStd.thy ===== *)
theory GoStd
  imports Prelude
begin

text \<open>
  The functions of the Go standard library that the sources call on strings, paths and numbers
  (\<open>strings\<close>, \<open>path/filepath\<close> on Unix, \<open>strconv\<close>, the \<open>%X\<close> and \<open>%d\<close> verbs of \<open>fmt\<close>) and the laws the
  components need of them. A Go string is a sequence of bytes, which is what a HOL \<open>string\<close> is.
\<close>

section \<open>strings\<close>

definition strings_HasPrefix :: "string \<Rightarrow> string \<Rightarrow> bool" where
  "strings_HasPrefix s p \<longleftrightarrow> take (length p) s = p"

definition strings_TrimPrefix :: "string \<Rightarrow> string \<Rightarrow> string" where
  "strings_TrimPrefix s p = (if strings_HasPrefix s p then drop (length p) s else s)"

definition strings_HasSuffix :: "string \<Rightarrow> string \<Rightarrow> bool" where
  "strings_HasSuffix s p \<longleftrightarrow> strings_HasPrefix (rev s) (rev p)"

definition strings_TrimSuffix :: "string \<Rightarrow> string \<Rightarrow> string" where
  "strings_TrimSuffix s p = (if strings_HasSuffix s p then take (length s - length p) s else s)"

text \<open>\<open>strings.Split\<close> with a separator of one byte, and \<open>strings.Join\<close>.\<close>

fun strings_Split :: "string \<Rightarrow> char \<Rightarrow> string list" where
  "strings_Split [] sep = [[]]"
| "strings_Split (c # cs) sep =
     (if c = sep then [] # strings_Split cs sep
      else (case strings_Split cs sep of [] \<Rightarrow> [[c]] | w # ws \<Rightarrow> (c # w) # ws))"

fun strings_Join :: "string list \<Rightarrow> string \<Rightarrow> string" where
  "strings_Join [] sep = []"
| "strings_Join [w] sep = w"
| "strings_Join (w # ws) sep = w @ sep @ strings_Join ws sep"

section \<open>path/filepath\<close>

definition slash :: char where
  "slash = CHR ''/''"

text \<open>The stack of \<open>filepath.Clean\<close>, innermost element first.\<close>

fun clean_elem :: "bool \<Rightarrow> string \<Rightarrow> string list \<Rightarrow> string list" where
  "clean_elem rooted e stack =
     (if e = [] \<or> e = ''.'' then stack
      else if e = ''..''
      then (case stack of
              [] \<Rightarrow> (if rooted then [] else [e])
            | e1 # rest \<Rightarrow> (if e1 = ''..'' then e # stack else rest))
      else e # stack)"

definition clean_stack :: "string \<Rightarrow> string list" where
  "clean_stack path =
     fold (clean_elem (strings_HasPrefix path [slash])) (strings_Split path slash) []"

definition filepath_Clean :: "string \<Rightarrow> string" where
  "filepath_Clean path =
     (let out = strings_Join (rev (clean_stack path)) [slash]
      in if strings_HasPrefix path [slash] then slash # out
         else if out = [] then ''.'' else out)"

text \<open>\<open>filepath.Join\<close> ignores leading empty elements and is empty when all are.\<close>

fun filepath_Join :: "string list \<Rightarrow> string" where
  "filepath_Join [] = []"
| "filepath_Join (e # es) =
     (if e = [] then filepath_Join es else filepath_Clean (strings_Join (e # es) [slash]))"

text \<open>What follows the last slash, and what precedes it including the slash.\<close>

definition after_slash :: "string \<Rightarrow> string" where
  "after_slash p = rev (takeWhile (\<lambda>c. c \<noteq> slash) (rev p))"

definition upto_slash :: "string \<Rightarrow> string" where
  "upto_slash p = rev (dropWhile (\<lambda>c. c \<noteq> slash) (rev p))"

definition filepath_Base :: "string \<Rightarrow> string" where
  "filepath_Base path =
     (if path = [] then ''.''
      else let p = rev (dropWhile (\<lambda>c. c = slash) (rev path)); b = after_slash p
           in if b = [] then [slash] else b)"

definition filepath_Dir :: "string \<Rightarrow> string" where
  "filepath_Dir path = filepath_Clean (upto_slash path)"

text \<open>The suffix that begins at the last dot of the last path element, or nothing.\<close>

definition filepath_Ext :: "string \<Rightarrow> string" where
  "filepath_Ext path =
     (let e = after_slash path; x = takeWhile (\<lambda>c. c \<noteq> CHR ''.'') (rev e)
      in if length x = length e then [] else CHR ''.'' # rev x)"

section \<open>strconv and fmt\<close>

definition digit_val :: "char \<Rightarrow> int option" where
  "digit_val c = (let n = of_char c :: int in if 48 \<le> n \<and> n \<le> 57 then Some (n - 48) else None)"

datatype NumError = ErrSyntax | ErrRange

text \<open>The loop of \<open>strconv.ParseUint\<close> in base ten at 64 bits.\<close>

fun parseUintLoop :: "string \<Rightarrow> int \<Rightarrow> NumError + int" where
  "parseUintLoop [] n = Inr n"
| "parseUintLoop (c # cs) n =
     (case digit_val c of
        None \<Rightarrow> Inl ErrSyntax
      | Some d \<Rightarrow> (if 2 ^ 64 \<le> n * 10 + d then Inl ErrRange else parseUintLoop cs (n * 10 + d)))"

definition parseUint :: "string \<Rightarrow> NumError + int" where
  "parseUint s = (if s = [] then Inl ErrSyntax else parseUintLoop s 0)"

text \<open>\<open>strconv.ParseInt(s, 10, 0)\<close> where \<open>int\<close> has 64 bits; an \<open>int64\<close> on which no arithmetic is done is an
  \<open>int\<close> within its range.\<close>

definition parseInt :: "string \<Rightarrow> NumError + int" where
  "parseInt s =
     (if s = [] then Inl ErrSyntax
      else let neg = (hd s = CHR ''-'');
               digits = (if hd s = CHR ''+'' \<or> hd s = CHR ''-'' then tl s else s)
           in case parseUint digits of
                Inl e \<Rightarrow> Inl e
              | Inr un \<Rightarrow>
                  (if \<not> neg \<and> 2 ^ 63 \<le> un then Inl ErrRange
                   else if neg \<and> 2 ^ 63 < un then Inl ErrRange
                   else Inr (if neg then - un else un)))"

definition numErrorText :: "NumError \<Rightarrow> string" where
  "numErrorText e = (case e of ErrSyntax \<Rightarrow> ''invalid syntax'' | ErrRange \<Rightarrow> ''value out of range'')"

definition strconv_ParseInt :: "string \<Rightarrow> int res" where
  "strconv_ParseInt s =
     (case parseInt s of
        Inl e \<Rightarrow> Inl (Errorf ''strconv.ParseInt: parsing %q: %s'' [s, numErrorText e] None)
      | Inr n \<Rightarrow> Inr n)"

definition digit_char :: "int \<Rightarrow> char" where
  "digit_char d = (if d < 10 then char_of (48 + d) else char_of (55 + d))"

text \<open>The decimal digits of a number that is not negative.\<close>

function formatNat :: "int \<Rightarrow> string" where
  "formatNat n = (if n < 10 then [digit_char n] else formatNat (n div 10) @ [digit_char (n mod 10)])"
  by auto
termination by (relation "measure nat") auto

declare formatNat.simps [simp del]

text \<open>\<open>strconv.FormatInt(i, 10)\<close>, also the \<open>%d\<close> verb.\<close>

definition strconv_FormatInt :: "int \<Rightarrow> string" where
  "strconv_FormatInt i = (if i < 0 then CHR ''-'' # formatNat (- i) else formatNat i)"

text \<open>
  \<open>time.Duration.String\<close> on a number of nanoseconds. \<open>fmtFrac\<close> renders the lowest \<open>prec\<close> digits without
  trailing zeros, behind a point when any is left; \<open>micro\<close> is the two bytes of the micro sign.
\<close>

fun fmtFrac :: "int \<Rightarrow> nat \<Rightarrow> string \<Rightarrow> string" where
  "fmtFrac v 0 out = (if out = [] then [] else CHR ''.'' # out)"
| "fmtFrac v (Suc prec) out =
     fmtFrac (v div 10) prec (if out \<noteq> [] \<or> v mod 10 \<noteq> 0 then digit_char (v mod 10) # out else out)"

definition micro :: string where
  "micro = [char_of (194 :: nat), char_of (181 :: nat)]"

definition fmtUnit :: "int \<Rightarrow> nat \<Rightarrow> string \<Rightarrow> string" where
  "fmtUnit u prec unit_name = formatNat (u div 10 ^ prec) @ fmtFrac u prec [] @ unit_name"

definition fmtDuration :: "int \<Rightarrow> string" where
  "fmtDuration u =
     (if u = 0 then ''0s''
      else if u < 1000 then fmtUnit u 0 ''ns''
      else if u < 1000000 then fmtUnit u 3 (micro @ ''s'')
      else if u < 1000000000 then fmtUnit u 6 ''ms''
      else let secs = u div 10 ^ 9; mins = secs div 60; hours = mins div 60;
               s = formatNat (secs mod 60) @ fmtFrac u 9 [] @ ''s''
           in if mins = 0 then s
              else if hours = 0 then formatNat (mins mod 60) @ ''m'' @ s
              else formatNat hours @ ''h'' @ formatNat (mins mod 60) @ ''m'' @ s)"

definition Duration_String :: "int \<Rightarrow> string" where
  "Duration_String d = (if d < 0 then CHR ''-'' # fmtDuration (- d) else fmtDuration d)"

text \<open>The \<open>%X\<close> verb on a byte slice.\<close>

definition hexByte :: "8 word \<Rightarrow> string" where
  "hexByte b = [digit_char (uint b div 16), digit_char (uint b mod 16)]"

definition hexX :: "bytes \<Rightarrow> string" where
  "hexX bs = concat (map hexByte bs)"

text \<open>\<open>textproto.CanonicalMIMEHeaderKey\<close>, which \<open>Header.Set\<close> applies: a capital after every hyphen, unless
  the key has a character that is not allowed in a header.\<close>

definition tokenChar :: "char \<Rightarrow> bool" where
  "tokenChar c \<longleftrightarrow> (let n = of_char c :: int in
     48 \<le> n \<and> n \<le> 57 \<or> 65 \<le> n \<and> n \<le> 90 \<or> 97 \<le> n \<and> n \<le> 122 \<or> n \<in> {33, 35, 36, 37, 38, 39, 42, 43, 45, 46, 94, 95, 96, 124, 126})"

fun canonLoop :: "bool \<Rightarrow> string \<Rightarrow> string" where
  "canonLoop upper [] = []"
| "canonLoop upper (c # cs) =
     (let n = of_char c :: int;
          d = (if upper \<and> 97 \<le> n \<and> n \<le> 122 then char_of (n - 32)
               else if \<not> upper \<and> 65 \<le> n \<and> n \<le> 90 then char_of (n + 32) else c)
      in d # canonLoop (d = CHR ''-'') cs)"

definition canonicalHeaderKey :: "string \<Rightarrow> string" where
  "canonicalHeaderKey k = (if list_all tokenChar k then canonLoop True k else k)"

section \<open>Laws of the string functions\<close>

lemma HasPrefix_append [simp]: "strings_HasPrefix (p @ s) p"
  by (simp add: strings_HasPrefix_def)

lemma HasPrefix_iff: "strings_HasPrefix s p \<longleftrightarrow> (\<exists>t. s = p @ t)"
  by (metis HasPrefix_append append_take_drop_id strings_HasPrefix_def)

lemma TrimPrefix_append [simp]: "strings_TrimPrefix (p @ s) p = s"
  by (simp add: strings_TrimPrefix_def)

lemma TrimSuffix_append [simp]: "strings_TrimSuffix (s @ p) p = s"
  by (simp add: strings_TrimSuffix_def strings_HasSuffix_def)

lemma TrimSuffix_Nil [simp]: "strings_TrimSuffix s [] = s"
  using TrimSuffix_append[of s "[]"] by simp

lemma HasPrefix_slash [simp]: "strings_HasPrefix (c # s) [d] \<longleftrightarrow> c = d" "\<not> strings_HasPrefix [] [d]"
  by (simp_all add: strings_HasPrefix_def)

lemma Split_nonempty [simp]: "strings_Split s sep \<noteq> []"
  by (induction s) (auto split: list.splits)

lemma Split_no_sep:
  assumes "sep \<notin> set s"
  shows "strings_Split s sep = [s]"
  using assms by (induction s) auto

lemma Split_append:
  "strings_Split (s @ sep # t) sep = strings_Split s sep @ strings_Split t sep"
proof (induction s)
  case (Cons c s)
  then show ?case by (cases "strings_Split s sep") auto
qed simp

lemma Split_elems: "w \<in> set (strings_Split s sep) \<Longrightarrow> sep \<notin> set w"
proof (induction s arbitrary: w)
  case (Cons c s)
  then show ?case by (cases "strings_Split s sep") (auto split: if_splits)
qed simp

lemma Join_append:
  assumes "ws \<noteq> []"
  shows "strings_Join (ws @ [w]) sep = strings_Join ws sep @ sep @ w"
  using assms by (induction ws rule: induct_list012) auto

section \<open>Laws of the path functions\<close>

text \<open>The shape of every stack that \<open>filepath.Clean\<close> builds: parent references only at the bottom.\<close>

fun clean_norm :: "bool \<Rightarrow> string list \<Rightarrow> bool" where
  "clean_norm r [] = True"
| "clean_norm r (e # st) \<longleftrightarrow> clean_norm r st \<and> e \<noteq> [] \<and> e \<noteq> ''.'' \<and> slash \<notin> set e \<and>
     (e = ''..'' \<longrightarrow> \<not> r \<and> (st = [] \<or> hd st = ''..''))"

lemma clean_elem_norm: "clean_norm r st \<Longrightarrow> slash \<notin> set e \<Longrightarrow> clean_norm r (clean_elem r e st)"
  by (cases st) auto

lemma fold_clean_norm:
  assumes "clean_norm r st" and "\<And>e. e \<in> set es \<Longrightarrow> slash \<notin> set e"
  shows "clean_norm r (fold (clean_elem r) es st)"
  using assms
proof (induction es arbitrary: st)
  case (Cons e es)
  then show ?case using clean_elem_norm[of r st e] by (simp del: clean_elem.simps)
qed simp

lemma clean_stack_norm: "clean_norm (strings_HasPrefix p [slash]) (clean_stack p)"
  unfolding clean_stack_def by (intro fold_clean_norm) (auto dest: Split_elems)

lemma fold_clean_rev: "clean_norm r st \<Longrightarrow> fold (clean_elem r) (rev st) [] = st"
  by (induction st) (auto split: list.splits)

lemma Split_Join:
  assumes "ws \<noteq> []" and "\<And>w. w \<in> set ws \<Longrightarrow> sep \<notin> set w"
  shows "strings_Split (strings_Join ws [sep]) sep = ws"
  using assms by (induction ws rule: induct_list012) (simp_all add: Split_no_sep Split_append)

lemma clean_norm_elems: "clean_norm r st \<Longrightarrow> e \<in> set st \<Longrightarrow> slash \<notin> set e \<and> e \<noteq> []"
  by (induction st) auto

lemma Join_norm_head:
  assumes "clean_norm r st" and "st \<noteq> []"
  shows "\<not> strings_HasPrefix (strings_Join (rev st) [slash]) [slash]"
    and "strings_Join (rev st) [slash] \<noteq> []"
proof -
  obtain e es where e: "rev st = e # es" using assms(2) by (cases "rev st") auto
  then have "e \<in> set st" by (metis list.set_intros(1) set_rev)
  then obtain c w where "e = c # w" "c \<noteq> slash"
    using clean_norm_elems[OF assms(1), of e] list.set_intros(1) neq_Nil_conv by metis
  with e show "\<not> strings_HasPrefix (strings_Join (rev st) [slash]) [slash]"
    and "strings_Join (rev st) [slash] \<noteq> []" by (cases es, simp_all)+
qed

text \<open>A directory prefix in normal form cleans to itself.\<close>

lemma Clean_norm_dir:
  assumes "clean_norm r st"
  shows "filepath_Clean ((if r then [slash] else []) @ strings_Join (rev st) [slash] @
      (if st = [] then [] else [slash])) =
    (if r then slash # strings_Join (rev st) [slash]
     else if st = [] then ''.'' else strings_Join (rev st) [slash])"
proof (cases "st = []")
  case True
  then show ?thesis by (simp add: filepath_Clean_def clean_stack_def slash_def)
next
  case False
  let ?j = "strings_Join (rev st) [slash]"
  have sp: "strings_Split (?j @ [slash]) slash = rev st @ [[]]"
    using Split_append[of ?j slash "[]"] Split_Join[of "rev st" slash] False clean_norm_elems[OF assms]
    by simp
  have f: "fold (clean_elem r) (rev st @ [[]]) [] = st"
    using fold_clean_rev[OF assms] by simp
  note hd = Join_norm_head[OF assms False]
  show ?thesis
  proof (cases r)
    case True
    have "clean_stack (slash # ?j @ [slash]) = st"
      using sp f True by (simp add: clean_stack_def)
    with True False show ?thesis by (simp add: filepath_Clean_def)
  next
    case False': False
    have p: "\<not> strings_HasPrefix (?j @ [slash]) [slash]" using hd by (cases ?j) auto
    have "clean_stack (?j @ [slash]) = st" using sp f False' p by (simp add: clean_stack_def)
    with False False' p hd show ?thesis by (simp add: filepath_Clean_def)
  qed
qed

lemma no_slash_while:
  assumes "slash \<notin> set f"
  shows "takeWhile (\<lambda>c. c \<noteq> slash) (rev f @ q) = rev f @ takeWhile (\<lambda>c. c \<noteq> slash) q"
    and "dropWhile (\<lambda>c. c \<noteq> slash) (rev f @ q) = dropWhile (\<lambda>c. c \<noteq> slash) q"
  using assms by (induction f arbitrary: q) auto

lemma upto_slash_append: "slash \<notin> set f \<Longrightarrow> upto_slash (p @ slash # f) = p @ [slash]"
  by (simp add: upto_slash_def no_slash_while)

lemma after_slash_append: "slash \<notin> set f \<Longrightarrow> after_slash (p @ slash # f) = f"
  by (simp add: after_slash_def no_slash_while)

lemma upto_slash_none: "slash \<notin> set f \<Longrightarrow> upto_slash f = []"
  using no_slash_while(2)[of f "[]"] by (simp add: upto_slash_def)

lemma after_slash_none: "slash \<notin> set f \<Longrightarrow> after_slash f = f"
  unfolding after_slash_def using no_slash_while(1)[of f "[]"]
  by (metis append_Nil2 rev_rev_ident takeWhile.simps(1))

definition plain_name :: "string \<Rightarrow> bool" where
  "plain_name f \<longleftrightarrow> f \<noteq> [] \<and> f \<noteq> ''.'' \<and> f \<noteq> ''..'' \<and> slash \<notin> set f"

lemma clean_stack_Join:
  assumes "plain_name f" and "root \<noteq> []"
  shows "clean_stack (root @ slash # f) = f # clean_stack root"
    and "strings_HasPrefix (root @ slash # f) [slash] = strings_HasPrefix root [slash]"
proof -
  obtain c w where "root = c # w" using assms(2) by (cases root) auto
  then show p: "strings_HasPrefix (root @ slash # f) [slash] = strings_HasPrefix root [slash]" by simp
  show "clean_stack (root @ slash # f) = f # clean_stack root"
    using assms(1) p by (simp add: clean_stack_def Split_append Split_no_sep plain_name_def)
qed

text \<open>A plain file name joined to a directory lies directly in that directory.\<close>

lemma Join_shape:
  assumes "plain_name f"
  shows "filepath_Join [root, f] =
    (if strings_HasPrefix root [slash] then [slash] else []) @
    strings_Join (rev (clean_stack root)) [slash] @ (if clean_stack root = [] then [] else [slash]) @ f"
proof (cases "root = []")
  case True
  have ns: "\<not> strings_HasPrefix f [slash]" using assms by (cases f) (auto simp: plain_name_def)
  have "clean_stack f = [f]"
    using assms by (simp add: clean_stack_def plain_name_def Split_no_sep)
  with True ns assms show ?thesis
    by (simp add: filepath_Clean_def clean_stack_def plain_name_def)
next
  case False
  note s = clean_stack_Join[OF assms False]
  show ?thesis
  proof (cases "clean_stack root = []")
    case True
    with s False assms show ?thesis by (simp add: filepath_Clean_def plain_name_def)
  next
    case ne: False
    with s False show ?thesis by (simp add: filepath_Clean_def Join_append)
  qed
qed

text \<open>A joined path is clean.\<close>

lemma Clean_norm:
  assumes "clean_norm r st" and "st \<noteq> []"
  defines "p \<equiv> (if r then [slash] else []) @ strings_Join (rev st) [slash]"
  shows "filepath_Clean p = p"
proof -
  let ?j = "strings_Join (rev st) [slash]"
  have sp: "strings_Split ?j slash = rev st"
    using assms(2) clean_norm_elems[OF assms(1)] by (intro Split_Join) auto
  note hd = Join_norm_head[OF assms(1,2)]
  have "strings_HasPrefix p [slash] = r" using hd by (cases r) (simp_all add: p_def)
  moreover have "clean_stack p = st"
    using sp hd fold_clean_rev[OF assms(1)] by (cases r) (simp_all add: p_def clean_stack_def)
  ultimately show ?thesis using hd by (simp add: filepath_Clean_def p_def)
qed

lemma Clean_Join:
  assumes "plain_name f"
  shows "filepath_Clean (filepath_Join [root, f]) = filepath_Join [root, f]"
proof -
  let ?r = "strings_HasPrefix root [slash]" and ?st = "clean_stack root"
  have "clean_norm ?r (f # ?st)" using clean_stack_norm[of root] assms by (auto simp: plain_name_def)
  moreover have "filepath_Join [root, f] = (if ?r then [slash] else []) @ strings_Join (rev (f # ?st)) [slash]"
    unfolding Join_shape[OF assms] by (cases "?st = []") (simp_all add: Join_append)
  ultimately show ?thesis using Clean_norm[of ?r "f # ?st"] by (simp only: list.distinct not_False_eq_True)
qed

lemma Dir_Join:
  assumes "plain_name f"
  shows "filepath_Dir (filepath_Join [root, f]) = filepath_Clean root"
proof -
  have nf: "slash \<notin> set f" using assms by (simp add: plain_name_def)
  let ?r = "strings_HasPrefix root [slash]" and ?st = "clean_stack root"
  have "upto_slash (filepath_Join [root, f]) =
      (if ?r then [slash] else []) @ strings_Join (rev ?st) [slash] @ (if ?st = [] then [] else [slash])"
    unfolding Join_shape[OF assms]
    using upto_slash_append[OF nf, of "[]"] upto_slash_append[OF nf, of "strings_Join (rev ?st) [slash]"]
      upto_slash_append[OF nf, of "slash # strings_Join (rev ?st) [slash]"] upto_slash_none[OF nf]
    by simp
  then show ?thesis
    using Clean_norm_dir[OF clean_stack_norm, of root] Join_norm_head(2)[OF clean_stack_norm, of root]
    by (simp add: filepath_Dir_def filepath_Clean_def[of root])
qed

lemma Base_plain:
  assumes "plain_name f"
  shows "filepath_Base (p @ slash # f) = f" and "filepath_Base f = f"
proof -
  obtain c w where f: "f = w @ [c]" "c \<noteq> slash"
    using assms by (cases f rule: rev_cases) (auto simp: plain_name_def)
  then have "rev (dropWhile (\<lambda>c. c = slash) (rev (p @ slash # f))) = p @ slash # f"
    "rev (dropWhile (\<lambda>c. c = slash) (rev f)) = f"
    by simp_all
  with assms show "filepath_Base (p @ slash # f) = f" "filepath_Base f = f"
    by (simp_all add: filepath_Base_def Let_def after_slash_append after_slash_none plain_name_def)
qed

lemma Base_Join:
  assumes "plain_name f"
  shows "filepath_Base (filepath_Join [root, f]) = f"
proof -
  let ?j = "strings_Join (rev (clean_stack root)) [slash]"
  show ?thesis
    unfolding Join_shape[OF assms]
    using Base_plain(1)[OF assms, of "[]"] Base_plain(1)[OF assms, of ?j]
      Base_plain(1)[OF assms, of "slash # ?j"] Base_plain(2)[OF assms]
    by simp
qed

declare filepath_Join.simps [simp del]

text \<open>Cleaning keeps the normal form.\<close>

lemma clean_stack_Clean [simp]:
  "clean_stack (filepath_Clean p) = clean_stack p"
  "strings_HasPrefix (filepath_Clean p) [slash] = strings_HasPrefix p [slash]"
proof -
  let ?r = "strings_HasPrefix p [slash]" and ?st = "clean_stack p"
  let ?j = "strings_Join (rev ?st) [slash]"
  have "clean_stack (filepath_Clean p) = ?st \<and> strings_HasPrefix (filepath_Clean p) [slash] = ?r"
  proof (cases "?st = []")
    case True
    then show ?thesis by (simp add: filepath_Clean_def) (simp add: clean_stack_def slash_def)
  next
    case False
    note n = clean_stack_norm[of p]
    have sp: "strings_Split ?j slash = rev ?st"
      using False clean_norm_elems[OF n] by (intro Split_Join) auto
    note hd = Join_norm_head[OF n False]
    have c: "filepath_Clean p = (if ?r then [slash] else []) @ ?j"
      using hd by (simp add: filepath_Clean_def)
    show ?thesis
      using sp hd fold_clean_rev[OF n] unfolding c by (cases ?r) (simp_all add: clean_stack_def)
  qed
  then show "clean_stack (filepath_Clean p) = clean_stack p"
    "strings_HasPrefix (filepath_Clean p) [slash] = strings_HasPrefix p [slash]" by blast+
qed

lemma Join_Clean:
  assumes "plain_name f"
  shows "filepath_Join [filepath_Clean root, f] = filepath_Join [root, f]"
  by (simp add: Join_shape[OF assms])

lemma Clean_append_name:
  assumes "plain_name f" and "d \<noteq> []"
  shows "filepath_Clean (d @ slash # f) = filepath_Join [d, f]"
  using assms(2) by (simp add: filepath_Join.simps)

text \<open>A path that ends in a plain name still does when it is moved below another root.\<close>

lemma Join_Join:
  assumes "plain_name f"
  obtains d where "filepath_Join [a, filepath_Join [b, f]] = filepath_Join [d, f]"
proof (cases "a = []")
  case True
  have "filepath_Join [b, f] \<noteq> []" using assms by (simp add: Join_shape[OF assms] plain_name_def)
  then have "filepath_Join [a, filepath_Join [b, f]] = filepath_Join [b, f]"
    using True Clean_Join[OF assms] by (simp add: filepath_Join.simps)
  then show thesis using that by blast
next
  case False
  have "\<exists>d. a @ slash # filepath_Join [b, f] = d @ slash # f \<and> d \<noteq> []"
    using False by (auto simp: Join_shape[OF assms])
  then obtain d where d: "a @ slash # filepath_Join [b, f] = d @ slash # f" "d \<noteq> []" by blast
  have "filepath_Join [a, filepath_Join [b, f]] = filepath_Clean (d @ slash # f)"
    using False d(1) by (simp add: filepath_Join.simps)
  then show thesis using that Clean_append_name[OF assms d(2)] by simp
qed

lemma HasSuffix_iff: "strings_HasSuffix s p \<longleftrightarrow> (\<exists>t. s = t @ p)"
proof
  assume "strings_HasSuffix s p"
  then obtain t where "rev s = rev p @ t" by (auto simp: strings_HasSuffix_def HasPrefix_iff)
  then have "s = rev t @ p" by (metis rev_append rev_rev_ident)
  then show "\<exists>t. s = t @ p" by blast
qed (auto simp: strings_HasSuffix_def)

lemma Clean_root_name:
  assumes "plain_name f"
  shows "filepath_Clean (slash # f) = filepath_Join [[slash], f]"
  using assms
  by (simp add: Join_shape filepath_Clean_def clean_stack_def Split_no_sep plain_name_def slash_def)

section \<open>Laws of the number formats\<close>

lemma of_char_hexdigit:
  "0 \<le> d \<Longrightarrow> d < 16 \<Longrightarrow> of_char (digit_char d) = (if d < 10 then 48 + d else 55 + d :: int)"
  by (simp add: digit_char_def take_bit_int_eq_self_iff)

lemma digit_val_char [simp]: "0 \<le> d \<Longrightarrow> d < 10 \<Longrightarrow> digit_val (digit_char d) = Some d"
  by (simp add: digit_val_def Let_def of_char_hexdigit)

lemma digit_char_inject:
  assumes "0 \<le> a" "a < 16" and "0 \<le> b" "b < 16"
  shows "digit_char a = digit_char b \<longleftrightarrow> a = b"
proof
  assume "digit_char a = digit_char b"
  then have "of_char (digit_char a) = (of_char (digit_char b) :: int)" by (rule arg_cong)
  then show "a = b"
    unfolding of_char_hexdigit[OF assms(1,2)] of_char_hexdigit[OF assms(3,4)]
    using assms by (auto split: if_splits)
qed simp

lemma parseUintLoop_append:
  "parseUintLoop (xs @ ys) n =
     (case parseUintLoop xs n of Inl e \<Rightarrow> Inl e | Inr m \<Rightarrow> parseUintLoop ys m)"
  by (induction xs arbitrary: n) (auto split: option.splits)

lemma parseUintLoop_format: "0 \<le> n \<Longrightarrow> n < 2 ^ 64 \<Longrightarrow> parseUintLoop (formatNat n) 0 = Inr n"
proof (induction n rule: formatNat.induct)
  case (1 n)
  show ?case
  proof (cases "n < 10")
    case True
    with 1 show ?thesis by (simp add: formatNat.simps[of n])
  next
    case False
    then have "parseUintLoop (formatNat (n div 10)) 0 = Inr (n div 10)" using 1 by simp
    moreover have "n div 10 * 10 + n mod 10 = n" by simp
    ultimately show ?thesis
      using False 1(2,3) by (simp add: formatNat.simps[of n] parseUintLoop_append)
  qed
qed

lemma formatNat_head: "0 \<le> n \<Longrightarrow> \<exists>d ds. 0 \<le> d \<and> d < 10 \<and> formatNat n = digit_char d # ds"
proof (induction n rule: formatNat.induct)
  case (1 n)
  show ?case
  proof (cases "n < 10")
    case True
    with 1 show ?thesis by (auto simp: formatNat.simps[of n])
  next
    case False
    with 1 obtain d ds where "0 \<le> d" "d < 10" "formatNat (n div 10) = digit_char d # ds" by fastforce
    with False show ?thesis by (auto simp: formatNat.simps[of n])
  qed
qed

lemma parseUint_format: "0 \<le> n \<Longrightarrow> n < 2 ^ 64 \<Longrightarrow> parseUint (formatNat n) = Inr n"
  using formatNat_head[of n] parseUintLoop_format[of n] by (auto simp: parseUint_def)

lemma digit_char_sign:
  assumes "0 \<le> d" and "d < 10"
  shows "digit_char d \<noteq> CHR ''-'' \<and> digit_char d \<noteq> CHR ''+''"
proof -
  have "digit_val (CHR ''-'') = None" "digit_val (CHR ''+'') = None" by (simp_all add: digit_val_def)
  with digit_val_char[OF assms] show ?thesis by auto
qed

lemma ParseInt_FormatInt:
  assumes "- (2 ^ 63) \<le> i" and "i < 2 ^ 63"
  shows "strconv_ParseInt (strconv_FormatInt i) = Inr i"
proof (cases "i < 0")
  case True
  with assms parseUint_format[of "- i"] show ?thesis
    by (simp add: strconv_ParseInt_def strconv_FormatInt_def parseInt_def Let_def)
next
  case False
  then obtain d ds where d: "0 \<le> d" "d < 10" "formatNat i = digit_char d # ds"
    using formatNat_head[of i] by auto
  with False assms parseUint_format[of i] digit_char_sign[OF d(1,2)] show ?thesis
    by (simp add: strconv_ParseInt_def strconv_FormatInt_def parseInt_def Let_def)
qed

lemma parseUintLoop_range: "parseUintLoop s n = Inr m \<Longrightarrow> 0 \<le> n \<Longrightarrow> 0 \<le> m"
  by (induction s arbitrary: n) (auto simp: digit_val_def Let_def split: option.splits if_splits)

lemma parseInt_range:
  assumes "parseInt s = Inr n"
  shows "- (2 ^ 63) \<le> n \<and> n < 2 ^ 63"
  using assms parseUintLoop_range[where n = 0]
  by (fastforce simp: parseInt_def parseUint_def Let_def split: if_splits sum.splits)

lemma length_hexX [simp]: "length (hexX bs) = 2 * length bs"
  by (induction bs) (simp_all add: hexX_def hexByte_def)

lemma hexdigits_range:
  fixes b :: "8 word"
  shows "0 \<le> uint b div 16" "uint b div 16 < 16" "0 \<le> uint b mod 16" "uint b mod 16 < 16"
  using unsigned_less[of b, where 'a=int] by (simp_all add: pos_imp_zdiv_nonneg_iff)

lemma hexByte_inject: "hexByte a = hexByte b \<longleftrightarrow> a = b"
proof
  assume "hexByte a = hexByte b"
  then have "uint a div 16 = uint b div 16" "uint a mod 16 = uint b mod 16"
    using hexdigits_range[of a] hexdigits_range[of b] by (auto simp: hexByte_def digit_char_inject)
  then have "uint a = uint b" by (metis div_mult_mod_eq)
  then show "a = b" by (rule unsigned_word_eqI)
qed simp

lemma hexX_inject: "hexX xs = hexX ys \<longleftrightarrow> xs = ys"
proof
  show "hexX xs = hexX ys \<Longrightarrow> xs = ys"
  proof (induction xs arbitrary: ys)
    case Nil
    then show ?case by (cases ys) (auto simp: hexX_def hexByte_def)
  next
    case (Cons x xs)
    from Cons.prems obtain y zs where ys: "ys = y # zs"
      by (cases ys) (auto simp: hexX_def hexByte_def)
    with Cons.prems have "hexByte x = hexByte y" "hexX xs = hexX zs"
      by (auto simp: hexX_def hexByte_def)
    with Cons.IH ys show ?case by (simp add: hexByte_inject)
  qed
qed simp

lemma hexX_chars:
  assumes "c \<in> set (hexX bs)"
  shows "\<exists>d. 0 \<le> d \<and> d < 16 \<and> c = digit_char d"
proof -
  from assms obtain b where "c = digit_char (uint (b :: 8 word) div 16) \<or> c = digit_char (uint b mod 16)"
    by (auto simp: hexX_def hexByte_def)
  with hexdigits_range[of b] show ?thesis by blast
qed

end
