(* ===== verification/ServerContext.thy ===== *)
theory ServerContext
  imports GoStd
begin

text \<open>
  The request context of the servers (\<open>pkg/server/http_context.go\<close>, \<open>pkg/server/grpc_context.go\<close>): what
  a handler records about a request, where it keeps it, and how the loggers read it.

  A holder is a cell that a middleware or an interceptor puts into the context under a key of its own.
  A handler sets the cell to a meta value and goes on updating that value through the pointer; the
  logger that runs around the handler reads it. The model keeps for every key a \<open>slot\<close>: there is no
  holder in the context, or a nil one, or one with its current \<open>Meta\<close>.

  Counters, status codes and durations (in nanoseconds) are only copied, never computed with: they are
  integers. A nil slice of fields or attributes and an empty one are both the empty list.
\<close>

section \<open>Attributes and fields\<close>

datatype AttrValue = StringAttr string | IntAttr int | BoolAttr bool

type_synonym KeyValue = "string \<times> AttrValue"

text \<open>\<open>logging.Fields\<close> is a slice of \<open>any\<close> that holds keys and values in turn.\<close>

type_synonym Fields = "AttrValue list"

fun fieldsFromAttributes :: "KeyValue list \<Rightarrow> Fields" where
  "fieldsFromAttributes [] = []"
| "fieldsFromAttributes ((k, v) # attrs) = StringAttr k # v # fieldsFromAttributes attrs"

text \<open>A pair whose first half is not a string is dropped, and so is a last field without a partner.\<close>

fun slogAttrsFromFields :: "Fields \<Rightarrow> KeyValue list" where
  "slogAttrsFromFields (key # v # fields) =
     (case key of
        StringAttr k \<Rightarrow> (k, v) # slogAttrsFromFields fields
      | _ \<Rightarrow> slogAttrsFromFields fields)"
| "slogAttrsFromFields fields = []"

section \<open>What is recorded about a request\<close>

record CreateFunctionMeta =
  cfFunctionName :: string
  cfFunctionID :: int
  cfFunctionBytes :: int
  cfFunctionHash :: string
  cfFunctionPath :: string
  cfFunctionAlreadyExists :: bool

definition CreateFunctionMeta_Attributes :: "CreateFunctionMeta \<Rightarrow> KeyValue list" where
  "CreateFunctionMeta_Attributes m =
     [(''function.name'', StringAttr (cfFunctionName m)),
      (''function.id'', IntAttr (cfFunctionID m)),
      (''function.bytes'', IntAttr (cfFunctionBytes m)),
      (''function.hash'', StringAttr (cfFunctionHash m)),
      (''function.path'', StringAttr (cfFunctionPath m)),
      (''function.alread_exists'', BoolAttr (cfFunctionAlreadyExists m))]"

definition CreateFunctionMeta_Fields :: "CreateFunctionMeta \<Rightarrow> Fields" where
  "CreateFunctionMeta_Fields m = fieldsFromAttributes (CreateFunctionMeta_Attributes m)"

record DownloadFunctionBinaryMeta =
  dbFunctionID :: int
  dbFunctionPath :: string
  dbFunctionFilename :: string
  dbBytesWritten :: int

definition DownloadFunctionBinaryMeta_Attributes :: "DownloadFunctionBinaryMeta \<Rightarrow> KeyValue list" where
  "DownloadFunctionBinaryMeta_Attributes m =
     [(''download.function_id'', IntAttr (dbFunctionID m)),
      (''download.function_path'', StringAttr (dbFunctionPath m)),
      (''download.function_filename'', StringAttr (dbFunctionFilename m)),
      (''download.bytes_written'', IntAttr (dbBytesWritten m))]"

definition DownloadFunctionBinaryMeta_Fields :: "DownloadFunctionBinaryMeta \<Rightarrow> Fields" where
  "DownloadFunctionBinaryMeta_Fields m = fieldsFromAttributes (DownloadFunctionBinaryMeta_Attributes m)"

record GatewayFunctionRequestMeta =
  gwFunctionID :: string
  gwRequestMethod :: string
  gwRequestPath :: string
  gwForwardedPath :: string
  gwRequestBodyBytes :: int
  gwHeadersCount :: int
  gwRunnerAddr :: string
  gwInstanceID :: string
  gwRunnerConnReused :: bool
  gwRouteTook :: int
  gwInvokeTook :: int
  gwResponseStatusCode :: int
  gwResponseBodyBytes :: int

definition GatewayFunctionRequestMeta_Attributes :: "GatewayFunctionRequestMeta \<Rightarrow> KeyValue list" where
  "GatewayFunctionRequestMeta_Attributes m =
     [(''gateway.function_id'', StringAttr (gwFunctionID m)),
      (''gateway.request_method'', StringAttr (gwRequestMethod m)),
      (''gateway.request_path'', StringAttr (gwRequestPath m)),
      (''gateway.forwarded_path'', StringAttr (gwForwardedPath m)),
      (''gateway.request_body_bytes'', IntAttr (gwRequestBodyBytes m)),
      (''gateway.headers_count'', IntAttr (gwHeadersCount m)),
      (''gateway.runner_addr'', StringAttr (gwRunnerAddr m)),
      (''gateway.instance_id'', StringAttr (gwInstanceID m)),
      (''gateway.runner_conn_reused'', BoolAttr (gwRunnerConnReused m)),
      (''gateway.route_took'', StringAttr (Duration_String (gwRouteTook m))),
      (''gateway.invoke_took'', StringAttr (Duration_String (gwInvokeTook m))),
      (''gateway.response_status_code'', IntAttr (gwResponseStatusCode m)),
      (''gateway.response_body_bytes'', IntAttr (gwResponseBodyBytes m))]"

definition GatewayFunctionRequestMeta_Fields :: "GatewayFunctionRequestMeta \<Rightarrow> Fields" where
  "GatewayFunctionRequestMeta_Fields m = fieldsFromAttributes (GatewayFunctionRequestMeta_Attributes m)"

record DownloadMeta =
  dlFunctionID :: string
  dlDownloaded :: bool
  dlDownloadPath :: string
  dlStoredPath :: string
  dlBytesWritten :: int
  dlDownloadTook :: int
  dlReusedFromFS :: bool
  dlReusedInFlight :: bool
  dlSourcePath :: string
  dlSourceFilename :: string

definition DownloadMeta_Attributes :: "DownloadMeta \<Rightarrow> KeyValue list" where
  "DownloadMeta_Attributes m =
     [(''download.function_id'', StringAttr (dlFunctionID m)),
      (''download.downloaded'', BoolAttr (dlDownloaded m)),
      (''download.download_path'', StringAttr (dlDownloadPath m)),
      (''download.stored_path'', StringAttr (dlStoredPath m)),
      (''download.bytes_written'', IntAttr (dlBytesWritten m)),
      (''download.took'', StringAttr (Duration_String (dlDownloadTook m))),
      (''download.reused_from_fs'', BoolAttr (dlReusedFromFS m)),
      (''download.reused_inflight'', BoolAttr (dlReusedInFlight m)),
      (''download.source_path'', StringAttr (dlSourcePath m)),
      (''download.source_filename'', StringAttr (dlSourceFilename m))]"

definition DownloadMeta_Fields :: "DownloadMeta \<Rightarrow> Fields" where
  "DownloadMeta_Fields m = fieldsFromAttributes (DownloadMeta_Attributes m)"

record InstanceStartMeta =
  isFunctionPath :: string
  isInstanceID :: string
  isRuntimeType :: string
  isInstanceAddr :: string
  isStartTook :: int
  isReusedAssigned :: bool
  isStartRetries :: int
  isHeartbeatRetries :: int
  isHeartbeatTook :: int

definition InstanceStartMeta_Attributes :: "InstanceStartMeta \<Rightarrow> KeyValue list" where
  "InstanceStartMeta_Attributes m =
     [(''instance_start.function_path'', StringAttr (isFunctionPath m)),
      (''instance_start.instance_id'', StringAttr (isInstanceID m)),
      (''instance_start.runtime_type'', StringAttr (isRuntimeType m)),
      (''instance_start.instance_addr'', StringAttr (isInstanceAddr m)),
      (''instance_start.start_took'', StringAttr (Duration_String (isStartTook m))),
      (''instance_start.reused_assigned'', BoolAttr (isReusedAssigned m)),
      (''instance_start.start_retries'', IntAttr (isStartRetries m)),
      (''instance_start.heartbeat_retries'', IntAttr (isHeartbeatRetries m)),
      (''instance_start.heartbeat_took'', StringAttr (Duration_String (isHeartbeatTook m)))]"

definition InstanceStartMeta_Fields :: "InstanceStartMeta \<Rightarrow> Fields" where
  "InstanceStartMeta_Fields m = fieldsFromAttributes (InstanceStartMeta_Attributes m)"

record InvokeMeta =
  ivInstanceID :: string
  ivFunctionPath :: string
  ivMethod :: string
  ivPath :: string
  ivRequestBodyBytes :: int
  ivHeadersCount :: int
  ivWorkerAlreadyRunning :: bool
  ivStartedWorker :: bool
  ivQueueDepthAtEnqueue :: int
  ivInvocationTook :: int
  ivQueueWaitTook :: int
  ivGuestInvokeTook :: int
  ivResponseStatusCode :: int
  ivResponseBodyBytes :: int

definition InvokeMeta_Attributes :: "InvokeMeta \<Rightarrow> KeyValue list" where
  "InvokeMeta_Attributes m =
     [(''invoke.instance_id'', StringAttr (ivInstanceID m)),
      (''invoke.func.path'', StringAttr (ivFunctionPath m)),
      (''invoke.method'', StringAttr (ivMethod m)),
      (''invoke.path'', StringAttr (ivPath m)),
      (''invoke.request_body_bytes'', IntAttr (ivRequestBodyBytes m)),
      (''invoke.headers_count'', IntAttr (ivHeadersCount m)),
      (''invoke.worker_already_running'', BoolAttr (ivWorkerAlreadyRunning m)),
      (''invoke.started_worker'', BoolAttr (ivStartedWorker m)),
      (''invoke.queue_depth_at_enqueue'', IntAttr (ivQueueDepthAtEnqueue m)),
      (''invoke.took'', StringAttr (Duration_String (ivInvocationTook m))),
      (''invoke.queue_wait_took'', StringAttr (Duration_String (ivQueueWaitTook m))),
      (''invoke.guest_invoke_took'', StringAttr (Duration_String (ivGuestInvokeTook m))),
      (''invoke.response_status_code'', IntAttr (ivResponseStatusCode m)),
      (''invoke.response_body_bytes'', IntAttr (ivResponseBodyBytes m))]"

definition InvokeMeta_Fields :: "InvokeMeta \<Rightarrow> Fields" where
  "InvokeMeta_Fields m = fieldsFromAttributes (InvokeMeta_Attributes m)"

record GuestInvokeMeta =
  giMethod :: string
  giPath :: string
  giRequestBodyBytes :: int
  giHeadersCount :: int
  giInvocationTook :: int
  giResponseStatusCode :: int
  giResponseBodyBytes :: int

definition GuestInvokeMeta_Attributes :: "GuestInvokeMeta \<Rightarrow> KeyValue list" where
  "GuestInvokeMeta_Attributes m =
     [(''guest.invoke.method'', StringAttr (giMethod m)),
      (''guest.invoke.path'', StringAttr (giPath m)),
      (''guest.invoke.request_body_bytes'', IntAttr (giRequestBodyBytes m)),
      (''guest.invoke.headers_count'', IntAttr (giHeadersCount m)),
      (''guest.invoke.took'', StringAttr (Duration_String (giInvocationTook m))),
      (''guest.invoke.response_status_code'', IntAttr (giResponseStatusCode m)),
      (''guest.invoke.response_body_bytes'', IntAttr (giResponseBodyBytes m))]"

definition GuestInvokeMeta_Fields :: "GuestInvokeMeta \<Rightarrow> Fields" where
  "GuestInvokeMeta_Fields m = fieldsFromAttributes (GuestInvokeMeta_Attributes m)"

record RouteFunctionMeta =
  rfFunctionID :: string
  rfRunnerAddr :: string
  rfInstanceID :: string
  rfRouteTook :: int
  rfCacheHit :: bool
  rfPreparedInstance :: bool
  rfPrepareTook :: int

definition RouteFunctionMeta_Attributes :: "RouteFunctionMeta \<Rightarrow> KeyValue list" where
  "RouteFunctionMeta_Attributes m =
     [(''route_function.function_id'', StringAttr (rfFunctionID m)),
      (''route_function.runner_addr'', StringAttr (rfRunnerAddr m)),
      (''route_function.instance_id'', StringAttr (rfInstanceID m)),
      (''route_function.took'', StringAttr (Duration_String (rfRouteTook m))),
      (''route_function.cache_hit'', BoolAttr (rfCacheHit m)),
      (''route_function.prepared_instance'', BoolAttr (rfPreparedInstance m)),
      (''route_function.prepare_took'', StringAttr (Duration_String (rfPrepareTook m)))]"

definition RouteFunctionMeta_Fields :: "RouteFunctionMeta \<Rightarrow> Fields" where
  "RouteFunctionMeta_Fields m = fieldsFromAttributes (RouteFunctionMeta_Attributes m)"

record RegisterRunnerMeta =
  rrRunnerAddr :: string
  rrRunnerID :: int
  rrPreexistingRunner :: bool
  rrRunnerHeartbeatOK :: bool
  rrRegistrationTook :: int
  rrHeartbeatTook :: int
  rrPersistTook :: int

definition RegisterRunnerMeta_Attributes :: "RegisterRunnerMeta \<Rightarrow> KeyValue list" where
  "RegisterRunnerMeta_Attributes m =
     [(''register_runner.addr'', StringAttr (rrRunnerAddr m)),
      (''register_runner.id'', IntAttr (rrRunnerID m)),
      (''register_runner.preexisting'', BoolAttr (rrPreexistingRunner m)),
      (''register_runner.heartbeat_ok'', BoolAttr (rrRunnerHeartbeatOK m)),
      (''register_runner.took'', StringAttr (Duration_String (rrRegistrationTook m))),
      (''register_runner.heartbeat_took'', StringAttr (Duration_String (rrHeartbeatTook m))),
      (''register_runner.persist_took'', StringAttr (Duration_String (rrPersistTook m)))]"

definition RegisterRunnerMeta_Fields :: "RegisterRunnerMeta \<Rightarrow> Fields" where
  "RegisterRunnerMeta_Fields m = fieldsFromAttributes (RegisterRunnerMeta_Attributes m)"

section \<open>Holders\<close>

datatype 'm slot = NoHolder | NilHolder | Holder "'m option"

fun slotGet :: "'m slot \<Rightarrow> 'm option" where
  "slotGet NoHolder = None"
| "slotGet NilHolder = None"
| "slotGet (Holder m) = m"

fun slotSet :: "'m \<Rightarrow> 'm slot \<Rightarrow> 'm slot" where
  "slotSet m NoHolder = NoHolder"
| "slotSet m NilHolder = NilHolder"
| "slotSet m (Holder _) = Holder (Some m)"

text \<open>An assignment to a field of the meta value the holder points to.\<close>

fun slotMod :: "('m \<Rightarrow> 'm) \<Rightarrow> 'm slot \<Rightarrow> 'm slot" where
  "slotMod f (Holder (Some m)) = Holder (Some (f m))"
| "slotMod f s = s"

text \<open>
  The context of a request. \<open>span\<close> is the trace and span id of a valid span. \<open>'e\<close> is the type of the
  API error that the HTTP servers keep in a holder of the same kind.
\<close>

record 'e Ctx =
  span :: "(string \<times> string) option"
  apiErrorSlot :: "'e slot"
  createFunctionSlot :: "CreateFunctionMeta slot"
  downloadFunctionBinarySlot :: "DownloadFunctionBinaryMeta slot"
  gatewayFunctionRequestSlot :: "GatewayFunctionRequestMeta slot"
  downloadSlot :: "DownloadMeta slot"
  guestInvokeSlot :: "GuestInvokeMeta slot"
  instanceStartSlot :: "InstanceStartMeta slot"
  invokeSlot :: "InvokeMeta slot"
  routeFunctionSlot :: "RouteFunctionMeta slot"
  registerRunnerSlot :: "RegisterRunnerMeta slot"

definition emptyCtx :: "'e Ctx" where
  "emptyCtx =
     \<lparr>span = None, apiErrorSlot = NoHolder, createFunctionSlot = NoHolder,
      downloadFunctionBinarySlot = NoHolder,
      gatewayFunctionRequestSlot = NoHolder,
      downloadSlot = NoHolder,
      guestInvokeSlot = NoHolder,
      instanceStartSlot = NoHolder,
      invokeSlot = NoHolder,
      routeFunctionSlot = NoHolder,
      registerRunnerSlot = NoHolder\<rparr>"

definition GetCreateFunctionMeta :: "'e Ctx \<Rightarrow> CreateFunctionMeta option" where
  "GetCreateFunctionMeta ctx = slotGet (createFunctionSlot ctx)"

definition SetCreateFunctionMeta :: "CreateFunctionMeta \<Rightarrow> 'e Ctx \<Rightarrow> 'e Ctx" where
  "SetCreateFunctionMeta meta ctx = ctx\<lparr>createFunctionSlot := slotSet meta (createFunctionSlot ctx)\<rparr>"

definition GetDownloadFunctionBinaryMeta :: "'e Ctx \<Rightarrow> DownloadFunctionBinaryMeta option" where
  "GetDownloadFunctionBinaryMeta ctx = slotGet (downloadFunctionBinarySlot ctx)"

definition SetDownloadFunctionBinaryMeta :: "DownloadFunctionBinaryMeta \<Rightarrow> 'e Ctx \<Rightarrow> 'e Ctx" where
  "SetDownloadFunctionBinaryMeta meta ctx = ctx\<lparr>downloadFunctionBinarySlot := slotSet meta (downloadFunctionBinarySlot ctx)\<rparr>"

definition GetGatewayFunctionRequestMeta :: "'e Ctx \<Rightarrow> GatewayFunctionRequestMeta option" where
  "GetGatewayFunctionRequestMeta ctx = slotGet (gatewayFunctionRequestSlot ctx)"

definition SetGatewayFunctionRequestMeta :: "GatewayFunctionRequestMeta \<Rightarrow> 'e Ctx \<Rightarrow> 'e Ctx" where
  "SetGatewayFunctionRequestMeta meta ctx = ctx\<lparr>gatewayFunctionRequestSlot := slotSet meta (gatewayFunctionRequestSlot ctx)\<rparr>"

definition GetDownloadMeta :: "'e Ctx \<Rightarrow> DownloadMeta option" where
  "GetDownloadMeta ctx = slotGet (downloadSlot ctx)"

definition SetDownloadMeta :: "DownloadMeta \<Rightarrow> 'e Ctx \<Rightarrow> 'e Ctx" where
  "SetDownloadMeta meta ctx = ctx\<lparr>downloadSlot := slotSet meta (downloadSlot ctx)\<rparr>"

definition GetGuestInvokeMeta :: "'e Ctx \<Rightarrow> GuestInvokeMeta option" where
  "GetGuestInvokeMeta ctx = slotGet (guestInvokeSlot ctx)"

definition SetGuestInvokeMeta :: "GuestInvokeMeta \<Rightarrow> 'e Ctx \<Rightarrow> 'e Ctx" where
  "SetGuestInvokeMeta meta ctx = ctx\<lparr>guestInvokeSlot := slotSet meta (guestInvokeSlot ctx)\<rparr>"

definition GetInstanceStartMeta :: "'e Ctx \<Rightarrow> InstanceStartMeta option" where
  "GetInstanceStartMeta ctx = slotGet (instanceStartSlot ctx)"

definition SetInstanceStartMeta :: "InstanceStartMeta \<Rightarrow> 'e Ctx \<Rightarrow> 'e Ctx" where
  "SetInstanceStartMeta meta ctx = ctx\<lparr>instanceStartSlot := slotSet meta (instanceStartSlot ctx)\<rparr>"

definition GetInvokeMeta :: "'e Ctx \<Rightarrow> InvokeMeta option" where
  "GetInvokeMeta ctx = slotGet (invokeSlot ctx)"

definition SetInvokeMeta :: "InvokeMeta \<Rightarrow> 'e Ctx \<Rightarrow> 'e Ctx" where
  "SetInvokeMeta meta ctx = ctx\<lparr>invokeSlot := slotSet meta (invokeSlot ctx)\<rparr>"

definition GetRouteFunctionMeta :: "'e Ctx \<Rightarrow> RouteFunctionMeta option" where
  "GetRouteFunctionMeta ctx = slotGet (routeFunctionSlot ctx)"

definition SetRouteFunctionMeta :: "RouteFunctionMeta \<Rightarrow> 'e Ctx \<Rightarrow> 'e Ctx" where
  "SetRouteFunctionMeta meta ctx = ctx\<lparr>routeFunctionSlot := slotSet meta (routeFunctionSlot ctx)\<rparr>"

definition GetRegisterRunnerMeta :: "'e Ctx \<Rightarrow> RegisterRunnerMeta option" where
  "GetRegisterRunnerMeta ctx = slotGet (registerRunnerSlot ctx)"

definition SetRegisterRunnerMeta :: "RegisterRunnerMeta \<Rightarrow> 'e Ctx \<Rightarrow> 'e Ctx" where
  "SetRegisterRunnerMeta meta ctx = ctx\<lparr>registerRunnerSlot := slotSet meta (registerRunnerSlot ctx)\<rparr>"

text \<open>
  A middleware calls the next handler with a child context that has a fresh holder; the context of the
  caller is unchanged under that key.
\<close>

type_synonym ('e, 'a) ctxHandler = "'e Ctx \<Rightarrow> 'e Ctx \<times> 'a"

definition WithCreateFunctionMetaHolder :: "('e, 'a) ctxHandler \<Rightarrow> ('e, 'a) ctxHandler" where
  "WithCreateFunctionMetaHolder next ctx =
     (let (ctx', r) = next (ctx\<lparr>createFunctionSlot := Holder None\<rparr>)
      in (ctx'\<lparr>createFunctionSlot := createFunctionSlot ctx\<rparr>, r))"

definition WithDownloadFunctionBinaryMetaHolder :: "('e, 'a) ctxHandler \<Rightarrow> ('e, 'a) ctxHandler" where
  "WithDownloadFunctionBinaryMetaHolder next ctx =
     (let (ctx', r) = next (ctx\<lparr>downloadFunctionBinarySlot := Holder None\<rparr>)
      in (ctx'\<lparr>downloadFunctionBinarySlot := downloadFunctionBinarySlot ctx\<rparr>, r))"

definition WithGatewayFunctionRequestMetaHolder :: "('e, 'a) ctxHandler \<Rightarrow> ('e, 'a) ctxHandler" where
  "WithGatewayFunctionRequestMetaHolder next ctx =
     (let (ctx', r) = next (ctx\<lparr>gatewayFunctionRequestSlot := Holder None\<rparr>)
      in (ctx'\<lparr>gatewayFunctionRequestSlot := gatewayFunctionRequestSlot ctx\<rparr>, r))"

definition WithDownloadMetaHolder :: "('e, 'a) ctxHandler \<Rightarrow> ('e, 'a) ctxHandler" where
  "WithDownloadMetaHolder next ctx =
     (let (ctx', r) = next (ctx\<lparr>downloadSlot := Holder None\<rparr>)
      in (ctx'\<lparr>downloadSlot := downloadSlot ctx\<rparr>, r))"

definition WithGuestInvokeMetaHolder :: "('e, 'a) ctxHandler \<Rightarrow> ('e, 'a) ctxHandler" where
  "WithGuestInvokeMetaHolder next ctx =
     (let (ctx', r) = next (ctx\<lparr>guestInvokeSlot := Holder None\<rparr>)
      in (ctx'\<lparr>guestInvokeSlot := guestInvokeSlot ctx\<rparr>, r))"

definition WithInstanceStartMetaHolder :: "('e, 'a) ctxHandler \<Rightarrow> ('e, 'a) ctxHandler" where
  "WithInstanceStartMetaHolder next ctx =
     (let (ctx', r) = next (ctx\<lparr>instanceStartSlot := Holder None\<rparr>)
      in (ctx'\<lparr>instanceStartSlot := instanceStartSlot ctx\<rparr>, r))"

definition WithInvokeMetaHolder :: "('e, 'a) ctxHandler \<Rightarrow> ('e, 'a) ctxHandler" where
  "WithInvokeMetaHolder next ctx =
     (let (ctx', r) = next (ctx\<lparr>invokeSlot := Holder None\<rparr>)
      in (ctx'\<lparr>invokeSlot := invokeSlot ctx\<rparr>, r))"

definition WithRouteFunctionMetaHolder :: "('e, 'a) ctxHandler \<Rightarrow> ('e, 'a) ctxHandler" where
  "WithRouteFunctionMetaHolder next ctx =
     (let (ctx', r) = next (ctx\<lparr>routeFunctionSlot := Holder None\<rparr>)
      in (ctx'\<lparr>routeFunctionSlot := routeFunctionSlot ctx\<rparr>, r))"

definition WithRegisterRunnerMetaHolder :: "('e, 'a) ctxHandler \<Rightarrow> ('e, 'a) ctxHandler" where
  "WithRegisterRunnerMetaHolder next ctx =
     (let (ctx', r) = next (ctx\<lparr>registerRunnerSlot := Holder None\<rparr>)
      in (ctx'\<lparr>registerRunnerSlot := registerRunnerSlot ctx\<rparr>, r))"

section \<open>What the loggers read\<close>

definition attrsOf :: "('m \<Rightarrow> 'b list) \<Rightarrow> 'm option \<Rightarrow> 'b list" where
  "attrsOf f m = (case m of None \<Rightarrow> [] | Some x \<Rightarrow> f x)"

definition spanFields :: "'e Ctx \<Rightarrow> Fields" where
  "spanFields ctx =
     (case span ctx of
        None \<Rightarrow> []
      | Some (traceId, spanId) \<Rightarrow>
          [StringAttr ''trace_id'', StringAttr traceId, StringAttr ''span_id'', StringAttr spanId])"

definition httpContextFields :: "'e Ctx \<Rightarrow> Fields" where
  "httpContextFields ctx =
     spanFields ctx @
     attrsOf DownloadFunctionBinaryMeta_Fields (GetDownloadFunctionBinaryMeta ctx) @
     attrsOf CreateFunctionMeta_Fields (GetCreateFunctionMeta ctx) @
     attrsOf GatewayFunctionRequestMeta_Fields (GetGatewayFunctionRequestMeta ctx)"

definition httpContextAttrs :: "'e Ctx \<Rightarrow> KeyValue list" where
  "httpContextAttrs ctx = slogAttrsFromFields (httpContextFields ctx)"

definition contextAttributes :: "'e Ctx \<Rightarrow> KeyValue list" where
  "contextAttributes ctx =
     attrsOf DownloadMeta_Attributes (GetDownloadMeta ctx) @
     attrsOf GuestInvokeMeta_Attributes (GetGuestInvokeMeta ctx) @
     attrsOf InstanceStartMeta_Attributes (GetInstanceStartMeta ctx) @
     attrsOf InvokeMeta_Attributes (GetInvokeMeta ctx) @
     attrsOf RouteFunctionMeta_Attributes (GetRouteFunctionMeta ctx) @
     attrsOf RegisterRunnerMeta_Attributes (GetRegisterRunnerMeta ctx)"

definition contextFields :: "'e Ctx \<Rightarrow> Fields" where
  "contextFields ctx = spanFields ctx @ fieldsFromAttributes (contextAttributes ctx)"

section \<open>Laws\<close>

text \<open>What the logger of an HTTP server prints of a list of fields is the list of attributes they
  were made from, in order and without loss.\<close>

lemma slogAttrs_fields_append:
  "slogAttrsFromFields (fieldsFromAttributes as @ fs) = as @ slogAttrsFromFields fs"
  by (induction as rule: fieldsFromAttributes.induct) auto

lemma slogAttrs_fields [simp]: "slogAttrsFromFields (fieldsFromAttributes as) = as"
  using slogAttrs_fields_append[of as "[]"] by simp

lemma fields_append [simp]:
  "fieldsFromAttributes (as @ bs) = fieldsFromAttributes as @ fieldsFromAttributes bs"
  by (induction as rule: fieldsFromAttributes.induct) auto

lemma slogAttrs_attrsOf:
  assumes "\<And>m. f m = fieldsFromAttributes (g m)"
  shows "slogAttrsFromFields (attrsOf f o1 @ fs) = attrsOf g o1 @ slogAttrsFromFields fs"
  by (cases o1) (simp_all add: attrsOf_def assms slogAttrs_fields_append)

lemma slogAttrs_span:
  "slogAttrsFromFields (spanFields ctx @ fs) =
     (case span ctx of None \<Rightarrow> [] | Some (t, s) \<Rightarrow> [(''trace_id'', StringAttr t), (''span_id'', StringAttr s)]) @
     slogAttrsFromFields fs"
  by (auto simp: spanFields_def split: option.splits)

lemmas Fields_defs = DownloadFunctionBinaryMeta_Fields_def CreateFunctionMeta_Fields_def
  GatewayFunctionRequestMeta_Fields_def

lemma httpContextAttrs_eq:
  "httpContextAttrs ctx =
     (case span ctx of None \<Rightarrow> [] | Some (t, s) \<Rightarrow> [(''trace_id'', StringAttr t), (''span_id'', StringAttr s)]) @
     attrsOf DownloadFunctionBinaryMeta_Attributes (GetDownloadFunctionBinaryMeta ctx) @
     attrsOf CreateFunctionMeta_Attributes (GetCreateFunctionMeta ctx) @
     attrsOf GatewayFunctionRequestMeta_Attributes (GetGatewayFunctionRequestMeta ctx)"
proof -
  have g: "slogAttrsFromFields (attrsOf GatewayFunctionRequestMeta_Fields m) =
      attrsOf GatewayFunctionRequestMeta_Attributes m" for m
    using slogAttrs_attrsOf[of GatewayFunctionRequestMeta_Fields GatewayFunctionRequestMeta_Attributes m "[]"]
    by (simp add: Fields_defs)
  show ?thesis
    unfolding httpContextAttrs_def httpContextFields_def slogAttrs_span
    by (simp add: slogAttrs_attrsOf[where g = DownloadFunctionBinaryMeta_Attributes]
        slogAttrs_attrsOf[where g = CreateFunctionMeta_Attributes] g Fields_defs)
qed

lemma slot_get_set [simp]: "slotGet (slotSet m s) = (case s of Holder _ \<Rightarrow> Some m | _ \<Rightarrow> None)"
  by (cases s) simp_all

lemma slot_get_mod [simp]: "slotGet (slotMod f s) = map_option f (slotGet s)"
  by (cases "(f, s)" rule: slotMod.cases) simp_all

section \<open>Properties\<close>

text \<open>
  no field is lost between the meta values of a request and the attributes of its log line: the
  HTTP logger gets the span ids followed by the attributes of every meta value that is set, in the
  fixed order, and reading the fields of the gRPC logger in pairs gives the span ids followed by the
  attributes of the six gRPC metas.
\<close>

lemma log_attributes_lossless:
  fixes ctx :: "'e Ctx"
  defines "spanAttrs \<equiv> case span ctx of None \<Rightarrow> []
      | Some (t, s) \<Rightarrow> [(''trace_id'', StringAttr t), (''span_id'', StringAttr s)]"
  shows "httpContextAttrs ctx = spanAttrs @
      attrsOf DownloadFunctionBinaryMeta_Attributes (GetDownloadFunctionBinaryMeta ctx) @
      attrsOf CreateFunctionMeta_Attributes (GetCreateFunctionMeta ctx) @
      attrsOf GatewayFunctionRequestMeta_Attributes (GetGatewayFunctionRequestMeta ctx) \<and>
    slogAttrsFromFields (contextFields ctx) = spanAttrs @ contextAttributes ctx"
  unfolding spanAttrs_def contextFields_def slogAttrs_span httpContextAttrs_eq by simp

end
