(* ===== verification/ServerHttp.thy ===== *)
theory ServerHttp
  imports ServerContext
begin

text \<open>
  What the HTTP servers share: error responses (\<open>pkg/server/error.go\<close>), encoding and decoding of JSON
  bodies (\<open>encode.go\<close>, \<open>decode.go\<close>), the holder of the API error (\<open>middleware.go\<close>) and closing of
  resources (\<open>utils.go\<close>).

  A response writer keeps the header map that handlers write to, the status and header that went out
  with the first \<open>WriteHeader\<close>, and the body so far. Later calls of \<open>WriteHeader\<close> have no effect, and
  header changes after it do not go out. \<open>writeErr\<close> is the error every write to a broken connection
  gets. A JSON body is kept as the value it encodes; the payload types of the sources can always be
  encoded.
\<close>

section \<open>The response writer\<close>

record ErrorDetail =
  edTitle :: string
  edCode :: string
  edDetail :: gotext
  edInstance :: string
  edStatus :: int
  edAdditionalProperties :: "(string \<times> string) list"

datatype 'p Chunk = JsonError ErrorDetail | Json 'p | TextChunk string | RawChunk bytes

record 'p Writer =
  header :: "(string, string) fmap"
  sent :: "(int \<times> (string, string) fmap) option"
  body :: "'p Chunk list"
  writeErr :: "goerr option"

definition newWriter :: "goerr option \<Rightarrow> 'p Writer" where
  "newWriter e = \<lparr>header = fmempty, sent = None, body = [], writeErr = e\<rparr>"

definition headerSet :: "string \<Rightarrow> string \<Rightarrow> 'p Writer \<Rightarrow> 'p Writer" where
  "headerSet k v w = w\<lparr>header := fmupd k v (header w)\<rparr>"

definition WriteHeader :: "int \<Rightarrow> 'p Writer \<Rightarrow> 'p Writer" where
  "WriteHeader code w = (case sent w of None \<Rightarrow> w\<lparr>sent := Some (code, header w)\<rparr> | Some _ \<Rightarrow> w)"

definition writeChunk :: "'p Chunk \<Rightarrow> 'p Writer \<Rightarrow> 'p Writer \<times> goerr option" where
  "writeChunk c w =
     (let w1 = WriteHeader 200 w
      in case writeErr w of None \<Rightarrow> (w1\<lparr>body := body w1 @ [c]\<rparr>, None) | Some e \<Rightarrow> (w1, Some e))"

text \<open>\<open>http.Error\<close> of the standard library.\<close>

definition http_Error :: "string \<Rightarrow> int \<Rightarrow> 'p Writer \<Rightarrow> 'p Writer" where
  "http_Error msg code w =
     fst (writeChunk (TextChunk (msg @ [CHR 0x0A])) (WriteHeader code
       (headerSet ''X-Content-Type-Options'' ''nosniff''
         (headerSet ''Content-Type'' ''text/plain; charset=utf-8''
           (w\<lparr>header := fmdrop ''Content-Length'' (header w)\<rparr>)))))"

section \<open>encode.go\<close>

definition ContentType :: string where
  "ContentType = ''Content-Type''"

definition ApplicationJSON :: string where
  "ApplicationJSON = ''application/json''"

definition encodeWithContentType :: "int \<Rightarrow> 'p Chunk \<Rightarrow> 'p Writer \<Rightarrow> 'p Writer \<times> goerr option" where
  "encodeWithContentType code response w =
     (case writeChunk response (WriteHeader code (headerSet ContentType ApplicationJSON w)) of
        (w', Some err) \<Rightarrow>
          (w', Some (wrapf ''failed to encode response of type %T to content type %s: %w'' [ApplicationJSON] err))
      | (w', None) \<Rightarrow> (w', None))"

definition EncodeResponse :: "int \<Rightarrow> 'p \<Rightarrow> 'p Writer \<Rightarrow> 'p Writer" where
  "EncodeResponse status response w =
     (case encodeWithContentType status (Json response) w of
        (w', Some _) \<Rightarrow> http_Error ''Unexpected encoding error'' 500 w'
      | (w', None) \<Rightarrow> w')"

section \<open>error.go and the holder of the API error\<close>

record ApiError =
  errorDetail :: ErrorDetail
  cause :: goerr

record Error =
  Cause :: goerr
  Code :: string
  Detail :: gotext
  Status :: int
  Title :: string
  AdditionalProperties :: "(string \<times> string) list"

type_synonym HttpCtx = "ApiError Ctx"

definition WithAPIErrorHolder :: "(ApiError, 'a) ctxHandler \<Rightarrow> (ApiError, 'a) ctxHandler" where
  "WithAPIErrorHolder next ctx =
     (let (ctx', r) = next (ctx\<lparr>apiErrorSlot := Holder None\<rparr>)
      in (ctx'\<lparr>apiErrorSlot := apiErrorSlot ctx\<rparr>, r))"

definition GetAPIError :: "HttpCtx \<Rightarrow> ApiError option" where
  "GetAPIError ctx = slotGet (apiErrorSlot ctx)"

definition SetAPIError :: "ApiError \<Rightarrow> HttpCtx \<Rightarrow> HttpCtx" where
  "SetAPIError err ctx = ctx\<lparr>apiErrorSlot := slotSet err (apiErrorSlot ctx)\<rparr>"

text \<open>The request URI is all that \<open>NewApiError\<close> reads of the request.\<close>

definition NewApiError :: "string \<Rightarrow> Error \<Rightarrow> ApiError" where
  "NewApiError requestURI err =
     \<lparr>errorDetail =
        \<lparr>edTitle = Title err, edCode = Code err, edDetail = Detail err, edInstance = requestURI,
         edStatus = Status err, edAdditionalProperties = AdditionalProperties err\<rparr>,
      cause = Cause err\<rparr>"

text \<open>A handler's effect on a request: its context and its response writer.\<close>

type_synonym 'p exchange = "HttpCtx \<times> 'p Writer"

definition EncodeApiError :: "ApiError \<Rightarrow> 'p exchange \<Rightarrow> 'p exchange" where
  "EncodeApiError err x =
     (SetAPIError err (fst x),
      fst (encodeWithContentType (edStatus (errorDetail err)) (JsonError (errorDetail err)) (snd x)))"

definition EncodeError :: "string \<Rightarrow> Error \<Rightarrow> 'p exchange \<Rightarrow> 'p exchange" where
  "EncodeError requestURI err x = EncodeApiError (NewApiError requestURI err) x"

definition InternalServerError :: "string \<Rightarrow> goerr \<Rightarrow> 'p exchange \<Rightarrow> 'p exchange" where
  "InternalServerError requestURI err x =
     EncodeError requestURI
       \<lparr>Cause = err, Code = ''internal.server.error'', Detail = Lit ''Unexpected error on server'',
        Status = 500, Title = ''Internal server error'', AdditionalProperties = []\<rparr> x"

definition InvalidRequestCode :: string where
  "InvalidRequestCode = ''invalid.request''"

definition InvalidRequestTitle :: string where
  "InvalidRequestTitle = ''Invalid request''"

definition FromInvalidParamErr :: "goerr \<Rightarrow> string \<Rightarrow> Error" where
  "FromInvalidParamErr err paramName =
     \<lparr>Cause = err, Code = ''invalid.path.param'', Detail = Fmt ''Invalid path param %q'' [paramName],
      Status = 400, Title = ''Invalid path param'', AdditionalProperties = []\<rparr>"

definition fromRequiredParamErr :: "goerr \<Rightarrow> string \<Rightarrow> Error" where
  "fromRequiredParamErr err paramName =
     \<lparr>Cause = err, Code = ''required.path.param'',
      Detail = Fmt ''Required path param %q is missing'' [paramName],
      Status = 400, Title = ''Required path param'', AdditionalProperties = []\<rparr>"

definition ErrorHandlerFunc :: "string \<Rightarrow> goerr \<Rightarrow> 'p exchange \<Rightarrow> 'p exchange" where
  "ErrorHandlerFunc requestURI err x =
     (case errors_AsInvalidParam err of
        Some p \<Rightarrow> EncodeError requestURI (FromInvalidParamErr err p) x
      | None \<Rightarrow>
          (case errors_AsRequiredParam err of
             Some p \<Rightarrow> EncodeError requestURI (fromRequiredParamErr err p) x
           | None \<Rightarrow> InternalServerError requestURI err x))"

section \<open>decode.go\<close>

definition MaxBytes :: int where
  "MaxBytes = 64 * 1024 * 1024"

definition GrpcMaxBytes :: int where
  "GrpcMaxBytes = MaxBytes + 2 ^ 20"

definition LargeBodyErrorStr :: string where
  "LargeBodyErrorStr = ''http: request body too large''"

definition InvalidFieldPrefix :: string where
  "InvalidFieldPrefix = ''json: unknown field ''"

text \<open>The errors of \<open>json.Decoder.Decode\<close> that the sources tell apart.\<close>

datatype JsonErr =
    JSyntax int | JUnexpectedEOF | JUnmarshalType string int | JEOF | JInvalidUnmarshal | JOther string

text \<open>
  \<open>first\<close> is the result of decoding the body into the target, \<open>second\<close> the error of decoding what
  follows it.
\<close>

definition decode :: "JsonErr + 't \<Rightarrow> JsonErr option \<Rightarrow> 't res" where
  "decode first second =
     (case first of
        Inl (JSyntax off) \<Rightarrow>
          Inl (Errorf ''body contains badly-formed JSON (at character %d)'' [strconv_FormatInt off] None)
      | Inl JUnexpectedEOF \<Rightarrow> Inl (Errorf ''body contains badly-formed JSON'' [] None)
      | Inl (JUnmarshalType field off) \<Rightarrow>
          (if field \<noteq> [] then Inl (Errorf ''body contains incorrect JSON type for field %q'' [field] None)
           else Inl (Errorf ''body contains incorrect JSON type (at character %d)'' [strconv_FormatInt off] None))
      | Inl JEOF \<Rightarrow> Inl (Errorf ''body must not be empty'' [] None)
      | Inl (JOther text) \<Rightarrow>
          (if strings_HasPrefix text InvalidFieldPrefix
           then Inl (ErrDecode (Errorf ''body contains unknown key %s''
                                 [strings_TrimPrefix text InvalidFieldPrefix] None) InvalidRequestCode)
           else if text = LargeBodyErrorStr
           then Inl (Errorf ''body must not be larger than %d bytes'' [strconv_FormatInt MaxBytes] None)
           else Inl (ErrExternal text))
      | Inl JInvalidUnmarshal \<Rightarrow> Inl (Errorf ''invalid unmarshal target'' [] None)
      | Inr dst \<Rightarrow>
          (if second \<noteq> Some JEOF then Inl (Errorf ''body must only contain a single JSON value'' [] None)
           else Inr dst))"

definition errorToApiError :: "goerr \<Rightarrow> string \<Rightarrow> Error" where
  "errorToApiError err code =
     \<lparr>Cause = err, Code = code, Detail = ErrText err, Status = 400,
      Title = ''Request couldn't be decoded'', AdditionalProperties = []\<rparr>"

definition DecodingErrorCode :: string where
  "DecodingErrorCode = ''undecodable.request''"

definition Decode :: "JsonErr + 't \<Rightarrow> JsonErr option \<Rightarrow> Error + 't" where
  "Decode first second =
     (case decode first second of
        Inl err \<Rightarrow>
          (case errors_AsDecode err of
             Some (e, code) \<Rightarrow> Inl (errorToApiError (ErrDecode e code) code)
           | None \<Rightarrow> Inl (errorToApiError err DecodingErrorCode))
      | Inr dst \<Rightarrow> Inr dst)"

section \<open>utils.go\<close>

text \<open>The closer is an argument: its effect, and its error, which is only logged.\<close>

definition Close :: "('w \<Rightarrow> 'w \<times> goerr option) option \<Rightarrow> 'w \<Rightarrow> 'w outcome" where
  "Close c w =
     assertThat (c \<noteq> None) ''caller send nil closer''
      (case c of Some close \<Rightarrow> Returns (fst (close w)) | None \<Rightarrow> Returns w)"

section \<open>Laws\<close>

lemma sent_WriteHeader:
  "sent (WriteHeader code w) = (case sent w of None \<Rightarrow> Some (code, header w) | Some s \<Rightarrow> Some s)"
  by (simp add: WriteHeader_def split: option.splits)

lemma WriteHeader_fields [simp]:
  "header (WriteHeader code w) = header w" "body (WriteHeader code w) = body w"
  "writeErr (WriteHeader code w) = writeErr w"
  by (simp_all add: WriteHeader_def split: option.splits)

lemma headerSet_fields [simp]:
  "header (headerSet k v w) = fmupd k v (header w)" "sent (headerSet k v w) = sent w"
  "body (headerSet k v w) = body w" "writeErr (headerSet k v w) = writeErr w"
  by (simp_all add: headerSet_def)

lemma writeChunk_fields:
  "sent (fst (writeChunk c w)) = (case sent w of None \<Rightarrow> Some (200, header w) | Some s \<Rightarrow> Some s)"
  "header (fst (writeChunk c w)) = header w"
  "body (fst (writeChunk c w)) = (if writeErr w = None then body w @ [c] else body w)"
  "snd (writeChunk c w) = writeErr w"
  by (simp_all add: writeChunk_def sent_WriteHeader Let_def split: option.splits)

lemma encodeWithContentType_fields:
  "sent (fst (encodeWithContentType code c w)) =
     (case sent w of None \<Rightarrow> Some (code, fmupd ContentType ApplicationJSON (header w)) | Some s \<Rightarrow> Some s)"
  "body (fst (encodeWithContentType code c w)) = (if writeErr w = None then body w @ [c] else body w)"
  using writeChunk_fields[of c "WriteHeader code (headerSet ContentType ApplicationJSON w)"]
  by (auto simp: encodeWithContentType_def sent_WriteHeader split: prod.splits option.splits)

text \<open>The answer a client gets: status, content type and body.\<close>

definition responseStatus :: "'p Writer \<Rightarrow> int option" where
  "responseStatus w = map_option fst (sent w)"

lemma EncodeError_response:
  assumes "sent (snd x) = None" and "apiErrorSlot (fst x) = Holder h"
  shows "responseStatus (snd (EncodeError uri err x)) = Some (Status err)"
    and "GetAPIError (fst (EncodeError uri err x)) = Some (NewApiError uri err)"
    and "body (snd (EncodeError uri err x)) =
      (if writeErr (snd x) = None then body (snd x) @ [JsonError (errorDetail (NewApiError uri err))]
       else body (snd x))"
  using assms
  by (simp_all add: EncodeError_def EncodeApiError_def responseStatus_def encodeWithContentType_fields
      GetAPIError_def SetAPIError_def NewApiError_def)

section \<open>Properties\<close>

text \<open>
  an error of the parameter parsing is answered with 400 and every other error with 500; the body
  is one JSON error that repeats the status and names the request, and the error itself is kept for
  the logger.
\<close>

lemma error_handler_response:
  fixes x :: "'p exchange"
  assumes "sent (snd x) = None" and "writeErr (snd x) = None" and "apiErrorSlot (fst x) = Holder h"
  defines "code \<equiv> \<lambda>err. if errors_AsInvalidParam err \<noteq> None \<or> errors_AsRequiredParam err \<noteq> None then 400 else 500"
  shows "responseStatus (snd (ErrorHandlerFunc uri err x)) = Some (code err) \<and>
    (\<exists>d. body (snd (ErrorHandlerFunc uri err x)) = body (snd x) @ [JsonError d] \<and>
      edStatus d = code err \<and> edInstance d = uri) \<and>
    map_option cause (GetAPIError (fst (ErrorHandlerFunc uri err x))) = Some err"
  using assms(1-3)
  by (simp add: ErrorHandlerFunc_def InternalServerError_def EncodeError_response code_def
      FromInvalidParamErr_def fromRequiredParamErr_def NewApiError_def split: option.splits)

lemma Decode_failed:
  assumes "Decode first second = Inl e"
  shows "Status e = 400" and "Code e \<in> {InvalidRequestCode, DecodingErrorCode}"
    and "Code e = InvalidRequestCode \<longleftrightarrow> (\<exists>t. first = Inl (JOther (InvalidFieldPrefix @ t)))"
  using assms
  by (auto simp: Decode_def decode_def errorToApiError_def InvalidRequestCode_def DecodingErrorCode_def
      HasPrefix_iff split: sum.splits JsonErr.splits if_splits)

text \<open>
  decoding a request body accepts exactly one JSON value with nothing behind it. Every failure is
  a 400; only an unknown field has the code of an invalid request, all others that of a body that
  cannot be decoded.
\<close>

lemma Decode_exact:
  "(Decode first second = Inr v \<longleftrightarrow> first = Inr v \<and> second = Some JEOF) \<and>
   (\<forall>e. Decode first second = Inl e \<longrightarrow> Status e = 400 \<and> Code e \<in> {InvalidRequestCode, DecodingErrorCode} \<and>
     (Code e = InvalidRequestCode \<longleftrightarrow> (\<exists>t. first = Inl (JOther (InvalidFieldPrefix @ t)))))"
proof -
  have "Decode first second = Inr v \<longleftrightarrow> first = Inr v \<and> second = Some JEOF"
    by (auto simp: Decode_def decode_def split: sum.splits option.splits JsonErr.splits)
  with Decode_failed show ?thesis by blast
qed

end
