(* ===== verification/Files.thy ===== *)
theory Files
  imports GoStd "HOL-Library.Sublist"
begin

text \<open>
  The file system the commander and the runner use, as far as they use it, and the helpers of
  \<open>pkg/server/files.go\<close>.

  The state is a map from clean paths to nodes together with a script of faults: every call of the
  operating system consumes the next fault, and an empty script means that the call is not disturbed.
  A write that fails may leave a part of its bytes behind. Permission bits are not modelled.
\<close>

section \<open>The operating system\<close>

datatype Node = File bytes | DirNode

datatype OsFault = NoFault | Fault goerr nat

record FS =
  nodes :: "(string, Node) fmap"
  faults :: "OsFault list"

definition nextFault :: "FS \<Rightarrow> OsFault" where
  "nextFault fs = (case faults fs of [] \<Rightarrow> NoFault | f # _ \<Rightarrow> f)"

definition popFault :: "FS \<Rightarrow> FS" where
  "popFault fs = fs\<lparr>faults := tl (faults fs)\<rparr>"

definition isDirAt :: "FS \<Rightarrow> string \<Rightarrow> bool" where
  "isDirAt fs p \<longleftrightarrow> fmlookup (nodes fs) p = Some DirNode"

definition putFile :: "string \<Rightarrow> bytes \<Rightarrow> FS \<Rightarrow> FS" where
  "putFile p bs fs = fs\<lparr>nodes := fmupd p (File bs) (nodes fs)\<rparr>"

definition errIsDir :: goerr where
  "errIsDir = ErrExternal ''is a directory''"

text \<open>\<open>os.WriteFile\<close>: the directory must exist and the path must not be a directory. A fault \<open>Fault e n\<close>
  strikes after the file was truncated and \<open>n\<close> bytes were written.\<close>

definition os_WriteFile :: "string \<Rightarrow> bytes \<Rightarrow> FS \<Rightarrow> FS \<times> goerr option" where
  "os_WriteFile path bs fs =
     (let p = filepath_Clean path; fs' = popFault fs
      in if \<not> isDirAt fs (filepath_Dir p) then (fs', Some ErrNotExist)
         else if isDirAt fs p then (fs', Some errIsDir)
         else case nextFault fs of
                NoFault \<Rightarrow> (putFile p bs fs', None)
              | Fault e n \<Rightarrow> (putFile p (take n bs) fs', Some e))"

text \<open>\<open>os.Remove\<close>: a file, or a directory without entries.\<close>

definition os_Remove :: "string \<Rightarrow> FS \<Rightarrow> FS \<times> goerr option" where
  "os_Remove path fs =
     (let p = filepath_Clean path; fs' = popFault fs
      in case nextFault fs of
           Fault e _ \<Rightarrow> (fs', Some e)
         | NoFault \<Rightarrow>
             (case fmlookup (nodes fs) p of
                None \<Rightarrow> (fs', Some ErrNotExist)
              | Some DirNode \<Rightarrow>
                  (if fBex (fmdom (nodes fs)) (\<lambda>q. q \<noteq> p \<and> filepath_Dir q = p)
                   then (fs', Some (ErrExternal ''directory not empty''))
                   else (fs'\<lparr>nodes := fmdrop p (nodes fs)\<rparr>, None))
              | Some (File _) \<Rightarrow> (fs'\<lparr>nodes := fmdrop p (nodes fs)\<rparr>, None)))"

definition os_Stat :: "string \<Rightarrow> FS \<Rightarrow> FS \<times> Node res" where
  "os_Stat path fs =
     (let fs' = popFault fs
      in case nextFault fs of
           Fault e _ \<Rightarrow> (fs', Inl e)
         | NoFault \<Rightarrow>
             (case fmlookup (nodes fs) (filepath_Clean path) of
                None \<Rightarrow> (fs', Inl ErrNotExist)
              | Some n \<Rightarrow> (fs', Inr n)))"

text \<open>\<open>os.Open\<close> and the bytes it gives to read.\<close>

definition os_Open :: "string \<Rightarrow> FS \<Rightarrow> FS \<times> bytes res" where
  "os_Open path fs =
     (case os_Stat path fs of
        (fs', Inl e) \<Rightarrow> (fs', Inl e)
      | (fs', Inr DirNode) \<Rightarrow> (fs', Inl errIsDir)
      | (fs', Inr (File bs)) \<Rightarrow> (fs', Inr bs))"

text \<open>The directories on the way to a path, outermost first, without the root and the current one.\<close>

definition dirPrefixes :: "string \<Rightarrow> string list" where
  "dirPrefixes path =
     map (\<lambda>es. (if strings_HasPrefix path [slash] then [slash] else []) @ strings_Join es [slash])
       (tl (prefixes (rev (clean_stack path))))"

definition mkdir :: "string \<Rightarrow> FS \<Rightarrow> FS" where
  "mkdir p fs = fs\<lparr>nodes := fmupd p DirNode (nodes fs)\<rparr>"

definition isFileAt :: "FS \<Rightarrow> string \<Rightarrow> bool" where
  "isFileAt fs p \<longleftrightarrow> (case fmlookup (nodes fs) p of Some (File _) \<Rightarrow> True | _ \<Rightarrow> False)"

definition os_MkdirAll :: "string \<Rightarrow> FS \<Rightarrow> FS \<times> goerr option" where
  "os_MkdirAll path fs =
     (let fs' = popFault fs
      in case nextFault fs of
           Fault e _ \<Rightarrow> (fs', Some e)
         | NoFault \<Rightarrow>
             (if list_ex (isFileAt fs) (dirPrefixes path)
              then (fs', Some (ErrExternal ''not a directory''))
              else (fold mkdir (dirPrefixes path) fs', None)))"

text \<open>\<open>os.Rename\<close> of a file replaces the target file.\<close>

definition os_Rename :: "string \<Rightarrow> string \<Rightarrow> FS \<Rightarrow> FS \<times> goerr option" where
  "os_Rename old new fs =
     (let o' = filepath_Clean old; n = filepath_Clean new; fs' = popFault fs
      in case nextFault fs of
           Fault e _ \<Rightarrow> (fs', Some e)
         | NoFault \<Rightarrow>
             (case fmlookup (nodes fs) o' of
                Some (File bs) \<Rightarrow>
                  (if isDirAt fs n then (fs', Some (ErrExternal ''file exists''))
                   else if \<not> isDirAt fs (filepath_Dir n) then (fs', Some ErrNotExist)
                   else (fs'\<lparr>nodes := fmupd n (File bs) (fmdrop o' (nodes fs))\<rparr>, None))
              | _ \<Rightarrow> (fs', Some ErrNotExist)))"

text \<open>
  \<open>os.CreateTemp\<close>: the random strings it tries are a parameter; they replace the last star of the
  pattern, or are put behind it, and the first name that is not in use gets an empty file.
\<close>

definition tempName :: "string \<Rightarrow> string \<Rightarrow> string \<Rightarrow> string" where
  "tempName dir pattern rand =
     (let (behind, upto) = (takeWhile (\<lambda>c. c \<noteq> CHR ''*'') (rev pattern), dropWhile (\<lambda>c. c \<noteq> CHR ''*'') (rev pattern))
      in (if strings_HasSuffix dir [slash] then dir else dir @ [slash]) @
         (if upto = [] then pattern @ rand else rev (tl upto) @ rand @ rev behind))"

definition os_CreateTemp :: "string list \<Rightarrow> string \<Rightarrow> string \<Rightarrow> FS \<Rightarrow> FS \<times> string res" where
  "os_CreateTemp rands dir pattern fs =
     (if slash \<in> set pattern then (fs, Inl (ErrExternal ''pattern contains path separator''))
      else let fs' = popFault fs
           in case nextFault fs of
                Fault e _ \<Rightarrow> (fs', Inl e)
              | NoFault \<Rightarrow>
                  (if \<not> isDirAt fs (filepath_Clean dir) then (fs', Inl ErrNotExist)
                   else case find (\<lambda>r. fmlookup (nodes fs) (filepath_Clean (tempName dir pattern r)) = None) rands of
                          None \<Rightarrow> (fs', Inl (ErrExternal ''file exists''))
                        | Some r \<Rightarrow>
                            (putFile (filepath_Clean (tempName dir pattern r)) [] fs', Inr (tempName dir pattern r))))"

text \<open>\<open>io.Copy\<close> to an open file: a reader is the bytes it delivers and the error at their end. A fault
  strikes after \<open>n\<close> bytes were written. The result is the number of bytes and the error.\<close>

definition appendFile :: "string \<Rightarrow> bytes \<Rightarrow> FS \<Rightarrow> FS" where
  "appendFile p bs fs =
     (case fmlookup (nodes fs) p of Some (File old) \<Rightarrow> putFile p (old @ bs) fs | _ \<Rightarrow> fs)"

definition io_Copy :: "string \<Rightarrow> bytes \<times> goerr option \<Rightarrow> FS \<Rightarrow> FS \<times> nat \<times> goerr option" where
  "io_Copy file reader fs =
     (let p = filepath_Clean file; fs' = popFault fs
      in case nextFault fs of
           NoFault \<Rightarrow> (appendFile p (fst reader) fs', length (fst reader), snd reader)
         | Fault e n \<Rightarrow> (appendFile p (take n (fst reader)) fs', min n (length (fst reader)), Some e))"

definition file_Close :: "FS \<Rightarrow> FS \<times> goerr option" where
  "file_Close fs = (popFault fs, case nextFault fs of Fault e _ \<Rightarrow> Some e | NoFault \<Rightarrow> None)"

definition os_Chmod :: "string \<Rightarrow> FS \<Rightarrow> FS \<times> goerr option" where
  "os_Chmod path fs =
     (popFault fs, case nextFault fs of
        Fault e _ \<Rightarrow> Some e
      | NoFault \<Rightarrow> (if fmlookup (nodes fs) (filepath_Clean path) = None then Some ErrNotExist else None))"

section \<open>The helpers of the servers\<close>

text \<open>\<open>DeleteFile\<close> only logs a failure.\<close>

definition DeleteFile :: "string \<Rightarrow> FS \<Rightarrow> FS" where
  "DeleteFile fPath fs = fst (os_Remove fPath fs)"

definition CreateFile :: "string \<Rightarrow> bytes \<Rightarrow> FS \<Rightarrow> FS \<times> goerr option" where
  "CreateFile filePath bs fs =
     (case os_WriteFile filePath bs fs of
        (fs1, Some err) \<Rightarrow> (DeleteFile filePath fs1, Some err)
      | (fs1, None) \<Rightarrow> (fs1, None))"

definition CreateDirIfNotExists :: "string \<Rightarrow> FS \<Rightarrow> (FS \<times> goerr option) outcome" where
  "CreateDirIfNotExists path fs =
     assertThat (path \<noteq> []) ''path can't be empty''
      (case os_Stat path fs of
         (fs1, Inl err) \<Rightarrow>
           (if errors_Is err ErrNotExist
            then (case os_MkdirAll path fs1 of
                    (fs2, Some err2) \<Rightarrow>
                      Returns (fs2, Some (wrapf ''failed to create dir %q: %w'' [path] err2))
                  | (fs2, None) \<Rightarrow> Returns (fs2, None))
            else Returns (fs1, Some err))
       | (fs1, Inr (File _)) \<Rightarrow>
           Returns (fs1, Some (Errorf ''path '%s' exists, but is not directory'' [path] None))
       | (fs1, Inr DirNode) \<Rightarrow> Returns (fs1, None))"

section \<open>Laws\<close>

lemma nodes_popFault [simp]: "nodes (popFault fs) = nodes fs"
  by (simp add: popFault_def)

lemma nodes_putFile [simp]: "nodes (putFile p bs fs) = fmupd p (File bs) (nodes fs)"
  by (simp add: putFile_def)

text \<open>\<open>CreateFile\<close> touches no other path; on success the file has the given bytes.\<close>

lemma CreateFile_success:
  assumes "CreateFile p bs fs = (fs', None)"
  shows "nodes fs' = fmupd (filepath_Clean p) (File bs) (nodes fs)"
  using assms
  by (auto simp: CreateFile_def os_WriteFile_def Let_def split: if_splits OsFault.splits option.splits)

lemma DeleteFile_frame:
  assumes "q \<noteq> filepath_Clean p"
  shows "fmlookup (nodes (DeleteFile p fs)) q = fmlookup (nodes fs) q"
  using assms
  by (auto simp: DeleteFile_def os_Remove_def Let_def split: OsFault.splits option.splits Node.splits if_splits)

lemma CreateFile_frame:
  assumes "CreateFile p bs fs = (fs', err)" and "q \<noteq> filepath_Clean p"
  shows "fmlookup (nodes fs') q = fmlookup (nodes fs) q"
  using assms DeleteFile_frame[OF assms(2)]
  by (auto simp: CreateFile_def os_WriteFile_def Let_def split: if_splits OsFault.splits option.splits)

text \<open>A write that fails half way leaves nothing behind when the removal is not disturbed.\<close>

lemma CreateFile_failure_cleans:
  assumes "CreateFile p bs fs = (fs', Some err)" and "tl (faults fs) = []"
    and "isDirAt fs (filepath_Dir (filepath_Clean p))" and "\<not> isDirAt fs (filepath_Clean p)"
  shows "fmlookup (nodes fs') (filepath_Clean p) = None"
  using assms
  by (auto simp: CreateFile_def os_WriteFile_def DeleteFile_def os_Remove_def Let_def nextFault_def
      popFault_def putFile_def split: OsFault.splits)

section \<open>Temporary files and directories\<close>

lemma tempName_path:
  assumes "plain_name name" and "slash \<notin> set r"
  shows "filepath_Clean (tempName (filepath_Clean d) (name @ ''-*'') r) = filepath_Join [d, name @ ''-'' @ r]"
proof -
  let ?f = "name @ ''-'' @ r" and ?d = "filepath_Clean d"
  have f: "plain_name ?f" using assms by (auto simp: plain_name_def slash_def append_eq_Cons_conv)
  have ne: "?d \<noteq> []" by (simp add: filepath_Clean_def Let_def)
  have "filepath_Clean (?d @ slash # ?f) = filepath_Join [d, ?f]"
    using Clean_append_name[OF f ne] Join_Clean[OF f] by simp
  moreover have "filepath_Clean (?d @ ?f) = filepath_Join [d, ?f]" if suf: "strings_HasSuffix ?d [slash]"
  proof -
    obtain x where x: "?d = x @ [slash]"
      using suf unfolding HasSuffix_iff by blast
    have "?d @ ?f = x @ slash # ?f" using x by simp
    moreover have "filepath_Clean (x @ slash # ?f) = filepath_Join [?d, ?f]"
    proof (cases "x = []")
      case True
      then show ?thesis using x Clean_root_name[OF f] by simp
    next
      case False
      have "clean_stack (x @ [slash]) = clean_stack x" "strings_HasPrefix (x @ [slash]) [slash] = strings_HasPrefix x [slash]"
        using False Split_append[of x slash "[]"] by (cases x; simp add: clean_stack_def)+
      then show ?thesis unfolding x Clean_append_name[OF f False] Join_shape[OF f] by simp
    qed
    ultimately show ?thesis using Join_Clean[OF f, of d] by metis
  qed
  ultimately show ?thesis by (simp add: tempName_def Let_def)
qed

lemma strings_Join_prefix:
  assumes "prefix es zs"
  shows "length (strings_Join es sep) \<le> length (strings_Join zs sep)"
  using assms
proof (induction zs rule: rev_induct)
  case (snoc z zs)
  show ?case
  proof (cases "es = zs @ [z]")
    case False
    then have "length (strings_Join es sep) \<le> length (strings_Join zs sep)" using snoc by (simp add: prefix_snoc)
    then show ?thesis by (cases "zs = []") (simp_all add: Join_append)
  qed simp
qed simp

lemma file_not_dirPrefix:
  assumes "plain_name f"
  shows "filepath_Join [d, f] \<notin> set (dirPrefixes (filepath_Clean d))"
proof
  assume "filepath_Join [d, f] \<in> set (dirPrefixes (filepath_Clean d))"
  then obtain es where es: "prefix es (rev (clean_stack d))"
    "filepath_Join [d, f] = (if strings_HasPrefix d [slash] then [slash] else []) @ strings_Join es [slash]"
    by (auto simp: dirPrefixes_def dest!: list.set_sel(2)[rotated])
  have "length (filepath_Join [d, f]) \<le> length ((if strings_HasPrefix d [slash] then [slash] else []) @
      strings_Join (rev (clean_stack d)) [slash])"
    unfolding es(2) using strings_Join_prefix[OF es(1), of "[slash]"] by simp
  then show False using assms by (auto simp: Join_shape[OF assms] plain_name_def)
qed

text \<open>\<open>MkdirAll\<close> only adds directories.\<close>

lemma fold_mkdir_lookup:
  "fmlookup (nodes (fold mkdir ps fs)) q = (if q \<in> set ps then Some DirNode else fmlookup (nodes fs) q)"
  by (induction ps arbitrary: fs) (auto simp: mkdir_def)

lemma MkdirAll_frame:
  assumes "os_MkdirAll path fs = (fs', err)"
  shows "fmlookup (nodes fs') q = fmlookup (nodes fs) q \<or>
    q \<in> set (dirPrefixes path) \<and> fmlookup (nodes fs) q = None \<and> fmlookup (nodes fs') q = Some DirNode"
  using assms
  by (auto simp: os_MkdirAll_def Let_def fold_mkdir_lookup list_ex_iff isFileAt_def
      split: OsFault.splits if_splits option.splits Node.splits) (metis Node.exhaust option.exhaust)

end
