(* ===== verification/FuncStorage.thy ===== *)
theory FuncStorage
  imports Files
begin

text \<open>
  The function storage of the commander (\<open>pkg/commander/func_storage.go\<close>): a directory with one file
  per uploaded binary, named after the sanitised name and the hash of the binary.

  The digest \<open>crypto/sha256\<close> is a parameter \<open>sha256\<close> of the definitions that use it; the theorems that
  need it assume that its values have 32 bytes.
\<close>

section \<open>The program\<close>

record FileSystemFunctionStorage =
  storageRoot :: string

definition NewFSFunctionStorage :: "string \<Rightarrow> FS \<Rightarrow> (FS \<times> FileSystemFunctionStorage res) outcome" where
  "NewFSFunctionStorage root fs =
     (case CreateDirIfNotExists root fs of
        Panics msg \<Rightarrow> Panics msg
      | Returns (fs', Some err) \<Rightarrow> Returns (fs', Inl err)
      | Returns (fs', None) \<Rightarrow> Returns (fs', Inr \<lparr>storageRoot = root\<rparr>))"

definition BytesSha256 :: "(bytes \<Rightarrow> bytes) \<Rightarrow> bytes \<Rightarrow> bytes" where
  "BytesSha256 sha256 bs = sha256 bs"

text \<open>The character class \<open>[a-zA-Z0-9_ -]\<close> and the regular expression of valid file names.\<close>

definition nameChar :: "char \<Rightarrow> bool" where
  "nameChar c \<longleftrightarrow>
     (let n = of_char c :: nat
      in (97 \<le> n \<and> n \<le> 122) \<or> (65 \<le> n \<and> n \<le> 90) \<or> (48 \<le> n \<and> n \<le> 57) \<or>
         c = CHR ''_'' \<or> c = CHR '' '' \<or> c = CHR ''-'')"

definition validFilename :: "string \<Rightarrow> bool" where
  "validFilename s \<longleftrightarrow>
     (let b = takeWhile nameChar s; rest = dropWhile nameChar s
      in b \<noteq> [] \<and>
         (case rest of
            [] \<Rightarrow> True
          | c # e \<Rightarrow> c = CHR ''.'' \<and> e \<noteq> [] \<and> list_all nameChar e))"

definition UncleanFuncFilename :: string where
  "UncleanFuncFilename = ''func''"

definition sanitizeFilename :: "string \<Rightarrow> string" where
  "sanitizeFilename name =
     (let name = filepath_Base name
      in if \<not> validFilename name then UncleanFuncFilename else name)"

definition functionFilename :: "string \<Rightarrow> bytes \<Rightarrow> string" where
  "functionFilename funcName hash =
     (let sanitizedFilename = sanitizeFilename funcName;
          ext = filepath_Ext sanitizedFilename;
          base = strings_TrimSuffix sanitizedFilename ext;
          fname = base @ ''-'' @ hexX hash
      in if ext = [] then fname else fname @ ext)"

definition Save ::
  "FileSystemFunctionStorage \<Rightarrow> string \<Rightarrow> bytes \<Rightarrow> bytes \<Rightarrow> FS \<Rightarrow> FS \<times> string res" where
  "Save s funcName hash funcBytes fs =
     (let funcPath = filepath_Join [storageRoot s, functionFilename funcName hash]
      in case CreateFile funcPath funcBytes fs of
           (fs', Some err) \<Rightarrow> (fs', Inl err)
         | (fs', None) \<Rightarrow> (fs', Inr funcPath))"

section \<open>Shape of the file names\<close>

lemma nameChar_not_special: "nameChar c \<Longrightarrow> c \<noteq> CHR ''.'' \<and> c \<noteq> slash"
  by (auto simp: nameChar_def slash_def Let_def)

text \<open>A valid name is a non-empty base and either no extension or a dot and a non-empty one.\<close>

lemma validFilename_cases:
  assumes "validFilename s"
  obtains b e where "s = b @ e" "b \<noteq> []" "list_all nameChar b"
    "e = [] \<or> (\<exists>x. e = CHR ''.'' # x \<and> x \<noteq> [] \<and> list_all nameChar x)"
proof -
  let ?b = "takeWhile nameChar s" and ?e = "dropWhile nameChar s"
  have "list_all nameChar ?b" by (auto simp: list_all_iff dest: set_takeWhileD)
  moreover have "?b \<noteq> []" using assms by (simp add: validFilename_def Let_def)
  moreover have "?e = [] \<or> (\<exists>x. ?e = CHR ''.'' # x \<and> x \<noteq> [] \<and> list_all nameChar x)"
    using assms unfolding validFilename_def Let_def by (cases ?e) simp_all
  ultimately show ?thesis by (intro that[of ?b ?e]) simp_all
qed

lemma validFilename_func: "validFilename UncleanFuncFilename"
  by (simp add: validFilename_def UncleanFuncFilename_def nameChar_def)

lemma sanitizeFilename_valid: "validFilename (sanitizeFilename name)"
  by (simp add: sanitizeFilename_def Let_def validFilename_func)

lemma list_all_nameChar_no_dot: "list_all nameChar x \<Longrightarrow> CHR ''.'' \<notin> set x \<and> slash \<notin> set x"
  using nameChar_not_special by (auto simp: list_all_iff)

lemma no_dot_takeWhile:
  assumes "CHR ''.'' \<notin> set x"
  shows "takeWhile (\<lambda>c. c \<noteq> CHR ''.'') (rev x @ q) = rev x @ takeWhile (\<lambda>c. c \<noteq> CHR ''.'') q"
  using assms by (induction x arbitrary: q) auto

lemma Ext_split:
  assumes "list_all nameChar b" and "e = [] \<or> (\<exists>x. e = CHR ''.'' # x \<and> list_all nameChar x)"
  shows "filepath_Ext (b @ e) = e"
proof -
  have b: "CHR ''.'' \<notin> set b" "slash \<notin> set b" using list_all_nameChar_no_dot[OF assms(1)] by auto
  show ?thesis
  proof (cases "e = []")
    case True
    have "takeWhile (\<lambda>c. c \<noteq> CHR ''.'') (rev b) = rev b"
      using no_dot_takeWhile[OF b(1), of "[]"] by (metis append_Nil2 takeWhile.simps(1))
    then have "length (takeWhile (\<lambda>c. c \<noteq> CHR ''.'') (rev b)) = length b" by (simp only: length_rev)
    then show ?thesis
      unfolding filepath_Ext_def True append_Nil2 after_slash_none[OF b(2)] Let_def by (simp only: if_True refl)
  next
    case False
    with assms(2) obtain x where x: "e = CHR ''.'' # x" "list_all nameChar x" by auto
    then have "CHR ''.'' \<notin> set x" "slash \<notin> set (b @ e)"
      using b list_all_nameChar_no_dot[of x] by (auto simp: slash_def)
    then show ?thesis
      using x no_dot_takeWhile[of x "CHR ''.'' # rev b"]
      by (simp add: filepath_Ext_def after_slash_none Let_def)
  qed
qed

text \<open>The name of a stored function: base, dash, hash, extension.\<close>

lemma functionFilename_split:
  obtains b e where "sanitizeFilename name = b @ e" "b \<noteq> []" "list_all nameChar b"
    "e = [] \<or> (\<exists>x. e = CHR ''.'' # x \<and> x \<noteq> [] \<and> list_all nameChar x)"
    "\<And>hash. functionFilename name hash = b @ CHR ''-'' # hexX hash @ e"
proof -
  obtain b e where be: "sanitizeFilename name = b @ e" "b \<noteq> []" "list_all nameChar b"
      "e = [] \<or> (\<exists>x. e = CHR ''.'' # x \<and> x \<noteq> [] \<and> list_all nameChar x)"
    using validFilename_cases[OF sanitizeFilename_valid] by blast
  have "filepath_Ext (b @ e) = e" using Ext_split[OF be(3)] be(4) by blast
  with be show ?thesis
    by (intro that[of b e]) (auto simp: functionFilename_def Let_def)
qed

lemma hex_nameChar:
  assumes "0 \<le> d" "d < 16"
  shows "nameChar (digit_char d)"
proof -
  have "int (of_char (digit_char d)) = (if d < 10 then 48 + d else 55 + d)"
    using of_char_hexdigit[OF assms] by (simp add: of_char_def)
  then show ?thesis using assms by (auto simp: nameChar_def Let_def split: if_splits)
qed

lemma list_all_nameChar_hexX: "list_all nameChar (hexX bs)"
  using hexX_chars hex_nameChar by (fastforce simp: list_all_iff)

lemma functionFilename_plain: "plain_name (functionFilename name hash)"
proof -
  obtain b e where be: "b \<noteq> []" "list_all nameChar b"
      "e = [] \<or> (\<exists>x. e = CHR ''.'' # x \<and> x \<noteq> [] \<and> list_all nameChar x)"
      "functionFilename name hash = b @ CHR ''-'' # hexX hash @ e"
    using functionFilename_split[of name] by metis
  have ns: "slash \<notin> set b" "slash \<notin> set (hexX hash)" "slash \<notin> set e"
    using be list_all_nameChar_no_dot list_all_nameChar_hexX by (auto simp: slash_def)
  have "CHR ''-'' \<in> set (functionFilename name hash)" using be(4) by simp
  then have "functionFilename name hash \<notin> {[], ''.'', ''..''}" by auto
  with ns be(4) show ?thesis by (auto simp: plain_name_def slash_def)
qed

section \<open>Properties\<close>

lemma Save_eq:
  "Save s name hash bs fs =
     (let p = filepath_Join [storageRoot s, functionFilename name hash]
      in (fst (CreateFile p bs fs),
          case snd (CreateFile p bs fs) of None \<Rightarrow> Inr p | Some err \<Rightarrow> Inl err))"
  by (simp add: Save_def Let_def split: prod.splits option.splits)

lemma Save_success:
  assumes "Save s name hash bs fs = (fs', Inr p)"
  shows "p = filepath_Join [storageRoot s, functionFilename name hash]"
    and "nodes fs' = fmupd p (File bs) (nodes fs)"
proof -
  let ?p = "filepath_Join [storageRoot s, functionFilename name hash]"
  obtain err where c: "CreateFile ?p bs fs = (fs', err)" and r: "Inr p = (case err of None \<Rightarrow> Inr ?p | Some e \<Rightarrow> Inl e)"
    using assms unfolding Save_eq Let_def by (cases "CreateFile ?p bs fs") simp
  from r have err: "err = None" and p: "p = ?p" by (cases err, simp_all)+
  show "p = ?p" by (rule p)
  show "nodes fs' = fmupd p (File bs) (nodes fs)"
    using CreateFile_success[of ?p bs fs fs'] c err Clean_Join[OF functionFilename_plain] p by simp
qed

lemma Save_frame:
  assumes "Save s name hash bs fs = (fs', r)"
    and "q \<noteq> filepath_Join [storageRoot s, functionFilename name hash]"
  shows "fmlookup (nodes fs') q = fmlookup (nodes fs) q"
proof -
  let ?p = "filepath_Join [storageRoot s, functionFilename name hash]"
  obtain err where "CreateFile ?p bs fs = (fs', err)"
    using assms(1) unfolding Save_eq Let_def by (cases "CreateFile ?p bs fs") simp
  from CreateFile_frame[OF this, of q] assms(2) Clean_Join[OF functionFilename_plain] show ?thesis by simp
qed

lemma Join_filename_inject:
  assumes "filepath_Join [root, functionFilename n1 h1] = filepath_Join [root, functionFilename n2 h2]"
  shows "functionFilename n1 h1 = functionFilename n2 h2"
  using Base_Join[OF functionFilename_plain, of root] assms by metis

text \<open>Equal file names need equal hashes.\<close>

lemma functionFilename_hash:
  assumes "length h1 = length h2" and "functionFilename n1 h1 = functionFilename n2 h2"
  shows "sanitizeFilename n1 = sanitizeFilename n2 \<and> h1 = h2"
proof -
  obtain b1 e1 where 1: "sanitizeFilename n1 = b1 @ e1" "list_all nameChar b1"
      "e1 = [] \<or> (\<exists>x. e1 = CHR ''.'' # x \<and> x \<noteq> [] \<and> list_all nameChar x)"
      "\<And>h. functionFilename n1 h = b1 @ CHR ''-'' # hexX h @ e1"
    using functionFilename_split[of n1] by metis
  obtain b2 e2 where 2: "sanitizeFilename n2 = b2 @ e2" "list_all nameChar b2"
      "e2 = [] \<or> (\<exists>x. e2 = CHR ''.'' # x \<and> x \<noteq> [] \<and> list_all nameChar x)"
      "\<And>h. functionFilename n2 h = b2 @ CHR ''-'' # hexX h @ e2"
    using functionFilename_split[of n2] by metis
  have Ext: "filepath_Ext ((b @ CHR ''-'' # hexX h) @ e) = e" if "list_all nameChar b"
    "e = [] \<or> (\<exists>x. e = CHR ''.'' # x \<and> x \<noteq> [] \<and> list_all nameChar x)" for b h e
    using that list_all_nameChar_hexX[of h] by (intro Ext_split) (auto simp: nameChar_def)
  have "e1 = e2"
    using assms(2) Ext[OF 1(2,3), of h1] Ext[OF 2(2,3), of h2] unfolding 1(4) 2(4) by simp
  with assms(2) have "b1 @ CHR ''-'' # hexX h1 = b2 @ CHR ''-'' # hexX h2" unfolding 1(4) 2(4) by simp
  moreover have "length (CHR ''-'' # hexX h1) = length (CHR ''-'' # hexX h2)" using assms(1) by simp
  ultimately have "b1 = b2" "hexX h1 = hexX h2" by auto
  with \<open>e1 = e2\<close> show ?thesis using 1(1) 2(1) by (simp add: hexX_inject)
qed

text \<open>
  C34: whatever name a client gives to a function, its binary is stored directly in the storage
  directory, under the computed file name: \<open>Save\<close> changes no other path, and a successful \<open>Save\<close>
  returns a path whose directory is the storage root and whose file holds exactly the bytes.
\<close>

theorem Save_stays_in_storage:
  fixes s name hash
  defines "p \<equiv> filepath_Join [storageRoot s, functionFilename name hash]"
  assumes "Save s name hash bs fs = (fs', r)"
  shows "filepath_Dir p = filepath_Clean (storageRoot s) \<and>
    filepath_Base p = functionFilename name hash \<and>
    (\<forall>q. q \<noteq> filepath_Clean p \<longrightarrow> fmlookup (nodes fs') q = fmlookup (nodes fs) q) \<and>
    (\<forall>p'. r = Inr p' \<longrightarrow> p' = p \<and> fmlookup (nodes fs') (filepath_Clean p) = Some (File bs))"
proof -
  obtain err where c: "CreateFile p bs fs = (fs', err)"
    and r: "r = (case err of None \<Rightarrow> Inr p | Some e \<Rightarrow> Inl e)"
    using assms(2) unfolding Save_eq p_def[symmetric] Let_def by (cases "CreateFile p bs fs") simp
  have "p' = p \<and> fmlookup (nodes fs') (filepath_Clean p) = Some (File bs)" if "r = Inr p'" for p'
    using that r c CreateFile_success[of p bs fs fs'] by (cases err) simp_all
  moreover have "fmlookup (nodes fs') q = fmlookup (nodes fs) q" if "q \<noteq> filepath_Clean p" for q
    using CreateFile_frame[OF c that] .
  ultimately show ?thesis
    unfolding p_def using Dir_Join[OF functionFilename_plain] Base_Join[OF functionFilename_plain] by blast
qed

definition example_fs :: FS where
  "example_fs = \<lparr>nodes = fmupd ''/srv'' DirNode fmempty, faults = []\<rparr>"

lemma example_Save:
  "Save \<lparr>storageRoot = ''/srv''\<rparr> ''../../etc/passwd'' [0x0A] [1, 2] example_fs =
     (\<lparr>nodes = fmupd ''/srv/passwd-0A'' (File [1, 2]) (fmupd ''/srv'' DirNode fmempty), faults = []\<rparr>,
      Inr ''/srv/passwd-0A'')"
  by code_simp

theorem Save_stays_in_storage_witness:
  "fmlookup (nodes (fst (Save \<lparr>storageRoot = ''/srv''\<rparr> ''../../etc/passwd'' [0x0A] [1, 2] example_fs)))
     ''/srv'' = Some DirNode"
proof -
  have "''/srv'' \<noteq> filepath_Clean (filepath_Join [storageRoot \<lparr>storageRoot = ''/srv''\<rparr>,
      functionFilename ''../../etc/passwd'' [0x0A]])"
    by code_simp
  then have "fmlookup (nodes (fst (Save \<lparr>storageRoot = ''/srv''\<rparr> ''../../etc/passwd'' [0x0A] [1, 2] example_fs)))
      ''/srv'' = fmlookup (nodes example_fs) ''/srv''"
    using Save_stays_in_storage[OF surjective_pairing] by blast
  then show ?thesis by (simp only: example_fs_def) simp
qed

text \<open>
  the storage never mixes up two functions: two uploads get the same file name only when their
  hashes are equal and their sanitised names are equal (the hash has a fixed length).
\<close>

lemma functionFilename_injective:
  assumes "length h1 = length h2"
  shows "functionFilename n1 h1 = functionFilename n2 h2 \<longleftrightarrow>
    sanitizeFilename n1 = sanitizeFilename n2 \<and> h1 = h2"
  using functionFilename_hash[OF assms] by (auto simp: functionFilename_def)

end
