(* ===== verification/Caching.thy ===== *)
theory Caching
  imports Prelude
begin

text \<open>
  The routing cache of the commander: the interface \<open>RoutingCache\<close> (\<open>pkg/caching/cache.go\<close>) and its
  implementation \<open>InMemoryCache\<close> (\<open>pkg/caching/in_memory.go\<close>).

  The seven maps of the implementation are one record. Each operation holds the cache's mutex from
  its first to its last statement, so it is one atomic state transformer. The operations on the
  inner maps (\<open>c.funcInstances[f]\<close>, \<open>c.runnerInstances[r]\<close>) update the stored map in place; the
  model stores the updated inner map back. An inner map that is \<open>nil\<close> is an absent key.

  The invariant \<open>cache_inv\<close> says that the redundant maps agree. The abstract cache \<open>abs_cache\<close> is
  one map from instances to their function, runner and queue length, the set of known runners and
  their metrics; every operation refines its abstract counterpart.
\<close>

section \<open>The interface\<close>

text \<open>A \<open>float64\<close> is only ever copied; it is its 64-bit pattern.\<close>

record ResourceMetrics =
  CpuPercent :: "64 word"
  UnusedMemoryBytes :: uint64

record 'c RoutingCache =
  rcFunctionIdInstances :: "string \<Rightarrow> 'c \<Rightarrow> (string, goint) fmap res"
  rcRunnerAddressOfInstance :: "string \<Rightarrow> 'c \<Rightarrow> string res"
  rcRequestsPerRunner :: "'c \<Rightarrow> (string, goint) fmap res"
  rcStatsPerRunner :: "'c \<Rightarrow> (string, ResourceMetrics) fmap res"
  rcCachedInstancesCount :: "'c \<Rightarrow> nat res"
  rcSetInstance :: "string \<Rightarrow> string \<Rightarrow> string \<Rightarrow> goint \<Rightarrow> 'c \<Rightarrow> 'c \<times> goerr option"
  rcUpsertRunnerHeartbeat ::
    "string \<Rightarrow> (string, uint32) fmap \<Rightarrow> ResourceMetrics \<Rightarrow> 'c \<Rightarrow> 'c \<times> goerr option"
  rcRemoveRunner :: "string \<Rightarrow> 'c \<Rightarrow> 'c \<times> goerr option"

section \<open>The in-memory implementation\<close>

record InMemoryCache =
  funcInstances :: "(string, (string, goint) fmap) fmap"
  instanceFunction :: "(string, string) fmap"
  instanceRunner :: "(string, string) fmap"
  instanceQueue :: "(string, goint) fmap"
  runnerInstances :: "(string, string fset) fmap"
  runnerRequests :: "(string, goint) fmap"
  runnerStats :: "(string, ResourceMetrics) fmap"

definition NewInMemoryCache :: InMemoryCache where
  "NewInMemoryCache =
     \<lparr>funcInstances = fmempty, instanceFunction = fmempty, instanceRunner = fmempty,
      instanceQueue = fmempty, runnerInstances = fmempty, runnerRequests = fmempty,
      runnerStats = fmempty\<rparr>"

subsection \<open>Helpers, called with the lock held\<close>

definition addRunnerInstanceLocked :: "string \<Rightarrow> string \<Rightarrow> InMemoryCache \<Rightarrow> InMemoryCache" where
  "addRunnerInstanceLocked runnerAddr instanceID c =
     c\<lparr>runnerInstances :=
         fmupd runnerAddr (finsert instanceID (fmget {||} (runnerInstances c) runnerAddr))
           (runnerInstances c)\<rparr>"

definition removeFunctionInstanceLocked :: "string \<Rightarrow> string \<Rightarrow> InMemoryCache \<Rightarrow> InMemoryCache" where
  "removeFunctionInstanceLocked funcID instanceID c =
     (case fmlookup (funcInstances c) funcID of
        None \<Rightarrow> c
      | Some instances \<Rightarrow>
          (let instances' = fmdrop instanceID instances
           in if fmdom instances' = {||}
              then c\<lparr>funcInstances := fmdrop funcID (funcInstances c)\<rparr>
              else c\<lparr>funcInstances := fmupd funcID instances' (funcInstances c)\<rparr>))"

definition removeRunnerInstanceLocked :: "string \<Rightarrow> string \<Rightarrow> InMemoryCache \<Rightarrow> InMemoryCache" where
  "removeRunnerInstanceLocked runnerAddr instanceID c =
     (case fmlookup (runnerInstances c) runnerAddr of
        None \<Rightarrow> c
      | Some instances \<Rightarrow>
          c\<lparr>runnerInstances := fmupd runnerAddr (instances |-| {|instanceID|}) (runnerInstances c)\<rparr>)"

text \<open>The loop \<open>total += c.instanceQueue[instanceID]\<close> of \<open>recomputeRunnerRequestsLocked\<close>.\<close>

fun sumQueues :: "(string, goint) fmap \<Rightarrow> string list \<Rightarrow> goint \<Rightarrow> goint" where
  "sumQueues q [] tot = tot"
| "sumQueues q (i # is) tot = sumQueues q is (tot + fmget 0 q i)"

definition recomputeRunnerRequestsLocked ::
  "iterorder \<Rightarrow> string \<Rightarrow> InMemoryCache \<Rightarrow> InMemoryCache" where
  "recomputeRunnerRequestsLocked ord runnerAddr c =
     (case fmlookup (runnerInstances c) runnerAddr of
        None \<Rightarrow> c\<lparr>runnerRequests := fmdrop runnerAddr (runnerRequests c)\<rparr>
      | Some instances \<Rightarrow>
          c\<lparr>runnerRequests :=
              fmupd runnerAddr (sumQueues (instanceQueue c) (ord instances) 0) (runnerRequests c)\<rparr>)"

definition removeInstanceLocked :: "iterorder \<Rightarrow> string \<Rightarrow> InMemoryCache \<Rightarrow> InMemoryCache" where
  "removeInstanceLocked ord instanceID c =
     (let funcID = fmlookup (instanceFunction c) instanceID;
          runnerAddr = fmlookup (instanceRunner c) instanceID;
          c1 = (case funcID of None \<Rightarrow> c | Some f \<Rightarrow> removeFunctionInstanceLocked f instanceID c);
          c2 = (case runnerAddr of
                  None \<Rightarrow> c1
                | Some r \<Rightarrow>
                    recomputeRunnerRequestsLocked ord r (removeRunnerInstanceLocked r instanceID c1))
      in c2\<lparr>instanceFunction := fmdrop instanceID (instanceFunction c2),
            instanceRunner := fmdrop instanceID (instanceRunner c2),
            instanceQueue := fmdrop instanceID (instanceQueue c2)\<rparr>)"

subsection \<open>Operations\<close>

definition FunctionIdInstances :: "string \<Rightarrow> InMemoryCache \<Rightarrow> (string, goint) fmap res" where
  "FunctionIdInstances funcId c =
     (case fmlookup (funcInstances c) funcId of
        None \<Rightarrow> Inr fmempty
      | Some instances \<Rightarrow> Inr instances)"

definition SetInstance ::
  "iterorder \<Rightarrow> string \<Rightarrow> string \<Rightarrow> string \<Rightarrow> goint \<Rightarrow> InMemoryCache \<Rightarrow> InMemoryCache" where
  "SetInstance ord funcId instanceId runnerAddr queueLen c =
     (let previousFunc = fmget '''' (instanceFunction c) instanceId;
          previousRunner = fmget '''' (instanceRunner c) instanceId;
          c1 = (if previousFunc \<noteq> '''' \<and> previousFunc \<noteq> funcId
                then removeFunctionInstanceLocked previousFunc instanceId c else c);
          c2 = (if previousRunner \<noteq> '''' \<and> previousRunner \<noteq> runnerAddr
                then removeRunnerInstanceLocked previousRunner instanceId c1 else c1);
          c3 = c2\<lparr>funcInstances :=
                    fmupd funcId
                      (fmupd instanceId queueLen (fmget fmempty (funcInstances c2) funcId))
                      (funcInstances c2),
                  instanceFunction := fmupd instanceId funcId (instanceFunction c2),
                  instanceRunner := fmupd instanceId runnerAddr (instanceRunner c2),
                  instanceQueue := fmupd instanceId queueLen (instanceQueue c2),
                  runnerInstances :=
                    fmupd runnerAddr
                      (finsert instanceId (fmget {||} (runnerInstances c2) runnerAddr))
                      (runnerInstances c2)\<rparr>;
          c4 = recomputeRunnerRequestsLocked ord runnerAddr c3
      in if previousRunner \<noteq> '''' \<and> previousRunner \<noteq> runnerAddr
         then recomputeRunnerRequestsLocked ord previousRunner c4 else c4)"

text \<open>The body of the first loop of \<open>UpsertRunnerHeartbeat\<close>, for one reported instance.\<close>

definition upsertInstance ::
  "iterorder \<Rightarrow> string \<Rightarrow> string \<Rightarrow> uint32 \<Rightarrow> InMemoryCache \<Rightarrow> InMemoryCache" where
  "upsertInstance ord runnerAddr instanceID queueDepth c =
     (let previousRunner = fmget '''' (instanceRunner c) instanceID;
          c1 = (if previousRunner \<noteq> '''' \<and> previousRunner \<noteq> runnerAddr
                then recomputeRunnerRequestsLocked ord previousRunner
                       (removeRunnerInstanceLocked previousRunner instanceID c)
                else c);
          c2 = addRunnerInstanceLocked runnerAddr instanceID
                 (c1\<lparr>instanceRunner := fmupd instanceID runnerAddr (instanceRunner c1),
                     instanceQueue := fmupd instanceID (ucast queueDepth) (instanceQueue c1)\<rparr>)
      in case fmlookup (instanceFunction c2) instanceID of
           None \<Rightarrow> c2
         | Some funcID \<Rightarrow>
             c2\<lparr>funcInstances :=
                  fmupd funcID
                    (fmupd instanceID (ucast queueDepth) (fmget fmempty (funcInstances c2) funcID))
                    (funcInstances c2)\<rparr>)"

fun upsertInstances ::
  "iterorder \<Rightarrow> string \<Rightarrow> (string, uint32) fmap \<Rightarrow> string list \<Rightarrow> InMemoryCache \<Rightarrow> InMemoryCache"
where
  "upsertInstances ord runnerAddr queueDepths [] c = c"
| "upsertInstances ord runnerAddr queueDepths (i # is) c =
     upsertInstances ord runnerAddr queueDepths is
       (upsertInstance ord runnerAddr i (fmget 0 queueDepths i) c)"

text \<open>
  The second loop removes the previously known instances the heartbeat no longer reports, and the
  loop of \<open>RemoveRunner\<close> removes all of a runner's instances. Both delete the entry they are
  visiting from the set they range over, which Go allows; no other entry of that set changes.
\<close>

fun removeInstances :: "iterorder \<Rightarrow> string fset \<Rightarrow> string list \<Rightarrow> InMemoryCache \<Rightarrow> InMemoryCache" where
  "removeInstances ord keep [] c = c"
| "removeInstances ord keep (i # is) c =
     (if i |\<in>| keep then removeInstances ord keep is c
      else removeInstances ord keep is (removeInstanceLocked ord i c))"

text \<open>
  \<open>previousInstances\<close> is the stored set itself when there is one, so that it also holds the
  instances the first loop added to it; otherwise it is a fresh empty set.
\<close>

definition UpsertRunnerHeartbeat ::
  "iterorder \<Rightarrow> string \<Rightarrow> (string, uint32) fmap \<Rightarrow> ResourceMetrics \<Rightarrow> InMemoryCache \<Rightarrow> InMemoryCache"
where
  "UpsertRunnerHeartbeat ord runnerAddr queueDepths metrics c =
     (let newInstances = fmdom queueDepths;
          c1 = upsertInstances ord runnerAddr queueDepths (ord newInstances) c;
          previousInstances =
            (case fmlookup (runnerInstances c) runnerAddr of
               None \<Rightarrow> {||}
             | Some _ \<Rightarrow> fmget {||} (runnerInstances c1) runnerAddr);
          c2 = removeInstances ord newInstances (ord previousInstances) c1;
          c3 = c2\<lparr>runnerInstances := fmupd runnerAddr newInstances (runnerInstances c2)\<rparr>;
          c4 = recomputeRunnerRequestsLocked ord runnerAddr c3
      in c4\<lparr>runnerStats := fmupd runnerAddr metrics (runnerStats c4)\<rparr>)"

definition RunnerAddressOfInstance :: "string \<Rightarrow> InMemoryCache \<Rightarrow> string res" where
  "RunnerAddressOfInstance instanceId c =
     (case fmlookup (instanceRunner c) instanceId of
        None \<Rightarrow> Inl (Errorf ''no runner found for instance %q'' [instanceId] None)
      | Some addr \<Rightarrow> Inr addr)"

definition RemoveRunner :: "iterorder \<Rightarrow> string \<Rightarrow> InMemoryCache \<Rightarrow> InMemoryCache" where
  "RemoveRunner ord runnerAddr c =
     (let instances = fmget {||} (runnerInstances c) runnerAddr;
          c1 = removeInstances ord {||} (ord instances) c
      in c1\<lparr>runnerInstances := fmdrop runnerAddr (runnerInstances c1),
            runnerRequests := fmdrop runnerAddr (runnerRequests c1),
            runnerStats := fmdrop runnerAddr (runnerStats c1)\<rparr>)"

definition RequestsPerRunner :: "InMemoryCache \<Rightarrow> (string, goint) fmap res" where
  "RequestsPerRunner c = Inr (runnerRequests c)"

definition StatsPerRunner :: "InMemoryCache \<Rightarrow> (string, ResourceMetrics) fmap res" where
  "StatsPerRunner c = Inr (runnerStats c)"

definition CachedInstancesCount :: "InMemoryCache \<Rightarrow> nat res" where
  "CachedInstancesCount c = Inr (fcard (fmdom (instanceRunner c)))"

text \<open>Three setters of the implementation that are not part of the interface.\<close>

definition UpdateInstanceQueueLen ::
  "iterorder \<Rightarrow> string \<Rightarrow> string \<Rightarrow> goint \<Rightarrow> InMemoryCache \<Rightarrow> InMemoryCache" where
  "UpdateInstanceQueueLen ord funcId instanceId queueLen c =
     (let c1 = c\<lparr>funcInstances :=
                   fmupd funcId
                     (fmupd instanceId queueLen (fmget fmempty (funcInstances c) funcId))
                     (funcInstances c),
                 instanceFunction := fmupd instanceId funcId (instanceFunction c),
                 instanceQueue := fmupd instanceId queueLen (instanceQueue c)\<rparr>;
          runnerAddr = fmget '''' (instanceRunner c1) instanceId
      in if runnerAddr \<noteq> '''' then recomputeRunnerRequestsLocked ord runnerAddr c1 else c1)"

definition SetRunnerRequests :: "string \<Rightarrow> goint \<Rightarrow> InMemoryCache \<Rightarrow> InMemoryCache" where
  "SetRunnerRequests runnerAddr count c =
     c\<lparr>runnerRequests := fmupd runnerAddr count (runnerRequests c)\<rparr>"

definition SetRunnerStats :: "string \<Rightarrow> ResourceMetrics \<Rightarrow> InMemoryCache \<Rightarrow> InMemoryCache" where
  "SetRunnerStats runnerAddr metrics c =
     c\<lparr>runnerStats := fmupd runnerAddr metrics (runnerStats c)\<rparr>"

text \<open>The implementation behind the interface: no operation returns an error but the lookup.\<close>

definition inMemoryRoutingCache :: "iterorder \<Rightarrow> InMemoryCache RoutingCache" where
  "inMemoryRoutingCache ord =
     \<lparr>rcFunctionIdInstances = FunctionIdInstances,
      rcRunnerAddressOfInstance = RunnerAddressOfInstance,
      rcRequestsPerRunner = RequestsPerRunner,
      rcStatsPerRunner = StatsPerRunner,
      rcCachedInstancesCount = CachedInstancesCount,
      rcSetInstance = (\<lambda>f i r q c. (SetInstance ord f i r q c, None)),
      rcUpsertRunnerHeartbeat = (\<lambda>r qd m c. (UpsertRunnerHeartbeat ord r qd m c, None)),
      rcRemoveRunner = (\<lambda>r c. (RemoveRunner ord r c, None))\<rparr>"

section \<open>Views, invariant and abstract cache\<close>

text \<open>
  The queue length stored for an instance under a function, and the set of instances stored under
  a runner.
\<close>

definition fiq :: "InMemoryCache \<Rightarrow> string \<Rightarrow> string \<Rightarrow> goint option" where
  "fiq c f i = fmlookup (fmget fmempty (funcInstances c) f) i"

definition rset :: "InMemoryCache \<Rightarrow> string \<Rightarrow> string set" where
  "rset c r = fset (fmget {||} (runnerInstances c) r)"

text \<open>
  The redundant maps agree. Inside \<open>UpsertRunnerHeartbeat\<close> the request total of the reporting
  runner is out of date until the last statement, so the invariant is stated with a set \<open>R\<close> of
  runners whose totals are exempt.
\<close>

definition cache_inv_except :: "string set \<Rightarrow> InMemoryCache \<Rightarrow> bool" where
  "cache_inv_except R c \<longleftrightarrow>
     (\<forall>f. fmlookup (funcInstances c) f \<noteq> Some fmempty) \<and>
     (\<forall>f i. fiq c f i =
        (if fmlookup (instanceFunction c) i = Some f then fmlookup (instanceQueue c) i else None)) \<and>
     (\<forall>r. rset c r = {i. fmlookup (instanceRunner c) i = Some r}) \<and>
     (\<forall>i. fmlookup (instanceQueue c) i = None \<longleftrightarrow> fmlookup (instanceRunner c) i = None) \<and>
     (\<forall>i. fmlookup (instanceRunner c) i = None \<longrightarrow> fmlookup (instanceFunction c) i = None) \<and>
     (\<forall>i. fmlookup (instanceFunction c) i \<noteq> Some '''') \<and>
     (\<forall>i. fmlookup (instanceRunner c) i \<noteq> Some '''') \<and>
     (\<forall>r. fmlookup (runnerInstances c) r = None \<longrightarrow> fmlookup (runnerStats c) r = None) \<and>
     (\<forall>r. r \<notin> R \<longrightarrow>
        fmlookup (runnerRequests c) r =
          map_option (\<lambda>S. \<Sum>i\<in>fset S. fmget 0 (instanceQueue c) i) (fmlookup (runnerInstances c) r)) \<and>
     fmlookup (runnerInstances c) '''' = None"

abbreviation cache_inv :: "InMemoryCache \<Rightarrow> bool" where
  "cache_inv \<equiv> cache_inv_except {}"

text \<open>What the interface promises, as one map instead of seven.\<close>

record AbsCache =
  assign :: "string \<Rightarrow> (string option \<times> string \<times> goint) option"
  runners :: "string set"
  stats :: "string \<Rightarrow> ResourceMetrics option"

definition abs_cache :: "InMemoryCache \<Rightarrow> AbsCache" where
  "abs_cache c =
     \<lparr>assign = (\<lambda>i. map_option
        (\<lambda>r. (fmlookup (instanceFunction c) i, r, fmget 0 (instanceQueue c) i))
        (fmlookup (instanceRunner c) i)),
      runners = fset (fmdom (runnerInstances c)),
      stats = fmlookup (runnerStats c)\<rparr>"

definition absSetInstance :: "string \<Rightarrow> string \<Rightarrow> string \<Rightarrow> goint \<Rightarrow> AbsCache \<Rightarrow> AbsCache" where
  "absSetInstance f i r q a =
     a\<lparr>assign := (assign a)(i \<mapsto> (Some f, r, q)), runners := insert r (runners a)\<rparr>"

definition absFunctionOf :: "AbsCache \<Rightarrow> string \<Rightarrow> string option" where
  "absFunctionOf a i = (case assign a i of None \<Rightarrow> None | Some (f, _, _) \<Rightarrow> f)"

definition absRunnerOf :: "AbsCache \<Rightarrow> string \<Rightarrow> string option" where
  "absRunnerOf a i = (case assign a i of None \<Rightarrow> None | Some (_, r, _) \<Rightarrow> Some r)"

definition absUpsertRunnerHeartbeat ::
  "string \<Rightarrow> (string, uint32) fmap \<Rightarrow> ResourceMetrics \<Rightarrow> AbsCache \<Rightarrow> AbsCache" where
  "absUpsertRunnerHeartbeat r qd m a =
     a\<lparr>assign := (\<lambda>i. case fmlookup qd i of
                        Some d \<Rightarrow> Some (absFunctionOf a i, r, ucast d)
                      | None \<Rightarrow> if absRunnerOf a i = Some r then None else assign a i),
       runners := insert r (runners a),
       stats := (stats a)(r \<mapsto> m)\<rparr>"

definition absRemoveRunner :: "string \<Rightarrow> AbsCache \<Rightarrow> AbsCache" where
  "absRemoveRunner r a =
     a\<lparr>assign := (\<lambda>i. if absRunnerOf a i = Some r then None else assign a i),
       runners := runners a - {r},
       stats := (stats a)(r := None)\<rparr>"

text \<open>The queries on the abstract cache.\<close>

definition absInstancesOf :: "AbsCache \<Rightarrow> string \<Rightarrow> string \<Rightarrow> goint option" where
  "absInstancesOf a f i =
     (case assign a i of None \<Rightarrow> None | Some (f', _, q) \<Rightarrow> if f' = Some f then Some q else None)"

definition absRequestsOf :: "AbsCache \<Rightarrow> string \<Rightarrow> goint option" where
  "absRequestsOf a r =
     (if r \<in> runners a
      then Some (\<Sum>i\<in>{i. absRunnerOf a i = Some r}. case assign a i of Some (_, _, q) \<Rightarrow> q | None \<Rightarrow> 0)
      else None)"

section \<open>Effects of the helpers\<close>

lemmas helper_defs =
  addRunnerInstanceLocked_def removeFunctionInstanceLocked_def removeRunnerInstanceLocked_def
  recomputeRunnerRequestsLocked_def

lemma sumQueues_sum_list: "sumQueues q xs t = t + sum_list (map (fmget 0 q) xs)"
  by (induction xs arbitrary: t) (simp_all add: algebra_simps)

lemma sumQueues_order:
  assumes "iter_order ord"
  shows "sumQueues q (ord S) 0 = (\<Sum>i\<in>fset S. fmget 0 q i)"
  using iter_orderD[OF assms, of S] by (simp add: sumQueues_sum_list sum_list_distinct_conv_sum_set)

lemma removeFunction_fields [field_simps_go]:
  "instanceFunction (removeFunctionInstanceLocked f i c) = instanceFunction c"
  "instanceRunner (removeFunctionInstanceLocked f i c) = instanceRunner c"
  "instanceQueue (removeFunctionInstanceLocked f i c) = instanceQueue c"
  "runnerInstances (removeFunctionInstanceLocked f i c) = runnerInstances c"
  "runnerRequests (removeFunctionInstanceLocked f i c) = runnerRequests c"
  "runnerStats (removeFunctionInstanceLocked f i c) = runnerStats c"
  by (simp_all add: helper_defs Let_def split: option.split)

lemma removeRunner_fields [field_simps_go]:
  "funcInstances (removeRunnerInstanceLocked r i c) = funcInstances c"
  "instanceFunction (removeRunnerInstanceLocked r i c) = instanceFunction c"
  "instanceRunner (removeRunnerInstanceLocked r i c) = instanceRunner c"
  "instanceQueue (removeRunnerInstanceLocked r i c) = instanceQueue c"
  "runnerRequests (removeRunnerInstanceLocked r i c) = runnerRequests c"
  "runnerStats (removeRunnerInstanceLocked r i c) = runnerStats c"
  by (simp_all add: helper_defs split: option.split)

lemma recompute_fields [field_simps_go]:
  "funcInstances (recomputeRunnerRequestsLocked ord r c) = funcInstances c"
  "instanceFunction (recomputeRunnerRequestsLocked ord r c) = instanceFunction c"
  "instanceRunner (recomputeRunnerRequestsLocked ord r c) = instanceRunner c"
  "instanceQueue (recomputeRunnerRequestsLocked ord r c) = instanceQueue c"
  "runnerInstances (recomputeRunnerRequestsLocked ord r c) = runnerInstances c"
  "runnerStats (recomputeRunnerRequestsLocked ord r c) = runnerStats c"
  by (simp_all add: helper_defs split: option.split)

lemma removeFunction_lookup:
  "fmlookup (funcInstances (removeFunctionInstanceLocked f i c)) f' =
     (if f' = f
      then (case fmlookup (funcInstances c) f of
              None \<Rightarrow> None
            | Some m \<Rightarrow> if fmdom (fmdrop i m) = {||} then None else Some (fmdrop i m))
      else fmlookup (funcInstances c) f')"
  by (simp add: helper_defs Let_def split: option.split)

lemma removeFunction_fiq:
  "fiq (removeFunctionInstanceLocked f i c) f' i' =
     (if f' = f \<and> i' = i then None else fiq c f' i')"
proof -
  have "fmlookup m i' = None" if "fmdom (fmdrop i m) = {||}" "i' \<noteq> i" for m :: "(string, goint) fmap"
    using that by (metis fmdom_empty_iff fmlookup_drop)
  then show ?thesis
    by (auto simp: fiq_def fmget_def removeFunction_lookup split: option.split)
qed

lemma removeFunction_nonempty:
  "fmlookup (funcInstances c) f' \<noteq> Some fmempty \<Longrightarrow>
   fmlookup (funcInstances (removeFunctionInstanceLocked f i c)) f' \<noteq> Some fmempty"
  by (auto simp: removeFunction_lookup simp del: fmdom_drop split: option.splits if_splits)

lemma removeRunner_lookup:
  "fmlookup (runnerInstances (removeRunnerInstanceLocked r i c)) r' =
     (if r' = r then map_option (\<lambda>S. S |-| {|i|}) (fmlookup (runnerInstances c) r)
      else fmlookup (runnerInstances c) r')"
  by (simp add: helper_defs split: option.split)

lemma removeRunner_rset:
  "rset (removeRunnerInstanceLocked r i c) r' = rset c r' - (if r' = r then {i} else {})"
  by (auto simp: rset_def fmget_def removeRunner_lookup split: option.split)

lemma recompute_lookup:
  assumes "iter_order ord"
  shows "fmlookup (runnerRequests (recomputeRunnerRequestsLocked ord r c)) r' =
     (if r' = r
      then map_option (\<lambda>S. \<Sum>i\<in>fset S. fmget 0 (instanceQueue c) i) (fmlookup (runnerInstances c) r)
      else fmlookup (runnerRequests c) r')"
  by (simp add: helper_defs sumQueues_order[OF assms] split: option.split)

lemma recompute_views [field_simps_go]:
  "fiq (recomputeRunnerRequestsLocked ord r c) = fiq c"
  "rset (recomputeRunnerRequestsLocked ord r c) = rset c"
  by (simp_all add: fun_eq_iff fiq_def rset_def field_simps_go)

lemma removeRunner_fiq [field_simps_go]: "fiq (removeRunnerInstanceLocked r i c) = fiq c"
  by (simp add: fun_eq_iff fiq_def field_simps_go)

lemma removeFunction_rset [field_simps_go]: "rset (removeFunctionInstanceLocked f i c) = rset c"
  by (simp add: fun_eq_iff rset_def field_simps_go)

section \<open>The operations keep the invariant\<close>

subsection \<open>One reported instance\<close>

lemma upsertInstance_fields [field_simps_go]:
  "instanceFunction (upsertInstance ord r i d c) = instanceFunction c"
  "instanceRunner (upsertInstance ord r i d c) = fmupd i r (instanceRunner c)"
  "instanceQueue (upsertInstance ord r i d c) = fmupd i (ucast d) (instanceQueue c)"
  "runnerStats (upsertInstance ord r i d c) = runnerStats c"
  by (simp_all add: upsertInstance_def addRunnerInstanceLocked_def Let_def field_simps_go
      split: option.split)

lemma upsertInstance_func_lookup:
  "fmlookup (funcInstances (upsertInstance ord r i d c)) f =
     (if fmlookup (instanceFunction c) i = Some f
      then Some (fmupd i (ucast d) (fmget fmempty (funcInstances c) f))
      else fmlookup (funcInstances c) f)"
  by (auto simp: upsertInstance_def addRunnerInstanceLocked_def Let_def field_simps_go
      split: option.split)

lemma upsertInstance_fiq:
  "fiq (upsertInstance ord r i d c) f i' =
     (if i' = i \<and> fmlookup (instanceFunction c) i = Some f then Some (ucast d) else fiq c f i')"
  by (simp add: fiq_def fmget_def upsertInstance_func_lookup split: option.split)

lemma upsertInstance_runner_lookup:
  assumes "fmlookup (instanceRunner c) i \<noteq> Some ''''"
  shows "fmlookup (runnerInstances (upsertInstance ord r i d c)) r' =
     (if r' = r then Some (finsert i (fmget {||} (runnerInstances c) r))
      else if fmlookup (instanceRunner c) i = Some r'
      then map_option (\<lambda>S. S |-| {|i|}) (fmlookup (runnerInstances c) r')
      else fmlookup (runnerInstances c) r')"
  using assms
  by (auto simp: upsertInstance_def addRunnerInstanceLocked_def Let_def field_simps_go fmget_def
      removeRunner_lookup split: option.split)

lemma upsertInstance_rset:
  assumes "fmlookup (instanceRunner c) i \<noteq> Some ''''"
  shows "rset (upsertInstance ord r i d c) r' =
     (if r' = r then insert i (rset c r)
      else if fmlookup (instanceRunner c) i = Some r' then rset c r' - {i}
      else rset c r')"
  by (simp add: rset_def fmget_def upsertInstance_runner_lookup[OF assms] split: option.split)

lemma upsertInstance_requests_lookup:
  assumes "iter_order ord" and "fmlookup (instanceRunner c) i \<noteq> Some ''''" and "r' \<noteq> r"
  shows "fmlookup (runnerRequests (upsertInstance ord r i d c)) r' =
     (if fmlookup (instanceRunner c) i = Some r'
      then map_option (\<lambda>S. \<Sum>j\<in>fset (S |-| {|i|}). fmget 0 (instanceQueue c) j)
             (fmlookup (runnerInstances c) r')
      else fmlookup (runnerRequests c) r')"
proof (cases "fmlookup (instanceRunner c) i")
  case None
  then show ?thesis
    by (simp add: upsertInstance_def addRunnerInstanceLocked_def Let_def field_simps_go
        split: option.split)
next
  case (Some p)
  with assms show ?thesis
    by (auto simp: upsertInstance_def addRunnerInstanceLocked_def Let_def field_simps_go
        recompute_lookup[OF assms(1)] removeRunner_lookup option.map_comp comp_def
        split: option.split)
qed

lemma cache_inv_exceptD:
  assumes "cache_inv_except R c"
  shows "fmlookup (funcInstances c) f \<noteq> Some fmempty"
    and "fiq c f i =
        (if fmlookup (instanceFunction c) i = Some f then fmlookup (instanceQueue c) i else None)"
    and "rset c r = {i. fmlookup (instanceRunner c) i = Some r}"
    and "fmlookup (instanceQueue c) i = None \<longleftrightarrow> fmlookup (instanceRunner c) i = None"
    and "fmlookup (instanceRunner c) i = None \<Longrightarrow> fmlookup (instanceFunction c) i = None"
    and "fmlookup (instanceFunction c) i \<noteq> Some ''''"
    and "fmlookup (instanceRunner c) i \<noteq> Some ''''"
    and "fmlookup (runnerInstances c) r = None \<Longrightarrow> fmlookup (runnerStats c) r = None"
    and "r \<notin> R \<Longrightarrow> fmlookup (runnerRequests c) r =
          map_option (\<lambda>S. \<Sum>i\<in>fset S. fmget 0 (instanceQueue c) i) (fmlookup (runnerInstances c) r)"
    and "fmlookup (runnerInstances c) '''' = None"
  using assms unfolding cache_inv_except_def by auto

lemma cache_inv_exceptI:
  assumes "\<And>f. fmlookup (funcInstances c) f \<noteq> Some fmempty"
    and "\<And>f i. fiq c f i =
        (if fmlookup (instanceFunction c) i = Some f then fmlookup (instanceQueue c) i else None)"
    and "\<And>r. rset c r = {i. fmlookup (instanceRunner c) i = Some r}"
    and "\<And>i. fmlookup (instanceQueue c) i = None \<longleftrightarrow> fmlookup (instanceRunner c) i = None"
    and "\<And>i. fmlookup (instanceRunner c) i = None \<Longrightarrow> fmlookup (instanceFunction c) i = None"
    and "\<And>i. fmlookup (instanceFunction c) i \<noteq> Some ''''"
    and "\<And>i. fmlookup (instanceRunner c) i \<noteq> Some ''''"
    and "\<And>r. fmlookup (runnerInstances c) r = None \<Longrightarrow> fmlookup (runnerStats c) r = None"
    and "\<And>r. r \<notin> R \<Longrightarrow> fmlookup (runnerRequests c) r =
          map_option (\<lambda>S. \<Sum>i\<in>fset S. fmget 0 (instanceQueue c) i) (fmlookup (runnerInstances c) r)"
    and "fmlookup (runnerInstances c) '''' = None"
  shows "cache_inv_except R c"
  using assms unfolding cache_inv_except_def by auto

lemma cache_inv_except_mono: "cache_inv_except R c \<Longrightarrow> R \<subseteq> R' \<Longrightarrow> cache_inv_except R' c"
  unfolding cache_inv_except_def by blast

lemma rset_lookup: "fmlookup (runnerInstances c) r = Some S \<Longrightarrow> rset c r = fset S"
  by (simp add: rset_def)

lemma sum_without_instance:
  "(\<Sum>j\<in>fset S - {i}. fmget 0 (fmupd i v q) j) = (\<Sum>j\<in>fset S - {i}. fmget 0 q j)"
  "(\<Sum>j\<in>fset S - {i}. fmget 0 (fmdrop i q) j) = (\<Sum>j\<in>fset S - {i}. fmget 0 q j)"
  by (rule sum.cong; auto)+

text \<open>An instance that is not stored under a runner does not count towards the runner's total.\<close>

lemma sum_other_instance:
  assumes "cache_inv_except R c" and "fmlookup (runnerInstances c) r = Some S"
    and "fmlookup (instanceRunner c) i \<noteq> Some r"
  shows "(\<Sum>j\<in>fset S. fmget 0 (fmupd i q (instanceQueue c)) j) =
         (\<Sum>j\<in>fset S. fmget 0 (instanceQueue c) j)"
    and "(\<Sum>j\<in>fset S. fmget 0 (fmdrop i (instanceQueue c)) j) =
         (\<Sum>j\<in>fset S. fmget 0 (instanceQueue c) j)"
proof -
  have "i \<notin> fset S"
    using cache_inv_exceptD(3)[OF assms(1), of r] rset_lookup[OF assms(2)] assms(3) by blast
  then show "(\<Sum>j\<in>fset S. fmget 0 (fmupd i q (instanceQueue c)) j) =
         (\<Sum>j\<in>fset S. fmget 0 (instanceQueue c) j)"
    and "(\<Sum>j\<in>fset S. fmget 0 (fmdrop i (instanceQueue c)) j) =
         (\<Sum>j\<in>fset S. fmget 0 (instanceQueue c) j)"
    by (auto intro: sum.cong)
qed

lemma upsertInstance_inv:
  assumes ord: "iter_order ord" and inv: "cache_inv_except R c" and r: "r \<noteq> ''''" "r \<in> R"
  shows "cache_inv_except R (upsertInstance ord r i d c)"
proof (rule cache_inv_exceptI)
  let ?c = "upsertInstance ord r i d c"
  note D = cache_inv_exceptD[OF inv]
  note L = upsertInstance_func_lookup upsertInstance_runner_lookup[OF D(7)] field_simps_go
  show "fmlookup (funcInstances ?c) f \<noteq> Some fmempty" for f
    using D(1)[of f] by (simp add: L fmap_eq_iff) metis
  show "fiq ?c f j =
     (if fmlookup (instanceFunction ?c) j = Some f then fmlookup (instanceQueue ?c) j else None)" for f j
    using D(2)[of f j] by (simp add: upsertInstance_fiq field_simps_go)
  show "rset ?c r' = {j. fmlookup (instanceRunner ?c) j = Some r'}" for r'
    using D(3)[of r'] by (auto simp: upsertInstance_rset[OF D(7)] field_simps_go)
  show "(fmlookup (instanceQueue ?c) j = None) = (fmlookup (instanceRunner ?c) j = None)" for j
    using D(4)[of j] by (simp add: L)
  show "fmlookup (instanceRunner ?c) j = None \<Longrightarrow> fmlookup (instanceFunction ?c) j = None" for j
    using D(5)[of j] by (simp add: L split: if_splits)
  show "fmlookup (instanceFunction ?c) j \<noteq> Some ''''" "fmlookup (instanceRunner ?c) j \<noteq> Some ''''" for j
    using D(6)[of j] D(7)[of j] r by (auto simp: L)
  show "fmlookup (runnerInstances ?c) r' = None \<Longrightarrow> fmlookup (runnerStats ?c) r' = None" for r'
    using D(8)[of r'] by (auto simp: L split: if_splits)
  show "fmlookup (runnerInstances ?c) '''' = None"
    using D(10) r by (simp add: L)
  show "fmlookup (runnerRequests ?c) r' =
     map_option (\<lambda>S. \<Sum>j\<in>fset S. fmget 0 (instanceQueue ?c) j) (fmlookup (runnerInstances ?c) r')"
    if "r' \<notin> R" for r'
  proof -
    from that r have ne: "r' \<noteq> r" by auto
    show ?thesis
      using D(9)[OF that] ne sum_other_instance(1)[OF inv, of r' _ i]
      by (cases "fmlookup (runnerInstances c) r'")
        (simp_all add: L upsertInstance_requests_lookup[OF ord D(7) ne] sum_without_instance
          del: fmget_upd)
  qed
qed

subsection \<open>One removed instance\<close>

lemma removeInstance_fields [field_simps_go]:
  "instanceFunction (removeInstanceLocked ord i c) = fmdrop i (instanceFunction c)"
  "instanceRunner (removeInstanceLocked ord i c) = fmdrop i (instanceRunner c)"
  "instanceQueue (removeInstanceLocked ord i c) = fmdrop i (instanceQueue c)"
  "runnerStats (removeInstanceLocked ord i c) = runnerStats c"
  by (simp_all add: removeInstanceLocked_def Let_def field_simps_go split: option.split)

lemma removeInstance_func:
  "funcInstances (removeInstanceLocked ord i c) =
     (case fmlookup (instanceFunction c) i of
        None \<Rightarrow> funcInstances c
      | Some f \<Rightarrow> funcInstances (removeFunctionInstanceLocked f i c))"
  by (simp add: removeInstanceLocked_def Let_def field_simps_go split: option.split)

lemma removeInstance_fiq:
  "fiq (removeInstanceLocked ord i c) f' i' =
     (if i' = i \<and> fmlookup (instanceFunction c) i = Some f' then None else fiq c f' i')"
  using removeFunction_fiq[of _ i c f' i'] by (auto simp: fiq_def removeInstance_func split: option.split)

lemma removeInstance_runner_lookup:
  "fmlookup (runnerInstances (removeInstanceLocked ord i c)) r' =
     (if fmlookup (instanceRunner c) i = Some r'
      then map_option (\<lambda>S. S |-| {|i|}) (fmlookup (runnerInstances c) r')
      else fmlookup (runnerInstances c) r')"
  by (auto simp: removeInstanceLocked_def Let_def field_simps_go removeRunner_lookup split: option.split)

lemma removeInstance_requests_lookup:
  assumes "iter_order ord"
  shows "fmlookup (runnerRequests (removeInstanceLocked ord i c)) r' =
     (if fmlookup (instanceRunner c) i = Some r'
      then map_option (\<lambda>S. \<Sum>j\<in>fset (S |-| {|i|}). fmget 0 (instanceQueue c) j)
             (fmlookup (runnerInstances c) r')
      else fmlookup (runnerRequests c) r')"
  by (auto simp: removeInstanceLocked_def Let_def field_simps_go removeRunner_lookup
      recompute_lookup[OF assms] option.map_comp comp_def split: option.split)

lemma removeInstance_dom:
  "fmdom (runnerInstances (removeInstanceLocked ord i c)) = fmdom (runnerInstances c)"
  by (rule fset_eqI) (simp add: fmlookup_dom_iff removeInstance_runner_lookup)

lemma removeInstance_inv:
  assumes ord: "iter_order ord" and inv: "cache_inv_except R c"
  shows "cache_inv_except R (removeInstanceLocked ord i c)"
proof (rule cache_inv_exceptI)
  let ?c = "removeInstanceLocked ord i c"
  note D = cache_inv_exceptD[OF inv]
  note L = removeInstance_runner_lookup field_simps_go
  show "fmlookup (funcInstances ?c) f \<noteq> Some fmempty" for f
    using D(1) removeFunction_nonempty by (simp add: removeInstance_func split: option.split)
  show "fiq ?c f j =
     (if fmlookup (instanceFunction ?c) j = Some f then fmlookup (instanceQueue ?c) j else None)" for f j
    using D(2)[of f j] by (simp add: L removeInstance_fiq)
  show "rset ?c r' = {j. fmlookup (instanceRunner ?c) j = Some r'}" for r'
    using D(3)[of r'] by (auto simp: L rset_def fmget_def split: option.splits if_splits)
  show "(fmlookup (instanceQueue ?c) j = None) = (fmlookup (instanceRunner ?c) j = None)" for j
    using D(4)[of j] by (simp add: L)
  show "fmlookup (instanceRunner ?c) j = None \<Longrightarrow> fmlookup (instanceFunction ?c) j = None" for j
    using D(5)[of j] by (simp add: L split: if_splits)
  show "fmlookup (instanceFunction ?c) j \<noteq> Some ''''" "fmlookup (instanceRunner ?c) j \<noteq> Some ''''" for j
    using D(6)[of j] D(7)[of j] by (auto simp: L)
  show "fmlookup (runnerInstances ?c) r' = None \<Longrightarrow> fmlookup (runnerStats ?c) r' = None" for r'
    using D(8)[of r'] by (auto simp: L split: if_splits)
  show "fmlookup (runnerInstances ?c) '''' = None"
    using D(10) by (simp add: L)
  show "fmlookup (runnerRequests ?c) r' =
     map_option (\<lambda>S. \<Sum>j\<in>fset S. fmget 0 (instanceQueue ?c) j) (fmlookup (runnerInstances ?c) r')"
    if "r' \<notin> R" for r'
  proof -
    show ?thesis
      using D(9)[OF that] sum_other_instance(2)[OF inv, of r' _ i]
      by (cases "fmlookup (runnerInstances c) r'")
        (simp_all add: L removeInstance_requests_lookup[OF ord] sum_without_instance
          del: fmget_drop)
  qed
qed

subsection \<open>The loops\<close>

lemma upsertInstances_fields [field_simps_go]:
  "instanceFunction (upsertInstances ord r qd is c) = instanceFunction c"
  "runnerStats (upsertInstances ord r qd is c) = runnerStats c"
  by (induction "is" arbitrary: c) (simp_all add: field_simps_go)

lemma upsertInstances_runner:
  "fmlookup (instanceRunner (upsertInstances ord r qd is c)) i =
     (if i \<in> set is then Some r else fmlookup (instanceRunner c) i)"
  by (induction "is" arbitrary: c) (simp_all add: field_simps_go)

lemma upsertInstances_queue:
  "fmlookup (instanceQueue (upsertInstances ord r qd is c)) i =
     (if i \<in> set is then Some (ucast (fmget 0 qd i)) else fmlookup (instanceQueue c) i)"
  by (induction "is" arbitrary: c) (simp_all add: field_simps_go)

lemma upsertInstances_inv:
  assumes "iter_order ord" and "cache_inv_except R c" and "r \<noteq> ''''" and "r \<in> R"
  shows "cache_inv_except R (upsertInstances ord r qd is c)"
  using assms(2) by (induction "is" arbitrary: c) (simp_all add: upsertInstance_inv assms)

lemma upsertInstances_dom:
  assumes "iter_order ord" and "cache_inv_except R c" and "r \<noteq> ''''" and "r \<in> R"
  shows "fset (fmdom (runnerInstances (upsertInstances ord r qd is c))) =
     fset (fmdom (runnerInstances c)) \<union> (if is = [] then {} else {r})"
  using assms(2)
proof (induction "is" arbitrary: c)
  case (Cons i "is")
  have "fset (fmdom (runnerInstances (upsertInstance ord r i (fmget 0 qd i) c))) =
      insert r (fset (fmdom (runnerInstances c)))"
    by (auto simp: fmlookup_dom_iff upsertInstance_runner_lookup[OF cache_inv_exceptD(7)[OF Cons.prems]]
        split: if_splits)
  then show ?case
    using Cons.IH[OF upsertInstance_inv[OF assms(1) Cons.prems assms(3,4)]] by simp
qed simp

lemma removeInstances_lookup:
  "fmlookup (instanceFunction (removeInstances ord keep is c)) i =
     (if i \<in> set is \<and> i |\<notin>| keep then None else fmlookup (instanceFunction c) i)"
  "fmlookup (instanceRunner (removeInstances ord keep is c)) i =
     (if i \<in> set is \<and> i |\<notin>| keep then None else fmlookup (instanceRunner c) i)"
  "fmlookup (instanceQueue (removeInstances ord keep is c)) i =
     (if i \<in> set is \<and> i |\<notin>| keep then None else fmlookup (instanceQueue c) i)"
  by (induction "is" arbitrary: c) (auto simp: field_simps_go)

lemma removeInstances_fields [field_simps_go]:
  "runnerStats (removeInstances ord keep is c) = runnerStats c"
  "fmdom (runnerInstances (removeInstances ord keep is c)) = fmdom (runnerInstances c)"
  by (induction "is" arbitrary: c) (simp_all add: field_simps_go removeInstance_dom)

lemma removeInstances_inv:
  assumes "iter_order ord" and "cache_inv_except R c"
  shows "cache_inv_except R (removeInstances ord keep is c)"
  using assms(2) by (induction "is" arbitrary: c) (simp_all add: removeInstance_inv assms(1))

subsection \<open>SetInstance\<close>

lemma SetInstance_fields [field_simps_go]:
  "instanceFunction (SetInstance ord f i r q c) = fmupd i f (instanceFunction c)"
  "instanceRunner (SetInstance ord f i r q c) = fmupd i r (instanceRunner c)"
  "instanceQueue (SetInstance ord f i r q c) = fmupd i q (instanceQueue c)"
  "runnerStats (SetInstance ord f i r q c) = runnerStats c"
  by (simp_all add: SetInstance_def Let_def field_simps_go)

lemma SetInstance_func_lookup:
  assumes "fmlookup (instanceFunction c) i \<noteq> Some ''''"
  shows "fmlookup (funcInstances (SetInstance ord f i r q c)) f' =
     (if f' = f then Some (fmupd i q (fmget fmempty (funcInstances c) f))
      else if fmlookup (instanceFunction c) i = Some f'
      then fmlookup (funcInstances (removeFunctionInstanceLocked f' i c)) f'
      else fmlookup (funcInstances c) f')"
  using assms
  by (auto simp: SetInstance_def Let_def field_simps_go fmget_def removeFunction_lookup
      split: option.split)

lemma SetInstance_fiq:
  assumes "fmlookup (instanceFunction c) i \<noteq> Some ''''"
  shows "fiq (SetInstance ord f i r q c) f' i' =
     (if f' = f \<and> i' = i then Some q
      else if fmlookup (instanceFunction c) i = Some f' \<and> i' = i then None
      else fiq c f' i')"
  using removeFunction_fiq[of f' i c f' i']
  by (auto simp: fiq_def fmget_def SetInstance_func_lookup[OF assms] split: option.splits if_splits)

lemma SetInstance_runner_lookup:
  assumes "fmlookup (instanceRunner c) i \<noteq> Some ''''"
  shows "fmlookup (runnerInstances (SetInstance ord f i r q c)) r' =
     (if r' = r then Some (finsert i (fmget {||} (runnerInstances c) r))
      else if fmlookup (instanceRunner c) i = Some r'
      then map_option (\<lambda>S. S |-| {|i|}) (fmlookup (runnerInstances c) r')
      else fmlookup (runnerInstances c) r')"
  using assms
  by (auto simp: SetInstance_def Let_def field_simps_go fmget_def removeRunner_lookup split: option.split)

lemma SetInstance_rset:
  assumes "fmlookup (instanceRunner c) i \<noteq> Some ''''"
  shows "rset (SetInstance ord f i r q c) r' =
     (if r' = r then insert i (rset c r)
      else if fmlookup (instanceRunner c) i = Some r' then rset c r' - {i}
      else rset c r')"
  by (simp add: rset_def fmget_def SetInstance_runner_lookup[OF assms] split: option.split)

lemma SetInstance_requests_lookup:
  assumes "iter_order ord" and "fmlookup (instanceRunner c) i \<noteq> Some ''''"
  shows "fmlookup (runnerRequests (SetInstance ord f i r q c)) r' =
     (if r' = r \<or> fmlookup (instanceRunner c) i = Some r'
      then map_option (\<lambda>S. \<Sum>j\<in>fset S. fmget 0 (fmupd i q (instanceQueue c)) j)
             (fmlookup (runnerInstances (SetInstance ord f i r q c)) r')
      else fmlookup (runnerRequests c) r')"
  using assms(2)
  by (cases "fmlookup (instanceRunner c) i")
    (simp_all add: SetInstance_def Let_def field_simps_go recompute_lookup[OF assms(1)] removeRunner_lookup
      del: fmget_upd fset_simps)

lemma SetInstance_inv:
  assumes ord: "iter_order ord" and inv: "cache_inv c" and ne: "f \<noteq> ''''" "r \<noteq> ''''"
  shows "cache_inv (SetInstance ord f i r q c)"
proof (rule cache_inv_exceptI)
  let ?c = "SetInstance ord f i r q c"
  note D = cache_inv_exceptD[OF inv]
  note L = SetInstance_runner_lookup[OF D(7)] field_simps_go
  show "fmlookup (funcInstances ?c) f' \<noteq> Some fmempty" for f'
    using D(1)[of f'] removeFunction_nonempty[of c f' f' i]
    by (simp add: SetInstance_func_lookup[OF D(6)])
  show "fiq ?c f' j =
     (if fmlookup (instanceFunction ?c) j = Some f' then fmlookup (instanceQueue ?c) j else None)" for f' j
    using D(2)[of f' j] by (simp add: SetInstance_fiq[OF D(6)] field_simps_go)
  show "rset ?c r' = {j. fmlookup (instanceRunner ?c) j = Some r'}" for r'
    using D(3)[of r'] by (auto simp: SetInstance_rset[OF D(7)] field_simps_go)
  show "(fmlookup (instanceQueue ?c) j = None) = (fmlookup (instanceRunner ?c) j = None)" for j
    using D(4)[of j] by (simp add: L)
  show "fmlookup (instanceRunner ?c) j = None \<Longrightarrow> fmlookup (instanceFunction ?c) j = None" for j
    using D(5)[of j] by (simp add: L split: if_splits)
  show "fmlookup (instanceFunction ?c) j \<noteq> Some ''''" "fmlookup (instanceRunner ?c) j \<noteq> Some ''''" for j
    using D(6)[of j] D(7)[of j] ne by (auto simp: L)
  show "fmlookup (runnerInstances ?c) r' = None \<Longrightarrow> fmlookup (runnerStats ?c) r' = None" for r'
    using D(8)[of r'] by (auto simp: L split: if_splits)
  show "fmlookup (runnerInstances ?c) '''' = None"
    using D(10) ne by (simp add: L)
  show "fmlookup (runnerRequests ?c) r' =
     map_option (\<lambda>S. \<Sum>j\<in>fset S. fmget 0 (instanceQueue ?c) j) (fmlookup (runnerInstances ?c) r')" for r'
    using D(9)[of r'] sum_other_instance(1)[OF inv, of r' _ i q]
    by (cases "fmlookup (runnerInstances c) r'")
      (simp_all add: SetInstance_requests_lookup[OF ord D(7)] L sum_without_instance del: fmget_upd)
qed

subsection \<open>UpsertRunnerHeartbeat\<close>

text \<open>The last three statements: the reported set is stored, the total recomputed, the metrics set.\<close>

lemma finish_heartbeat_inv:
  assumes ord: "iter_order ord" and inv: "cache_inv_except {r} c" and N: "rset c r = fset N"
    and r: "r \<noteq> ''''"
  defines "c' \<equiv> recomputeRunnerRequestsLocked ord r
    (c\<lparr>runnerInstances := fmupd r N (runnerInstances c)\<rparr>)"
  shows "cache_inv (c'\<lparr>runnerStats := fmupd r m (runnerStats c')\<rparr>)"
proof (rule cache_inv_exceptI, goal_cases)
  note D = cache_inv_exceptD[OF inv]
  case (3 r')
  then show ?case using D(3)[of r'] N by (auto simp: c'_def field_simps_go rset_def)
next
  note D = cache_inv_exceptD[OF inv]
  case (9 r')
  then show ?case using D(9)[of r'] by (simp add: c'_def recompute_lookup[OF ord] field_simps_go)
qed (use cache_inv_exceptD[OF inv] r in \<open>auto simp: c'_def field_simps_go fiq_def split: if_splits\<close>)

lemma heartbeat_removed_runner:
  fixes qd :: "(string, uint32) fmap"
  assumes ord: "iter_order ord" and inv: "cache_inv c" and r: "r \<noteq> ''''"
  defines "c1 \<equiv> upsertInstances ord r qd (ord (fmdom qd)) c"
  defines "P \<equiv> (case fmlookup (runnerInstances c) r of None \<Rightarrow> {||}
      | Some _ \<Rightarrow> fmget {||} (runnerInstances c1) r)"
  shows "i \<in> fset P \<and> i |\<notin>| fmdom qd \<longleftrightarrow> fmlookup (instanceRunner c) i = Some r \<and> i |\<notin>| fmdom qd"
proof -
  have inv1: "cache_inv_except {r} c1"
    unfolding c1_def by (rule upsertInstances_inv[OF ord cache_inv_except_mono[OF inv]]) (use r in auto)
  have "fset (fmget {||} (runnerInstances c1) r) =
      {i. i |\<in>| fmdom qd \<or> fmlookup (instanceRunner c) i = Some r}"
    using cache_inv_exceptD(3)[OF inv1, of r] iter_orderD(2)[OF ord, of "fmdom qd"]
    by (auto simp: rset_def c1_def upsertInstances_runner)
  moreover have "fmlookup (instanceRunner c) i \<noteq> Some r" if "fmlookup (runnerInstances c) r = None"
    using cache_inv_exceptD(3)[OF inv, of r] that by (auto simp: rset_def)
  ultimately show ?thesis
    by (auto simp: P_def split: option.split)
qed

lemma UpsertRunnerHeartbeat_inv:
  assumes ord: "iter_order ord" and inv: "cache_inv c" and r: "r \<noteq> ''''"
  shows "cache_inv (UpsertRunnerHeartbeat ord r qd m c)"
proof -
  define c1 where "c1 = upsertInstances ord r qd (ord (fmdom qd)) c"
  define P where "P = (case fmlookup (runnerInstances c) r of None \<Rightarrow> {||}
      | Some _ \<Rightarrow> fmget {||} (runnerInstances c1) r)"
  define c2 where "c2 = removeInstances ord (fmdom qd) (ord P) c1"
  have inv1: "cache_inv_except {r} c1"
    unfolding c1_def by (rule upsertInstances_inv[OF ord cache_inv_except_mono[OF inv]]) (use r in auto)
  then have inv2: "cache_inv_except {r} c2"
    unfolding c2_def by (rule removeInstances_inv[OF ord])
  have "fmlookup (instanceRunner c2) i = Some r \<longleftrightarrow> i |\<in>| fmdom qd" for i
    using heartbeat_removed_runner[OF ord inv r, of i qd, folded c1_def, folded P_def]
      upsertInstances_runner[of ord r qd "ord (fmdom qd)" c i, folded c1_def] iter_orderD(2)[OF ord]
    by (auto simp: c2_def removeInstances_lookup)
  then have "rset c2 r = fset (fmdom qd)"
    using cache_inv_exceptD(3)[OF inv2, of r] by auto
  from finish_heartbeat_inv[OF ord inv2 this r, of m] show ?thesis
    unfolding UpsertRunnerHeartbeat_def Let_def c2_def P_def c1_def .
qed

subsection \<open>RemoveRunner\<close>

lemma RemoveRunner_inv:
  assumes ord: "iter_order ord" and inv: "cache_inv c"
  shows "cache_inv (RemoveRunner ord r c)"
proof -
  define c1 where "c1 = removeInstances ord {||} (ord (fmget {||} (runnerInstances c) r)) c"
  have inv1: "cache_inv c1"
    unfolding c1_def by (rule removeInstances_inv[OF ord inv])
  note D = cache_inv_exceptD[OF inv1]
  have "fmlookup (instanceRunner c1) i \<noteq> Some r" for i
    using iter_orderD(2)[OF ord] cache_inv_exceptD(3)[OF inv, of r]
    by (auto simp: c1_def removeInstances_lookup rset_def)
  with inv1 have "cache_inv (c1\<lparr>runnerInstances := fmdrop r (runnerInstances c1),
      runnerRequests := fmdrop r (runnerRequests c1), runnerStats := fmdrop r (runnerStats c1)\<rparr>)"
    by (auto simp: cache_inv_except_def fiq_def rset_def)
  then show ?thesis by (simp add: RemoveRunner_def Let_def c1_def)
qed

lemma NewInMemoryCache_inv: "cache_inv NewInMemoryCache"
  by (simp add: cache_inv_except_def NewInMemoryCache_def fiq_def rset_def)

section \<open>Refinement of the abstract cache\<close>

lemma abs_cache_simps [simp]:
  "runners (abs_cache c) = fset (fmdom (runnerInstances c))"
  "stats (abs_cache c) = fmlookup (runnerStats c)"
  "absFunctionOf (abs_cache c) i =
     (case fmlookup (instanceRunner c) i of None \<Rightarrow> None | Some _ \<Rightarrow> fmlookup (instanceFunction c) i)"
  "absRunnerOf (abs_cache c) i = fmlookup (instanceRunner c) i"
  by (auto simp: abs_cache_def absFunctionOf_def absRunnerOf_def split: option.split)

lemma abs_assign:
  "assign (abs_cache c) i = map_option
     (\<lambda>r. (fmlookup (instanceFunction c) i, r, fmget 0 (instanceQueue c) i)) (fmlookup (instanceRunner c) i)"
  by (simp add: abs_cache_def)

lemma AbsCache_eqI:
  fixes a b :: AbsCache
  assumes "\<And>i. assign a i = assign b i" "runners a = runners b" "\<And>r. stats a r = stats b r"
  shows "a = b"
  using assms by (cases a; cases b) auto

lemma runnerInstances_dom_SetInstance:
  assumes "fmlookup (instanceRunner c) i \<noteq> Some ''''"
  shows "fset (fmdom (runnerInstances (SetInstance ord f i r q c))) =
     insert r (fset (fmdom (runnerInstances c)))"
  by (auto simp: fmlookup_dom_iff SetInstance_runner_lookup[OF assms] split: if_splits)

lemma SetInstance_refines:
  assumes "cache_inv c"
  shows "abs_cache (SetInstance ord f i r q c) = absSetInstance f i r q (abs_cache c)"
  using runnerInstances_dom_SetInstance[OF cache_inv_exceptD(7)[OF assms]]
  by (intro AbsCache_eqI) (simp_all add: absSetInstance_def abs_assign field_simps_go)

lemma UpsertRunnerHeartbeat_fields:
  fixes qd :: "(string, uint32) fmap" and m :: ResourceMetrics
  assumes ord: "iter_order ord" and inv: "cache_inv c" and r: "r \<noteq> ''''"
  defines "c' \<equiv> UpsertRunnerHeartbeat ord r qd m c"
  shows "fmlookup (instanceRunner c') i =
      (if i |\<in>| fmdom qd then Some r
       else if fmlookup (instanceRunner c) i = Some r then None else fmlookup (instanceRunner c) i)"
    and "fmlookup (instanceFunction c') i =
      (if i |\<notin>| fmdom qd \<and> fmlookup (instanceRunner c) i = Some r then None
       else fmlookup (instanceFunction c) i)"
    and "fmlookup (instanceQueue c') i =
      (if i |\<in>| fmdom qd then Some (ucast (fmget 0 qd i))
       else if fmlookup (instanceRunner c) i = Some r then None else fmlookup (instanceQueue c) i)"
    and "fset (fmdom (runnerInstances c')) = insert r (fset (fmdom (runnerInstances c)))"
    and "runnerStats c' = fmupd r m (runnerStats c)"
proof -
  define c1 where "c1 = upsertInstances ord r qd (ord (fmdom qd)) c"
  define P where "P = (case fmlookup (runnerInstances c) r of None \<Rightarrow> {||}
      | Some _ \<Rightarrow> fmget {||} (runnerInstances c1) r)"
  have c': "c' = (let c2 = removeInstances ord (fmdom qd) (ord P) c1;
      c3 = c2\<lparr>runnerInstances := fmupd r (fmdom qd) (runnerInstances c2)\<rparr>;
      c4 = recomputeRunnerRequestsLocked ord r c3
      in c4\<lparr>runnerStats := fmupd r m (runnerStats c4)\<rparr>)"
    unfolding c'_def UpsertRunnerHeartbeat_def Let_def P_def c1_def ..
  note P = heartbeat_removed_runner[OF ord inv r, of i qd, folded c1_def, folded P_def]
  note S = iter_orderD(2)[OF ord]
  have q1: "fmlookup (instanceRunner c1) i = (if i |\<in>| fmdom qd then Some r else fmlookup (instanceRunner c) i)"
    "fmlookup (instanceQueue c1) i =
      (if i |\<in>| fmdom qd then Some (ucast (fmget 0 qd i)) else fmlookup (instanceQueue c) i)"
    "instanceFunction c1 = instanceFunction c" "runnerStats c1 = runnerStats c"
    by (simp_all add: c1_def upsertInstances_runner upsertInstances_queue S field_simps_go)
  show "fmlookup (instanceRunner c') i =
      (if i |\<in>| fmdom qd then Some r
       else if fmlookup (instanceRunner c) i = Some r then None else fmlookup (instanceRunner c) i)"
    using P by (auto simp: c' Let_def field_simps_go removeInstances_lookup S q1)
  show "fmlookup (instanceFunction c') i =
      (if i |\<notin>| fmdom qd \<and> fmlookup (instanceRunner c) i = Some r then None
       else fmlookup (instanceFunction c) i)"
    using P by (auto simp: c' Let_def field_simps_go removeInstances_lookup S q1)
  show "fmlookup (instanceQueue c') i =
      (if i |\<in>| fmdom qd then Some (ucast (fmget 0 qd i))
       else if fmlookup (instanceRunner c) i = Some r then None else fmlookup (instanceQueue c) i)"
    using P by (auto simp: c' Let_def field_simps_go removeInstances_lookup S q1)
  show "fset (fmdom (runnerInstances c')) = insert r (fset (fmdom (runnerInstances c)))"
    using upsertInstances_dom[OF ord cache_inv_except_mono[OF inv], of "{r}" r qd] r
    by (simp add: c' Let_def field_simps_go c1_def)
  show "runnerStats c' = fmupd r m (runnerStats c)"
    by (simp add: c' Let_def field_simps_go q1)
qed

lemma UpsertRunnerHeartbeat_refines:
  assumes "iter_order ord" and "cache_inv c" and "r \<noteq> ''''"
  shows "abs_cache (UpsertRunnerHeartbeat ord r qd m c) =
    absUpsertRunnerHeartbeat r qd m (abs_cache c)"
proof (rule AbsCache_eqI)
  note F = UpsertRunnerHeartbeat_fields[OF assms, of qd m]
  show "assign (abs_cache (UpsertRunnerHeartbeat ord r qd m c)) i =
      assign (absUpsertRunnerHeartbeat r qd m (abs_cache c)) i" for i
    using cache_inv_exceptD(5)[OF assms(2), of i]
    by (cases "fmlookup qd i")
      (auto simp: absUpsertRunnerHeartbeat_def abs_assign F fmlookup_dom_iff fmget_def split: option.split)
qed (simp_all add: absUpsertRunnerHeartbeat_def UpsertRunnerHeartbeat_fields[OF assms])

lemma RemoveRunner_refines:
  assumes "iter_order ord" and "cache_inv c"
  shows "abs_cache (RemoveRunner ord r c) = absRemoveRunner r (abs_cache c)"
proof -
  have "i \<in> set (ord (fmget {||} (runnerInstances c) r)) \<longleftrightarrow> fmlookup (instanceRunner c) i = Some r" for i
    using iter_orderD(2)[OF assms(1)] cache_inv_exceptD(3)[OF assms(2), of r] by (auto simp: rset_def)
  then show ?thesis
    by (intro AbsCache_eqI)
      (auto simp: RemoveRunner_def absRemoveRunner_def Let_def abs_assign removeInstances_lookup
        field_simps_go fmget_def)
qed

text \<open>Under the invariant the queries are determined by the abstract cache.\<close>

lemma FunctionIdInstances_refines:
  assumes "cache_inv c"
  shows "\<exists>m. FunctionIdInstances f c = Inr m \<and> fmlookup m = absInstancesOf (abs_cache c) f"
proof -
  have "fiq c f i = absInstancesOf (abs_cache c) f i" for i
    using cache_inv_exceptD(2,4,5)[OF assms]
    by (auto simp: absInstancesOf_def abs_assign fmget_def split: option.splits)
  then show ?thesis
    by (auto simp: FunctionIdInstances_def fiq_def fmget_def fun_eq_iff split: option.split)
qed

lemma RequestsPerRunner_refines:
  assumes "cache_inv c"
  shows "\<exists>m. RequestsPerRunner c = Inr m \<and> fmlookup m = absRequestsOf (abs_cache c)"
proof -
  note D = cache_inv_exceptD[OF assms]
  have "fmlookup (runnerRequests c) r = absRequestsOf (abs_cache c) r" for r
  proof (cases "fmlookup (runnerInstances c) r")
    case None
    then show ?thesis using D(9)[of r] by (simp add: absRequestsOf_def fmdom_notI)
  next
    case (Some S)
    have "(\<Sum>i\<in>fset S. fmget 0 (instanceQueue c) i) =
        (\<Sum>i\<in>{i. fmlookup (instanceRunner c) i = Some r}.
           case assign (abs_cache c) i of Some (_, _, q) \<Rightarrow> q | None \<Rightarrow> 0)"
      using D(3)[of r] Some by (intro sum.cong) (auto simp: rset_def abs_assign)
    with Some show ?thesis using D(9)[of r] by (simp add: absRequestsOf_def fmdomI)
  qed
  then show ?thesis by (auto simp: RequestsPerRunner_def)
qed

lemma RunnerAddressOfInstance_refines:
  "RunnerAddressOfInstance i c =
     (case absRunnerOf (abs_cache c) i of
        None \<Rightarrow> Inl (Errorf ''no runner found for instance %q'' [i] None)
      | Some r \<Rightarrow> Inr r)"
  by (simp add: RunnerAddressOfInstance_def)

text \<open>
  The redundancy is free of history: under the invariant the seven maps are determined by the
  abstract cache. Hence the iteration order cannot be observed.
\<close>

lemma cache_canonical:
  assumes inv: "cache_inv c" "cache_inv c'" and eq: "abs_cache c = abs_cache c'"
  shows "c = c'"
proof -
  note D = cache_inv_exceptD[OF inv(1)] and D' = cache_inv_exceptD[OF inv(2)]
  have run: "fmlookup (instanceRunner c) i = fmlookup (instanceRunner c') i" for i
    using arg_cong[OF eq, of "\<lambda>a. absRunnerOf a i"] by simp
  have asg: "assign (abs_cache c) i = assign (abs_cache c') i" for i
    by (simp add: eq)
  have fn: "fmlookup (instanceFunction c) i = fmlookup (instanceFunction c') i" for i
    using asg[of i] run[of i] D(5)[of i] D'(5)[of i]
    by (cases "fmlookup (instanceRunner c') i") (auto simp: abs_assign)
  have qu: "fmlookup (instanceQueue c) i = fmlookup (instanceQueue c') i" for i
    using asg[of i] run[of i] D(4)[of i] D'(4)[of i]
    by (cases "fmlookup (instanceRunner c') i") (auto simp: abs_assign fmget_def split: option.splits)
  have st: "fmlookup (runnerStats c) r = fmlookup (runnerStats c') r" for r
    using arg_cong[OF eq, of stats] by simp
  have dm: "fset (fmdom (runnerInstances c)) = fset (fmdom (runnerInstances c'))"
    using arg_cong[OF eq, of runners] by simp
  have ri: "fmlookup (runnerInstances c) r = fmlookup (runnerInstances c') r" for r
  proof (cases "fmlookup (runnerInstances c) r")
    case None
    with dm show ?thesis by (metis fmdom_notD fmdom_notI)
  next
    case (Some S)
    with dm obtain S' where S': "fmlookup (runnerInstances c') r = Some S'"
      by (metis fmdomI fmlookup_dom_iff)
    have "fset S = fset S'"
      using D(3)[of r] D'(3)[of r] run Some S' by (simp add: rset_lookup)
    with Some S' show ?thesis by (simp add: fset_inject)
  qed
  have fi: "fmlookup (funcInstances c) f = fmlookup (funcInstances c') f" for f
  proof -
    have "fiq c f = fiq c' f"
      by (rule ext) (simp add: D(2) D'(2) fn qu)
    then show ?thesis
      using D(1)[of f] D'(1)[of f]
      by (auto simp: fiq_def fmget_def fun_eq_iff fmap_eq_iff split: option.splits)
  qed
  have rq: "fmlookup (runnerRequests c) r = fmlookup (runnerRequests c') r" for r
    using D(9)[of r] D'(9)[of r] ri qu by (simp add: fmget_def)
  show ?thesis
    using run fn qu st ri fi rq by (cases c; cases c') (simp add: fmap_eq_iff)
qed

section \<open>The interface as a contract\<close>

text \<open>
  What a client of \<open>RoutingCache\<close> relies on: reads return what the abstract cache holds, and every
  write keeps the provider's invariant, returns no error and has its abstract effect.
\<close>

locale routing_cache =
  fixes ops :: "'c RoutingCache"
    and invar :: "'c \<Rightarrow> bool"
    and absn :: "'c \<Rightarrow> AbsCache"
  assumes read_instances: "invar c \<Longrightarrow>
      \<exists>m. rcFunctionIdInstances ops f c = Inr m \<and> fmlookup m = absInstancesOf (absn c) f"
    and named_runners: "invar c \<Longrightarrow> '''' \<notin> runners (absn c)"
    and read_runner: "invar c \<Longrightarrow> absRunnerOf (absn c) i = Some r \<Longrightarrow>
      rcRunnerAddressOfInstance ops i c = Inr r"
    and read_no_runner: "invar c \<Longrightarrow> absRunnerOf (absn c) i = None \<Longrightarrow>
      \<exists>e. rcRunnerAddressOfInstance ops i c = Inl e"
    and read_requests: "invar c \<Longrightarrow>
      \<exists>m. rcRequestsPerRunner ops c = Inr m \<and> fmlookup m = absRequestsOf (absn c)"
    and write_instance: "invar c \<Longrightarrow> f \<noteq> '''' \<Longrightarrow> r \<noteq> '''' \<Longrightarrow>
      \<exists>c'. rcSetInstance ops f i r q c = (c', None) \<and> invar c' \<and>
           absn c' = absSetInstance f i r q (absn c)"
    and write_heartbeat: "invar c \<Longrightarrow> r \<noteq> '''' \<Longrightarrow>
      \<exists>c'. rcUpsertRunnerHeartbeat ops r qd m c = (c', None) \<and> invar c' \<and>
           absn c' = absUpsertRunnerHeartbeat r qd m (absn c)"
    and write_remove: "invar c \<Longrightarrow>
      \<exists>c'. rcRemoveRunner ops r c = (c', None) \<and> invar c' \<and> absn c' = absRemoveRunner r (absn c)"
begin

lemma instance_has_runner:
  assumes "invar c" and "rcFunctionIdInstances ops f c = Inr m" and "fmlookup m i = Some q"
  shows "\<exists>r. rcRunnerAddressOfInstance ops i c = Inr r \<and> assign (absn c) i = Some (Some f, r, q)"
proof -
  from assms read_instances[OF assms(1), of f] have "absInstancesOf (absn c) f i = Some q"
    by auto
  then obtain r where r: "assign (absn c) i = Some (Some f, r, q)"
    by (auto simp: absInstancesOf_def split: option.splits if_splits)
  then show ?thesis
    using read_runner[OF assms(1), of i r] by (simp add: absRunnerOf_def)
qed

lemma set_instance_visible:
  assumes "invar c" and "f \<noteq> ''''" and "r \<noteq> ''''" and "rcSetInstance ops f i r q c = (c', e)"
  shows "e = None \<and> rcRunnerAddressOfInstance ops i c' = Inr r \<and>
    (\<exists>m. rcFunctionIdInstances ops f c' = Inr m \<and> fmlookup m i = Some q)"
proof -
  from write_instance[OF assms(1-3), of i q] assms(4)
  have c': "e = None" "invar c'" "absn c' = absSetInstance f i r q (absn c)" by auto
  then have "assign (absn c') i = Some (Some f, r, q)"
    by (simp add: absSetInstance_def)
  then show ?thesis
    using c'(1) read_runner[OF c'(2), of i r] read_instances[OF c'(2), of f]
    by (auto simp: absRunnerOf_def absInstancesOf_def)
qed

lemma heartbeat_replaces:
  assumes "invar c" and "r \<noteq> ''''" and "rcUpsertRunnerHeartbeat ops r qd m c = (c', e)"
  shows "e = None \<and>
    (\<forall>i. rcRunnerAddressOfInstance ops i c' = Inr r \<longleftrightarrow> fmlookup qd i \<noteq> None)"
proof -
  from write_heartbeat[OF assms(1,2), of qd m] assms(3)
  have c': "e = None" "invar c'" "absn c' = absUpsertRunnerHeartbeat r qd m (absn c)" by auto
  have "rcRunnerAddressOfInstance ops i c' = Inr r \<longleftrightarrow> absRunnerOf (absn c') i = Some r" for i
    using read_runner[OF c'(2), of i] read_no_runner[OF c'(2), of i]
    by (cases "absRunnerOf (absn c') i") auto
  moreover have "absRunnerOf (absn c') i = Some r \<longleftrightarrow> fmlookup qd i \<noteq> None" for i
    by (auto simp: c'(3) absUpsertRunnerHeartbeat_def absRunnerOf_def split: option.splits if_splits)
  ultimately show ?thesis using c'(1) by simp
qed

lemma removed_runner_unreachable:
  assumes "invar c" and "rcRemoveRunner ops r c = (c', e)"
  shows "e = None \<and> (\<forall>i. rcRunnerAddressOfInstance ops i c' \<noteq> Inr r) \<and>
    (\<exists>m. rcRequestsPerRunner ops c' = Inr m \<and> fmlookup m r = None)"
proof -
  from write_remove[OF assms(1), of r] assms(2)
  have c': "e = None" "invar c'" "absn c' = absRemoveRunner r (absn c)" by auto
  have "absRunnerOf (absn c') i \<noteq> Some r" for i
    by (auto simp: c'(3) absRemoveRunner_def absRunnerOf_def split: option.splits if_splits)
  then have "rcRunnerAddressOfInstance ops i c' \<noteq> Inr r" for i
    using read_runner[OF c'(2), of i] read_no_runner[OF c'(2), of i]
    by (cases "absRunnerOf (absn c') i") auto
  moreover have "absRequestsOf (absn c') r = None"
    by (simp add: c'(3) absRequestsOf_def absRemoveRunner_def)
  ultimately show ?thesis using c'(1) read_requests[OF c'(2)] by auto
qed

end

text \<open>The provider: the in-memory cache, for every iteration order (here the sorted one).\<close>

lemma inMemory_routing_cache:
  assumes "iter_order ord"
  shows "routing_cache (inMemoryRoutingCache ord) cache_inv abs_cache"
  by unfold_locales
    (use assms in \<open>simp_all add: inMemoryRoutingCache_def FunctionIdInstances_refines
      RequestsPerRunner_refines RunnerAddressOfInstance_refines cache_inv_exceptD(10) fmdom_notI SetInstance_inv SetInstance_refines
      UpsertRunnerHeartbeat_inv UpsertRunnerHeartbeat_refines RemoveRunner_inv RemoveRunner_refines\<close>)

interpretation mem_cache: routing_cache "inMemoryRoutingCache sorted_list_of_fset" cache_inv abs_cache
  by (rule inMemory_routing_cache[OF iter_order_sorted])

section \<open>Runs of the cache\<close>

datatype CacheOp =
    OpSetInstance string string string goint
  | OpHeartbeat string "(string, uint32) fmap" ResourceMetrics
  | OpRemoveRunner string

fun valid_op :: "CacheOp \<Rightarrow> bool" where
  "valid_op (OpSetInstance f i r q) = (f \<noteq> '''' \<and> r \<noteq> '''')"
| "valid_op (OpHeartbeat r qd m) = (r \<noteq> '''')"
| "valid_op (OpRemoveRunner r) = True"

fun apply_op :: "iterorder \<Rightarrow> CacheOp \<Rightarrow> InMemoryCache \<Rightarrow> InMemoryCache" where
  "apply_op ord (OpSetInstance f i r q) c = SetInstance ord f i r q c"
| "apply_op ord (OpHeartbeat r qd m) c = UpsertRunnerHeartbeat ord r qd m c"
| "apply_op ord (OpRemoveRunner r) c = RemoveRunner ord r c"

fun abs_op :: "CacheOp \<Rightarrow> AbsCache \<Rightarrow> AbsCache" where
  "abs_op (OpSetInstance f i r q) a = absSetInstance f i r q a"
| "abs_op (OpHeartbeat r qd m) a = absUpsertRunnerHeartbeat r qd m a"
| "abs_op (OpRemoveRunner r) a = absRemoveRunner r a"

definition run_cache :: "iterorder \<Rightarrow> CacheOp list \<Rightarrow> InMemoryCache" where
  "run_cache ord ops = fold (apply_op ord) ops NewInMemoryCache"

lemma apply_op_refines:
  assumes "iter_order ord" and "cache_inv c" and "valid_op p"
  shows "cache_inv (apply_op ord p c) \<and> abs_cache (apply_op ord p c) = abs_op p (abs_cache c)"
  using assms by (cases p) (simp_all add: SetInstance_inv SetInstance_refines UpsertRunnerHeartbeat_inv
      UpsertRunnerHeartbeat_refines RemoveRunner_inv RemoveRunner_refines)

lemma fold_apply_op_refines:
  assumes "iter_order ord" and "cache_inv c" and "list_all valid_op ops"
  shows "cache_inv (fold (apply_op ord) ops c) \<and>
    abs_cache (fold (apply_op ord) ops c) = fold abs_op ops (abs_cache c)"
  using assms(2,3) by (induction ops arbitrary: c) (simp_all add: apply_op_refines[OF assms(1)])

lemma run_cache_inv:
  assumes "iter_order ord" and "list_all valid_op ops"
  shows "cache_inv (run_cache ord ops)"
  using fold_apply_op_refines[OF assms(1) NewInMemoryCache_inv assms(2)] by (simp add: run_cache_def)

section \<open>Properties\<close>

lemma sint_sum_ucast:
  fixes g :: "'a \<Rightarrow> uint32"
  assumes "finite A" and "card A < 2 ^ 31"
  shows "sint (\<Sum>i\<in>A. ucast (g i) :: goint) = (\<Sum>i\<in>A. int (unat (g i)))"
proof -
  let ?n = "\<Sum>i\<in>A. unat (g i)"
  have "unat (g i) \<le> 2 ^ 32 - 1" for i
    using unsigned_less[of "g i", where 'a = nat] by simp
  then have "?n \<le> card A * (2 ^ 32 - 1)"
    using sum_bounded_above[of A "\<lambda>i. unat (g i)" "2 ^ 32 - 1"] by simp
  also have "\<dots> < 2 ^ 63" using assms(2) by simp
  finally have n: "?n < 2 ^ 63" .
  have "(\<Sum>i\<in>A. ucast (g i) :: goint) = (\<Sum>i\<in>A. of_nat (unat (g i)))"
    by simp
  then have "(\<Sum>i\<in>A. ucast (g i) :: goint) = of_nat ?n"
    by (simp only: of_nat_sum)
  moreover have "sint (of_nat ?n :: goint) = int ?n"
    using n by (rule sint_of_nat_small)
  ultimately show ?thesis by (simp only: of_nat_sum)
qed

text \<open>
  C1: every sequence of cache operations with non-empty function ids and runner addresses, started
  on a new cache and under any map iteration order, keeps the seven maps consistent and has exactly
  the effect of the same sequence on the abstract cache.
\<close>

theorem cache_run_refines:
  assumes "iter_order ord" and "list_all valid_op ops"
  shows "cache_inv (run_cache ord ops) \<and>
    abs_cache (run_cache ord ops) =
      fold abs_op ops \<lparr>assign = Map.empty, runners = {}, stats = Map.empty\<rparr>"
proof -
  have "abs_cache NewInMemoryCache = \<lparr>assign = Map.empty, runners = {}, stats = Map.empty\<rparr>"
    by (simp add: abs_cache_def NewInMemoryCache_def fun_eq_iff)
  with fold_apply_op_refines[OF assms(1) NewInMemoryCache_inv assms(2)] show ?thesis
    by (simp add: run_cache_def)
qed

theorem cache_run_refines_witness:
  "cache_inv (run_cache sorted_list_of_fset
     [OpSetInstance ''1'' ''a'' ''r1'' 0,
      OpHeartbeat ''r1'' (fmupd ''a'' 3 fmempty) \<lparr>CpuPercent = 0, UnusedMemoryBytes = 9\<rparr>,
      OpRemoveRunner ''r2''])"
proof -
  let ?ops = "[OpSetInstance ''1'' ''a'' ''r1'' 0,
      OpHeartbeat ''r1'' (fmupd ''a'' 3 fmempty) \<lparr>CpuPercent = 0, UnusedMemoryBytes = 9\<rparr>,
      OpRemoveRunner ''r2'']"
  have "list_all valid_op ?ops" by simp
  from cache_run_refines[OF iter_order_sorted this] show ?thesis ..
qed

text \<open>
  C19: in every state reached by such a sequence, \<open>FunctionIdInstances\<close> returns exactly the instances
  assigned to the function with their queue lengths, \<open>RunnerAddressOfInstance\<close> succeeds for each of
  them, and \<open>RequestsPerRunner\<close> returns for each known runner the sum over its instances.
\<close>

theorem cache_queries_correct:
  assumes "iter_order ord" and "list_all valid_op ops"
  defines "c \<equiv> run_cache ord ops"
  shows "(\<exists>m. FunctionIdInstances f c = Inr m \<and> fmlookup m = absInstancesOf (abs_cache c) f \<and>
      (\<forall>i q. fmlookup m i = Some q \<longrightarrow> (\<exists>r. RunnerAddressOfInstance i c = Inr r))) \<and>
    (\<exists>m. RequestsPerRunner c = Inr m \<and> fmlookup m = absRequestsOf (abs_cache c))"
proof -
  have inv: "cache_inv c" unfolding c_def by (rule run_cache_inv[OF assms(1,2)])
  obtain m where m: "FunctionIdInstances f c = Inr m" "fmlookup m = absInstancesOf (abs_cache c) f"
    using FunctionIdInstances_refines[OF inv] by blast
  have "\<exists>r. RunnerAddressOfInstance i c = Inr r" if "fmlookup m i = Some q" for i q
    using mem_cache.instance_has_runner[OF inv, of f m i q] m that
    by (auto simp: inMemoryRoutingCache_def)
  with m RequestsPerRunner_refines[OF inv] show ?thesis by blast
qed

theorem cache_queries_correct_witness:
  "\<exists>m. RequestsPerRunner (run_cache sorted_list_of_fset [OpSetInstance ''1'' ''a'' ''r1'' 4]) = Inr m \<and>
     fmlookup m = absRequestsOf (abs_cache
       (run_cache sorted_list_of_fset [OpSetInstance ''1'' ''a'' ''r1'' 4]))"
proof -
  have "list_all valid_op [OpSetInstance ''1'' ''a'' ''r1'' 4]" by simp
  from cache_queries_correct[OF iter_order_sorted this] show ?thesis by blast
qed

text \<open>
  C20: Go does not specify the order in which the loops of the cache range over its maps; two runs of
  the same operations under different orders end in the same state.
\<close>

theorem cache_iteration_order_irrelevant:
  assumes "iter_order ord" and "iter_order ord'" and "list_all valid_op ops"
  shows "run_cache ord ops = run_cache ord' ops"
  using fold_apply_op_refines[OF assms(1) NewInMemoryCache_inv assms(3)]
    fold_apply_op_refines[OF assms(2) NewInMemoryCache_inv assms(3)]
  unfolding run_cache_def by (intro cache_canonical) auto

lemma iter_order_rev: "iter_order (rev \<circ> sorted_list_of_fset)"
  using iter_order_sorted by (simp add: iter_order_def)

theorem cache_iteration_order_irrelevant_witness:
  "run_cache sorted_list_of_fset
     [OpHeartbeat ''r'' (fmupd ''a'' 3 (fmupd ''b'' 1 fmempty)) \<lparr>CpuPercent = 0, UnusedMemoryBytes = 9\<rparr>] =
   run_cache (rev \<circ> sorted_list_of_fset)
     [OpHeartbeat ''r'' (fmupd ''a'' 3 (fmupd ''b'' 1 fmempty)) \<lparr>CpuPercent = 0, UnusedMemoryBytes = 9\<rparr>]"
  by (rule cache_iteration_order_irrelevant[OF iter_order_sorted iter_order_rev]) simp

text \<open>
  A heartbeat replaces what the cache knows about a runner: afterwards exactly the reported
  instances resolve to it, whatever runner they were on before and whichever instances the runner
  had before.
\<close>

lemma heartbeat_replaces_instances:
  assumes "iter_order ord" and "cache_inv c" and "r \<noteq> ''''"
  shows "RunnerAddressOfInstance i (UpsertRunnerHeartbeat ord r qd m c) = Inr r \<longleftrightarrow>
    fmlookup qd i \<noteq> None"
  using routing_cache.heartbeat_replaces[OF inMemory_routing_cache[OF assms(1)] assms(2,3)]
  by (simp add: inMemoryRoutingCache_def)

text \<open>
  An evicted runner is gone: no instance resolves to it and it is not offered for scheduling.
\<close>

lemma removed_runner_unreachable_mem:
  assumes "iter_order ord" and "cache_inv c"
  shows "RunnerAddressOfInstance i (RemoveRunner ord r c) \<noteq> Inr r \<and>
    (\<exists>m. RequestsPerRunner (RemoveRunner ord r c) = Inr m \<and> fmlookup m r = None)"
  using routing_cache.removed_runner_unreachable[OF inMemory_routing_cache[OF assms(1)] assms(2)]
  by (simp add: inMemoryRoutingCache_def)

text \<open>
  C21: the request total of a runner is computed in a 64-bit \<open>int\<close>. After a heartbeat that reports
  fewer than \<open>2 ^ 31\<close> instances the stored total is the true sum of the reported depths: the
  addition does not wrap.
\<close>

theorem heartbeat_total_exact:
  assumes "iter_order ord" and "cache_inv c" and "r \<noteq> ''''" and "fcard (fmdom qd) < 2 ^ 31"
  shows "\<exists>t. fmlookup (runnerRequests (UpsertRunnerHeartbeat ord r qd m c)) r = Some t \<and>
    sint t = (\<Sum>i\<in>fset (fmdom qd). int (unat (fmget 0 qd i)))"
proof -
  let ?c = "UpsertRunnerHeartbeat ord r qd m c"
  note F = UpsertRunnerHeartbeat_fields[OF assms(1-3), of qd m]
  have inv: "cache_inv ?c" by (rule UpsertRunnerHeartbeat_inv[OF assms(1-3)])
  obtain S where S: "fmlookup (runnerInstances ?c) r = Some S"
    using F(4) by (metis fmlookup_dom_iff insertI1)
  have "fset S = fset (fmdom qd)"
    using cache_inv_exceptD(3)[OF inv, of r] rset_lookup[OF S] by (auto simp: F(1) split: if_splits)
  then have "(\<Sum>i\<in>fset S. fmget 0 (instanceQueue ?c) i) = (\<Sum>i\<in>fset (fmdom qd). ucast (fmget 0 qd i))"
    by (intro sum.cong) (simp_all add: fmget_def[of 0 "instanceQueue ?c"] F(3))
  moreover have "card (fset (fmdom qd)) < 2 ^ 31"
    using assms(4) by (simp add: fcard.rep_eq)
  ultimately show ?thesis
    using cache_inv_exceptD(9)[OF inv, of r] S sint_sum_ucast[of "fset (fmdom qd)" "fmget 0 qd"] by simp
qed

theorem heartbeat_total_exact_witness:
  "\<exists>t. fmlookup (runnerRequests (UpsertRunnerHeartbeat sorted_list_of_fset ''r''
        (fmupd ''a'' 3 (fmupd ''b'' 4 fmempty)) \<lparr>CpuPercent = 0, UnusedMemoryBytes = 9\<rparr> NewInMemoryCache)) ''r'' =
      Some t \<and> sint t = 7"
proof -
  have "fcard (fmdom (fmupd ''a'' 3 (fmupd ''b'' (4::uint32) fmempty))) < 2 ^ 31"
    by (simp add: fcard.rep_eq)
  from heartbeat_total_exact[OF iter_order_sorted NewInMemoryCache_inv _ this, of "''r''"]
  show ?thesis by simp
qed

end
