(* ===== verification/Routing.thy ===== *)
theory Routing
  imports Caching
begin

text \<open>
  The router of the commander (\<open>pkg/routing/router.go\<close>, \<open>pkg/routing/naive.go\<close>).

  \<open>Route\<close> reads the cache through the \<open>RoutingCache\<close> interface, so it takes the interface's operations
  and the cache as arguments. The two loops range over Go maps: they take the keys in the order of
  the iteration oracle. What \<open>Route\<close> decides is proved once, in the locale of the interface, for every
  provider of the contract; the in-memory cache is one.
\<close>

section \<open>The program\<close>

record Routing =
  RunnerAddr :: string
  InstanceId :: string

record NaiveRouter =
  instanceOverloadThreshold :: goint
  runnerOverloadThreshold :: goint

definition NewNaiveRouter :: "goint \<Rightarrow> goint \<Rightarrow> NaiveRouter" where
  "NewNaiveRouter instThreshold runThreshold =
     \<lparr>instanceOverloadThreshold = instThreshold, runnerOverloadThreshold = runThreshold\<rparr>"

fun pickHealthyInstance ::
  "'c RoutingCache \<Rightarrow> (string, goint) fmap \<Rightarrow> string list \<Rightarrow> goint \<Rightarrow> 'c \<Rightarrow> Routing option res" where
  "pickHealthyInstance ops instances [] overloadThreshold cache = Inr None"
| "pickHealthyInstance ops instances (instId # rest) overloadThreshold cache =
     (if fmget 0 instances instId <s overloadThreshold
      then (case rcRunnerAddressOfInstance ops instId cache of
              Inl err \<Rightarrow> Inl (wrapf ''error getting runner address of instance %q: %w'' [instId] err)
            | Inr runnerAddr \<Rightarrow> Inr (Some \<lparr>RunnerAddr = runnerAddr, InstanceId = instId\<rparr>))
      else pickHealthyInstance ops instances rest overloadThreshold cache)"

definition MaxInt :: goint where
  "MaxInt = drop_bit 1 (- 1)"

fun pickLeastLoadedLoop ::
  "(string, goint) fmap \<Rightarrow> string list \<Rightarrow> goint \<Rightarrow> string \<Rightarrow> goint \<Rightarrow> string" where
  "pickLeastLoadedLoop requestsPerRunner [] overloadThreshold leastLoaded mn = leastLoaded"
| "pickLeastLoadedLoop requestsPerRunner (runnerAddr # rest) overloadThreshold leastLoaded mn =
     (let requests = fmget 0 requestsPerRunner runnerAddr
      in if overloadThreshold \<le>s requests
         then pickLeastLoadedLoop requestsPerRunner rest overloadThreshold leastLoaded mn
         else if requests <s mn
         then pickLeastLoadedLoop requestsPerRunner rest overloadThreshold runnerAddr requests
         else pickLeastLoadedLoop requestsPerRunner rest overloadThreshold leastLoaded mn)"

definition pickLeastLoadedRunner :: "iterorder \<Rightarrow> (string, goint) fmap \<Rightarrow> goint \<Rightarrow> string" where
  "pickLeastLoadedRunner ord requestsPerRunner overloadThreshold =
     pickLeastLoadedLoop requestsPerRunner (ord (fmdom requestsPerRunner)) overloadThreshold '''' MaxInt"

definition Route ::
  "iterorder \<Rightarrow> NaiveRouter \<Rightarrow> string \<Rightarrow> 'c RoutingCache \<Rightarrow> 'c \<Rightarrow> Routing res" where
  "Route ord n functionId ops cache =
     (case rcFunctionIdInstances ops functionId cache of
        Inl err \<Rightarrow> Inl (wrapf ''error getting instances for functionId: %w'' [] err)
      | Inr instances \<Rightarrow>
          (case pickHealthyInstance ops instances (ord (fmdom instances))
                  (instanceOverloadThreshold n) cache of
             Inl err \<Rightarrow> Inl (wrapf ''failed to find healthy instance: %w'' [] err)
           | Inr (Some routing) \<Rightarrow> Inr routing
           | Inr None \<Rightarrow>
               (case rcRequestsPerRunner ops cache of
                  Inl err \<Rightarrow> Inl (wrapf ''failed to read requests per runner: %w'' [] err)
                | Inr rs \<Rightarrow>
                    (let healthyRunner = pickLeastLoadedRunner ord rs (runnerOverloadThreshold n)
                     in if healthyRunner = '''' then Inl ErrNoRunnerAvailable
                        else Inl (ErrPrepareInstance functionId healthyRunner)))))"

section \<open>Picking a runner\<close>

lemma sint_MaxInt: "sint MaxInt = 2 ^ 63 - 1"
  by (simp add: MaxInt_def mask_numeral)

lemma sint_le_MaxInt: "sint (w :: goint) \<le> 2 ^ 63 - 1"
  using sint_lt [of w] by simp


text \<open>
  The loop keeps the pair of the best address so far and its load. It ends either where it began, when
  no visited runner is under both bounds, or at a visited runner under the threshold with the least
  load.
\<close>

lemma pickLeastLoadedLoop_cases:
  obtains (none) "pickLeastLoadedLoop m ks t ll mn = ll"
      "\<And>k. k \<in> set ks \<Longrightarrow> sint (fmget 0 m k) < sint t \<Longrightarrow> sint mn \<le> sint (fmget 0 m k)"
  | (found) x where "pickLeastLoadedLoop m ks t ll mn = x" "x \<in> set ks"
      "sint (fmget 0 m x) < sint t" "sint (fmget 0 m x) < sint mn"
      "\<And>k. k \<in> set ks \<Longrightarrow> sint (fmget 0 m k) < sint t \<Longrightarrow> sint (fmget 0 m x) \<le> sint (fmget 0 m k)"
proof (induction ks arbitrary: ll mn thesis)
  case Nil
  then show ?case by simp
next
  case (Cons a ks)
  show ?case
  proof (cases "sint (fmget 0 m a) < sint t \<and> sint (fmget 0 m a) < sint mn")
    case True
    then have eq: "pickLeastLoadedLoop m (a # ks) t ll mn = pickLeastLoadedLoop m ks t a (fmget 0 m a)"
      by (simp add: Let_def word_sless_alt word_sle_eq)
    show ?thesis
    proof (cases rule: Cons.IH [of a "fmget 0 m a"])
      case 1
      with True eq show ?thesis by (intro Cons.prems(2) [of a]) auto
    next
      case (2 x)
      with True eq show ?thesis by (intro Cons.prems(2) [of x]) force+
    qed
  next
    case False
    then have eq: "pickLeastLoadedLoop m (a # ks) t ll mn = pickLeastLoadedLoop m ks t ll mn"
      by (auto simp: Let_def word_sless_alt word_sle_eq)
    show ?thesis
    proof (cases rule: Cons.IH [of ll mn])
      case 1
      with False eq show ?thesis by (intro Cons.prems(1)) auto
    next
      case (2 x)
      with False eq show ?thesis by (intro Cons.prems(2) [of x]) force+
    qed
  qed
qed

lemma pickLeastLoadedRunner_cases:
  assumes "iter_order ord" and "fmlookup m '''' = None"
  obtains (none) "pickLeastLoadedRunner ord m t = ''''"
      "\<And>r q. fmlookup m r = Some q \<Longrightarrow> sint t \<le> sint q"
  | (found) r q where "pickLeastLoadedRunner ord m t = r" "r \<noteq> ''''" "fmlookup m r = Some q"
      "sint q < sint t" "\<And>r' q'. fmlookup m r' = Some q' \<Longrightarrow> sint q \<le> sint q'"
proof (cases rule: pickLeastLoadedLoop_cases [of m "ord (fmdom m)" t "''''" MaxInt])
  note S = iter_orderD(2)[OF assms(1), of "fmdom m"]
  case none
  have "sint t \<le> sint q" if "fmlookup m r = Some q" for r q
    using none(2)[of r] that S sint_le_MaxInt[of q] sint_le_MaxInt[of t]
    by (force simp: sint_MaxInt fmlookup_dom_iff)
  with none(1) show ?thesis by (intro that(1)) (simp add: pickLeastLoadedRunner_def)
next
  note S = iter_orderD(2)[OF assms(1), of "fmdom m"]
  case (found x)
  then obtain q where q: "fmlookup m x = Some q" using S by (auto simp: fmlookup_dom_iff)
  have "sint q \<le> sint q'" if "fmlookup m r' = Some q'" for r' q'
    using found(3) found(5)[of r'] q that S by (force simp: fmlookup_dom_iff)
  moreover have "x \<noteq> ''''" using q assms(2) by auto
  ultimately show ?thesis
    using found(1,3) q by (intro that(2) [of x q]) (auto simp: pickLeastLoadedRunner_def)
qed

section \<open>What Route decides, for every provider of the interface\<close>

context routing_cache
begin

lemma pickHealthyInstance_cases:
  assumes inv: "invar c" and m: "rcFunctionIdInstances ops f c = Inr m"
    and sub: "set ks \<subseteq> fset (fmdom m)"
  obtains (none) "pickHealthyInstance ops m ks t c = Inr None"
      "\<And>k. k \<in> set ks \<Longrightarrow> sint t \<le> sint (fmget 0 m k)"
  | (found) i r q where "pickHealthyInstance ops m ks t c = Inr (Some \<lparr>RunnerAddr = r, InstanceId = i\<rparr>)"
      "assign (absn c) i = Some (Some f, r, q)" "sint q < sint t"
  using sub
proof (induction ks arbitrary: thesis)
  case Nil
  then show ?case by simp
next
  case (Cons a ks)
  then obtain q where q: "fmlookup m a = Some q" by (auto simp: fmlookup_dom_iff)
  show ?case
  proof (cases "sint q < sint t")
    case True
    from instance_has_runner[OF inv m q] obtain r where
      "rcRunnerAddressOfInstance ops a c = Inr r" "assign (absn c) a = Some (Some f, r, q)" by blast
    with True q show ?thesis
      by (intro Cons.prems(2) [of r a q]) (simp_all add: word_sless_alt)
  next
    case False
    have tl: "pickHealthyInstance ops m (a # ks) t c = pickHealthyInstance ops m ks t c"
      using False q by (simp add: word_sless_alt)
    show ?thesis
    proof (cases rule: Cons.IH)
      case 1
      with False q tl show ?thesis by (intro Cons.prems(1)) auto
    next
      case (2 r i q')
      with tl show ?thesis by (intro Cons.prems(2) [of r i q']) simp_all
    next
      show "set ks \<subseteq> fset (fmdom m)" using Cons.prems(3) by simp
    qed
  qed
qed

text \<open>The three decisions of the router, exhaustively.\<close>

lemma Route_cases:
  assumes ord: "iter_order ord" and inv: "invar c"
  obtains (existing) i r q where
      "Route ord n f ops c = Inr \<lparr>RunnerAddr = r, InstanceId = i\<rparr>"
      "assign (absn c) i = Some (Some f, r, q)" "sint q < sint (instanceOverloadThreshold n)"
  | (prepare) r q where "Route ord n f ops c = Inl (ErrPrepareInstance f r)"
      "\<And>i q. absInstancesOf (absn c) f i = Some q \<Longrightarrow> sint (instanceOverloadThreshold n) \<le> sint q"
      "absRequestsOf (absn c) r = Some q" "sint q < sint (runnerOverloadThreshold n)"
      "\<And>r' q'. absRequestsOf (absn c) r' = Some q' \<Longrightarrow> sint q \<le> sint q'"
  | (unavailable) "Route ord n f ops c = Inl ErrNoRunnerAvailable"
      "\<And>i q. absInstancesOf (absn c) f i = Some q \<Longrightarrow> sint (instanceOverloadThreshold n) \<le> sint q"
      "\<And>r q. absRequestsOf (absn c) r = Some q \<Longrightarrow> sint (runnerOverloadThreshold n) \<le> sint q"
proof -
  obtain m where m: "rcFunctionIdInstances ops f c = Inr m" "fmlookup m = absInstancesOf (absn c) f"
    using read_instances[OF inv] by blast
  obtain rs where rs: "rcRequestsPerRunner ops c = Inr rs" "fmlookup rs = absRequestsOf (absn c)"
    using read_requests[OF inv] by blast
  have ne: "fmlookup rs '''' = None"
    using named_runners[OF inv] by (simp add: rs(2) absRequestsOf_def)
  have S: "set (ord (fmdom m)) \<subseteq> fset (fmdom m)" using iter_orderD(2)[OF ord] by simp
  show ?thesis
  proof (cases rule: pickHealthyInstance_cases[OF inv m(1) S, of "instanceOverloadThreshold n"])
    case (2 i r q)
    with m show ?thesis by (intro existing [of r i q]) (simp_all add: Route_def)
  next
    case none: 1
    have over: "sint (instanceOverloadThreshold n) \<le> sint q" if "absInstancesOf (absn c) f i = Some q" for i q
      using none(2)[of i] that iter_orderD(2)[OF ord, of "fmdom m"] m(2) by (force simp: fmlookup_dom_iff)
    show ?thesis
    proof (cases rule: pickLeastLoadedRunner_cases[OF ord ne, of "runnerOverloadThreshold n"])
      case 1
      with none m rs show ?thesis by (intro unavailable) (simp_all add: Route_def over)
    next
      case (2 r q)
      with none m rs show ?thesis by (intro prepare [of r q]) (simp_all add: Route_def Let_def over)
    qed
  qed
qed

end

section \<open>Properties\<close>

lemma mem_requests:
  assumes "cache_inv c"
  shows "absRequestsOf (abs_cache c) = fmlookup (runnerRequests c)"
  using RequestsPerRunner_refines[OF assms] by (auto simp: RequestsPerRunner_def)

lemma mem_instances:
  assumes "cache_inv c"
  shows "absInstancesOf (abs_cache c) f = fmlookup (fmget fmempty (funcInstances c) f)"
  using FunctionIdInstances_refines[OF assms, of f]
  by (auto simp: FunctionIdInstances_def fmget_def split: option.splits)

text \<open>
  a request that is routed to an existing instance goes to an instance of that very function
  whose last known queue is below the threshold, at the runner the cache has for that instance.
\<close>

lemma Route_existing_instance:
  assumes "iter_order ord" and "cache_inv c"
    and "Route ord n f (inMemoryRoutingCache ord) c = Inr ro"
  shows "RunnerAddressOfInstance (InstanceId ro) c = Inr (RunnerAddr ro) \<and>
    fmlookup (instanceFunction c) (InstanceId ro) = Some f \<and>
    (\<exists>q. fmlookup (fmget fmempty (funcInstances c) f) (InstanceId ro) = Some q \<and>
      q <s instanceOverloadThreshold n)"
proof (cases rule: routing_cache.Route_cases[OF inMemory_routing_cache[OF assms(1)] assms(1,2), of n f])
  case (1 i r q)
  then have "absInstancesOf (abs_cache c) f i = Some q" "RunnerAddressOfInstance i c = Inr r"
    "fmlookup (instanceFunction c) i = Some f"
    by (auto simp: absInstancesOf_def RunnerAddressOfInstance_def abs_assign)
  with 1 assms show ?thesis by (simp add: mem_instances[OF assms(2)] word_sless_alt)
qed (use assms in simp_all)

lemma example_cache_inv:
  "cache_inv (run_cache sorted_list_of_fset [OpSetInstance ''1'' ''a'' ''r1'' 0])"
  by (rule run_cache_inv[OF iter_order_sorted]) simp

lemma example_route:
  "Route sorted_list_of_fset (NewNaiveRouter 5 50) ''1'' (inMemoryRoutingCache sorted_list_of_fset)
     (run_cache sorted_list_of_fset [OpSetInstance ''1'' ''a'' ''r1'' 0]) =
   Inr \<lparr>RunnerAddr = ''r1'', InstanceId = ''a''\<rparr>"
  by code_simp

text \<open>
  C8: a new instance is asked for only when every known instance of the function is at or over its
  threshold, and then on a runner that is below the runner threshold and least loaded among all
  known runners, for every iteration order of the map.
\<close>

theorem Route_prepares_on_least_loaded:
  assumes "iter_order ord" and "cache_inv c"
    and "Route ord n f (inMemoryRoutingCache ord) c = Inl (ErrPrepareInstance g r)"
  shows "g = f \<and>
    (\<forall>i q. fmlookup (fmget fmempty (funcInstances c) f) i = Some q \<longrightarrow> instanceOverloadThreshold n \<le>s q) \<and>
    (\<exists>q. fmlookup (runnerRequests c) r = Some q \<and> q <s runnerOverloadThreshold n \<and>
      (\<forall>r' q'. fmlookup (runnerRequests c) r' = Some q' \<longrightarrow> q \<le>s q'))"
proof (cases rule: routing_cache.Route_cases[OF inMemory_routing_cache[OF assms(1)] assms(1,2), of n f])
  case (2 r q)
  with assms show ?thesis
    by (auto simp: mem_requests[OF assms(2)] mem_instances[OF assms(2)] word_sless_alt word_sle_eq)
qed (use assms in simp_all)

lemma example_route_prepare:
  "Route sorted_list_of_fset (NewNaiveRouter 0 50) ''1'' (inMemoryRoutingCache sorted_list_of_fset)
     (run_cache sorted_list_of_fset [OpSetInstance ''1'' ''a'' ''r1'' 0]) =
   Inl (ErrPrepareInstance ''1'' ''r1'')"
  by code_simp

theorem Route_prepares_on_least_loaded_witness:
  "\<exists>q. fmlookup (runnerRequests (run_cache sorted_list_of_fset [OpSetInstance ''1'' ''a'' ''r1'' 0])) ''r1'' =
     Some q \<and> q <s 50"
  using Route_prepares_on_least_loaded[OF iter_order_sorted example_cache_inv example_route_prepare]
  by (auto simp: NewNaiveRouter_def)

text \<open>
  C11: the router answers that no runner is available exactly when every known instance of the
  function and every known runner is at or over its threshold; in particular it never misses a
  runner because of the initial value \<open>MaxInt\<close> of the minimum or the empty initial address.
\<close>

theorem Route_unavailable_iff:
  assumes "iter_order ord" and "cache_inv c"
  shows "Route ord n f (inMemoryRoutingCache ord) c = Inl ErrNoRunnerAvailable \<longleftrightarrow>
    (\<forall>i q. fmlookup (fmget fmempty (funcInstances c) f) i = Some q \<longrightarrow> instanceOverloadThreshold n \<le>s q) \<and>
    (\<forall>r q. fmlookup (runnerRequests c) r = Some q \<longrightarrow> runnerOverloadThreshold n \<le>s q)"
proof (cases rule: routing_cache.Route_cases[OF inMemory_routing_cache[OF assms(1)] assms(1,2), of n f])
  case (1 i r q)
  then have "absInstancesOf (abs_cache c) f i = Some q" by (simp add: absInstancesOf_def)
  with 1 show ?thesis by (force simp: mem_instances[OF assms(2)] word_sle_eq)
next
  case (2 r q)
  then show ?thesis by (force simp: mem_requests[OF assms(2)] word_sle_eq)
next
  case 3
  then show ?thesis by (simp add: mem_requests[OF assms(2)] mem_instances[OF assms(2)] word_sle_eq)
qed

theorem Route_unavailable_iff_witness:
  "Route sorted_list_of_fset (NewNaiveRouter 5 50) ''1'' (inMemoryRoutingCache sorted_list_of_fset)
     NewInMemoryCache = Inl ErrNoRunnerAvailable"
  using Route_unavailable_iff[OF iter_order_sorted NewInMemoryCache_inv]
  by (simp add: NewInMemoryCache_def)

end
