(* ===== verification/CommanderDB.thy ===== *)
theory CommanderDB
  imports GoStd
begin

text \<open>
  The database of the commander (\<open>pkg/commander/db.go\<close>) over the tables and statements of
  \<open>pkg/commander/migrations\<close> and \<open>pkg/commander/queries.sql\<close>.

  \<open>WithRetry\<close> is generic in the statement it runs and in the state of the world; waiting between two
  attempts is an argument that says whether the context ended first. The generated query functions
  are the record \<open>Queries\<close>. Its instance \<open>sqlQueries\<close> gives the meaning of the SQL statements on the
  two tables: a statement is atomic, and a script of faults says which attempts fail with which
  error, as the database does when another connection holds a lock. The timestamp columns are not
  modelled: no code reads them.
\<close>

section \<open>Retrying\<close>

definition MaxRetries :: nat where
  "MaxRetries = 20"

definition SQLITE_BUSY :: int where
  "SQLITE_BUSY = 5"

definition SQLITE_LOCKED :: int where
  "SQLITE_LOCKED = 6"

text \<open>The delay handed to \<open>sleep\<close> is in milliseconds; \<open>Some err\<close> is \<open>ctx.Err()\<close> of a context that ended.\<close>

type_synonym 'w sleeper = "nat \<Rightarrow> 'w \<Rightarrow> 'w \<times> goerr option"

function WithRetryLoop ::
  "'w sleeper \<Rightarrow> ('w \<Rightarrow> 'w \<times> 'a res) \<Rightarrow> nat \<Rightarrow> 'w \<Rightarrow> 'w \<times> 'a res" where
  "WithRetryLoop sleep f retries w =
     (case f w of
        (w1, Inr result) \<Rightarrow> (w1, Inr result)
      | (w1, Inl err) \<Rightarrow>
          (case errors_AsSqlite err of
             None \<Rightarrow> (w1, Inl err)
           | Some code \<Rightarrow>
               (if code \<noteq> SQLITE_BUSY \<and> code \<noteq> SQLITE_LOCKED then (w1, Inl err)
                else if MaxRetries \<le> retries
                then (w1, Inl (wrapf ''db function errored more than %d times: %w'' [''20''] err))
                else case sleep ((retries + 1) * 5) w1 of
                       (w2, Some ctxErr) \<Rightarrow> (w2, Inl ctxErr)
                     | (w2, None) \<Rightarrow> WithRetryLoop sleep f (retries + 1) w2)))"
  by pat_completeness auto
termination
  by (relation "measure (\<lambda>(_, _, retries, _). MaxRetries - retries)") auto

declare WithRetryLoop.simps [simp del]

definition WithRetry :: "'w sleeper \<Rightarrow> ('w \<Rightarrow> 'w \<times> 'a res) \<Rightarrow> 'w \<Rightarrow> 'w \<times> 'a res" where
  "WithRetry sleep f w = WithRetryLoop sleep f 1 w"

section \<open>Rows, statements and the database interface\<close>

record Function =
  ID :: int
  Hash :: bytes
  Name :: string
  Path :: string

record Runner =
  RunnerID :: int
  Addr :: string

record 'w Queries =
  qCreateFunction :: "string \<Rightarrow> string \<Rightarrow> bytes \<Rightarrow> 'w \<Rightarrow> 'w \<times> Function res"
  qFunctionExistsByHash :: "bytes \<Rightarrow> 'w \<Rightarrow> 'w \<times> int res"
  qFunctionByID :: "int \<Rightarrow> 'w \<Rightarrow> 'w \<times> Function res"
  qRunnerByAddr :: "string \<Rightarrow> 'w \<Rightarrow> 'w \<times> Runner res"
  qCreateRunner :: "string \<Rightarrow> 'w \<Rightarrow> 'w \<times> Runner res"
  qGetAllRunners :: "'w \<Rightarrow> 'w \<times> Runner list res"

record 'w CommanderDB =
  dbCreateFunction :: "string \<Rightarrow> string \<Rightarrow> bytes \<Rightarrow> 'w \<Rightarrow> 'w \<times> Function res"
  dbFunctionByID :: "int \<Rightarrow> 'w \<Rightarrow> 'w \<times> Function res"
  dbFunctionExistsByHash :: "bytes \<Rightarrow> 'w \<Rightarrow> 'w \<times> bool res"
  dbCreateRunner :: "string \<Rightarrow> 'w \<Rightarrow> 'w \<times> Runner res"
  dbRunnerByAddr :: "string \<Rightarrow> 'w \<Rightarrow> 'w \<times> Runner res"
  dbGetAllRunners :: "'w \<Rightarrow> 'w \<times> Runner list res"

text \<open>The wrapping of the error that every operation of \<open>SQLiteCommanderDB\<close> ends with.\<close>

definition wrapErr :: "string \<Rightarrow> 'w \<times> 'a res \<Rightarrow> 'w \<times> 'a res" where
  "wrapErr msg r = (case r of (w, Inl err) \<Rightarrow> (w, Inl (wrapf msg [] err)) | (w, Inr x) \<Rightarrow> (w, Inr x))"

definition SQLiteCreateFunction ::
  "'w sleeper \<Rightarrow> 'w Queries \<Rightarrow> string \<Rightarrow> string \<Rightarrow> bytes \<Rightarrow> 'w \<Rightarrow> 'w \<times> Function res" where
  "SQLiteCreateFunction sleep q path name hash w =
     wrapErr ''failed to create function: %w'' (WithRetry sleep (qCreateFunction q path name hash) w)"

definition SQLiteFunctionByID ::
  "'w sleeper \<Rightarrow> 'w Queries \<Rightarrow> int \<Rightarrow> 'w \<Rightarrow> 'w \<times> Function res" where
  "SQLiteFunctionByID sleep q i w =
     wrapErr ''failed to get function by id: %w'' (WithRetry sleep (qFunctionByID q i) w)"

definition SQLiteFunctionExistsByHash ::
  "'w sleeper \<Rightarrow> 'w Queries \<Rightarrow> bytes \<Rightarrow> 'w \<Rightarrow> 'w \<times> bool res" where
  "SQLiteFunctionExistsByHash sleep q hash w =
     (case wrapErr ''failed to check if function exists: %w''
             (WithRetry sleep (qFunctionExistsByHash q hash) w) of
        (w', Inl err) \<Rightarrow> (w', Inl err)
      | (w', Inr exists) \<Rightarrow> (w', Inr (exists = 1)))"

definition SQLiteCreateRunner ::
  "'w sleeper \<Rightarrow> 'w Queries \<Rightarrow> string \<Rightarrow> 'w \<Rightarrow> 'w \<times> Runner res" where
  "SQLiteCreateRunner sleep q addr w =
     wrapErr ''failed create runner by addr: %w'' (WithRetry sleep (qCreateRunner q addr) w)"

definition SQLiteRunnerByAddr ::
  "'w sleeper \<Rightarrow> 'w Queries \<Rightarrow> string \<Rightarrow> 'w \<Rightarrow> 'w \<times> Runner res" where
  "SQLiteRunnerByAddr sleep q addr w =
     wrapErr ''failed to get runner by addr: %w'' (WithRetry sleep (qRunnerByAddr q addr) w)"

definition SQLiteGetAllRunners ::
  "'w sleeper \<Rightarrow> 'w Queries \<Rightarrow> 'w \<Rightarrow> 'w \<times> Runner list res" where
  "SQLiteGetAllRunners sleep q w =
     wrapErr ''failed to get all runners: %w'' (WithRetry sleep (qGetAllRunners q) w)"

definition SQLiteCommanderDB :: "'w sleeper \<Rightarrow> 'w Queries \<Rightarrow> 'w CommanderDB" where
  "SQLiteCommanderDB sleep q =
     \<lparr>dbCreateFunction = SQLiteCreateFunction sleep q,
      dbFunctionByID = SQLiteFunctionByID sleep q,
      dbFunctionExistsByHash = SQLiteFunctionExistsByHash sleep q,
      dbCreateRunner = SQLiteCreateRunner sleep q,
      dbRunnerByAddr = SQLiteRunnerByAddr sleep q,
      dbGetAllRunners = SQLiteGetAllRunners sleep q\<rparr>"

section \<open>The statements on the tables\<close>

record Tables =
  functionRows :: "Function list"
  runnerRows :: "Runner list"
  dbFaults :: "goerr list"

definition emptyTables :: Tables where
  "emptyTables = \<lparr>functionRows = [], runnerRows = [], dbFaults = []\<rparr>"

text \<open>An attempt consumes the next fault of the script, and then changes nothing.\<close>

definition attempt :: "(Tables \<Rightarrow> Tables \<times> 'a res) \<Rightarrow> Tables \<Rightarrow> Tables \<times> 'a res" where
  "attempt stmt t =
     (case dbFaults t of
        e # es \<Rightarrow> (t\<lparr>dbFaults := es\<rparr>, Inl e)
      | [] \<Rightarrow> stmt t)"

text \<open>The row id of a new row: one more than the greatest in use.\<close>

definition nextRowid :: "int list \<Rightarrow> int" where
  "nextRowid ids = foldr max ids 0 + 1"

definition SQLITE_CONSTRAINT_UNIQUE :: int where
  "SQLITE_CONSTRAINT_UNIQUE = 2067"

definition stmtCreateFunction :: "string \<Rightarrow> string \<Rightarrow> bytes \<Rightarrow> Tables \<Rightarrow> Tables \<times> Function res" where
  "stmtCreateFunction path name hash t =
     (if list_ex (\<lambda>f. Hash f = hash) (functionRows t)
      then (t, Inl (ErrSqlite SQLITE_CONSTRAINT_UNIQUE))
      else let f = \<lparr>ID = nextRowid (map ID (functionRows t)), Hash = hash, Name = name, Path = path\<rparr>
           in (t\<lparr>functionRows := functionRows t @ [f]\<rparr>, Inr f))"

definition stmtFunctionExistsByHash :: "bytes \<Rightarrow> Tables \<Rightarrow> Tables \<times> int res" where
  "stmtFunctionExistsByHash hash t =
     (t, Inr (if list_ex (\<lambda>f. Hash f = hash) (functionRows t) then 1 else 0))"

definition one :: "'a option \<Rightarrow> 'a res" where
  "one r = (case r of None \<Rightarrow> Inl ErrNoRows | Some x \<Rightarrow> Inr x)"

definition stmtFunctionByID :: "int \<Rightarrow> Tables \<Rightarrow> Tables \<times> Function res" where
  "stmtFunctionByID i t = (t, one (find (\<lambda>f. ID f = i) (functionRows t)))"

definition stmtRunnerByAddr :: "string \<Rightarrow> Tables \<Rightarrow> Tables \<times> Runner res" where
  "stmtRunnerByAddr addr t = (t, one (find (\<lambda>r. Addr r = addr) (runnerRows t)))"

text \<open>The conflict clause sets the address to itself and returns the row that is there.\<close>

definition stmtCreateRunner :: "string \<Rightarrow> Tables \<Rightarrow> Tables \<times> Runner res" where
  "stmtCreateRunner addr t =
     (case find (\<lambda>r. Addr r = addr) (runnerRows t) of
        Some r \<Rightarrow> (t, Inr r)
      | None \<Rightarrow>
          (let r = \<lparr>RunnerID = nextRowid (map RunnerID (runnerRows t)), Addr = addr\<rparr>
           in (t\<lparr>runnerRows := runnerRows t @ [r]\<rparr>, Inr r)))"

definition stmtGetAllRunners :: "Tables \<Rightarrow> Tables \<times> Runner list res" where
  "stmtGetAllRunners t = (t, Inr (sort_key RunnerID (runnerRows t)))"

definition sqlQueries :: "Tables Queries" where
  "sqlQueries =
     \<lparr>qCreateFunction = (\<lambda>p n h. attempt (stmtCreateFunction p n h)),
      qFunctionExistsByHash = (\<lambda>h. attempt (stmtFunctionExistsByHash h)),
      qFunctionByID = (\<lambda>i. attempt (stmtFunctionByID i)),
      qRunnerByAddr = (\<lambda>a. attempt (stmtRunnerByAddr a)),
      qCreateRunner = (\<lambda>a. attempt (stmtCreateRunner a)),
      qGetAllRunners = attempt stmtGetAllRunners\<rparr>"

section \<open>What retrying does\<close>

definition busy :: "goerr \<Rightarrow> bool" where
  "busy e \<longleftrightarrow> errors_AsSqlite e = Some SQLITE_BUSY \<or> errors_AsSqlite e = Some SQLITE_LOCKED"

text \<open>Waiting does not change the world; it may report that the context ended.\<close>

definition sleep_ok :: "'w sleeper \<Rightarrow> bool" where
  "sleep_ok sleep \<longleftrightarrow> (\<forall>ms w. fst (sleep ms w) = w \<and> snd (sleep ms w) \<in> {None, Some ErrContext})"

definition neverDone :: "'w sleeper" where
  "neverDone ms w = (w, None)"

lemma sleep_ok_neverDone: "sleep_ok neverDone"
  by (simp add: sleep_ok_def neverDone_def)

lemma sleep_cases:
  assumes "sleep_ok sleep"
  obtains "sleep ms w = (w, None)" | "sleep ms w = (w, Some ErrContext)"
  using assms unfolding sleep_ok_def by (metis insertE prod.collapse singletonD)

text \<open>The loop in terms of \<open>busy\<close>.\<close>

lemma WithRetryLoop_unfold:
  "WithRetryLoop sleep f retries w =
     (case f w of
        (w1, Inr result) \<Rightarrow> (w1, Inr result)
      | (w1, Inl err) \<Rightarrow>
          (if \<not> busy err then (w1, Inl err)
           else if MaxRetries \<le> retries
           then (w1, Inl (wrapf ''db function errored more than %d times: %w'' [''20''] err))
           else case sleep ((retries + 1) * 5) w1 of
                  (w2, Some ctxErr) \<Rightarrow> (w2, Inl ctxErr)
                | (w2, None) \<Rightarrow> WithRetryLoop sleep f (retries + 1) w2))"
  unfolding WithRetryLoop.simps[of sleep f retries w] busy_def
  by (auto split: prod.splits sum.splits option.splits)

text \<open>Counting the calls of the statement.\<close>

definition counted :: "('w \<Rightarrow> 'w \<times> 'a) \<Rightarrow> nat \<times> 'w \<Rightarrow> (nat \<times> 'w) \<times> 'a" where
  "counted f s = (case f (snd s) of (w', r) \<Rightarrow> ((Suc (fst s), w'), r))"

definition countedSleep :: "'w sleeper \<Rightarrow> (nat \<times> 'w) sleeper" where
  "countedSleep sleep ms s = (case sleep ms (snd s) of (w', r) \<Rightarrow> ((fst s, w'), r))"

lemma WithRetryLoop_counted:
  assumes "1 \<le> retries" and "retries \<le> MaxRetries"
  shows "fst (fst (WithRetryLoop (countedSleep sleep) (counted f) retries (n, w))) \<in>
    {n <.. n + (MaxRetries - retries + 1)}"
  using assms
proof (induction "MaxRetries - retries" arbitrary: retries n w)
  case 0
  then show ?case
    by (simp add: WithRetryLoop_unfold[of "countedSleep sleep"] counted_def split: prod.splits sum.splits)
next
  case (Suc k)
  obtain w1 r where f: "f w = (w1, r)" by fastforce
  obtain w2 d where s: "sleep ((retries + 1) * 5) w1 = (w2, d)" by fastforce
  have "fst (fst (WithRetryLoop (countedSleep sleep) (counted f) (retries + 1) (Suc n, w2))) \<in>
      {Suc n <.. Suc n + (MaxRetries - (retries + 1) + 1)}"
    using Suc.hyps(2) Suc.prems by (intro Suc.hyps(1)) auto
  moreover have "Suc n + (MaxRetries - (retries + 1) + 1) = n + (MaxRetries - retries + 1)"
    using Suc.hyps(2) by simp
  ultimately show ?case
    using f s Suc.hyps(2)
    by (auto simp: WithRetryLoop_unfold[of "countedSleep sleep" "counted f" retries] counted_def
        countedSleep_def split: sum.splits option.splits)
qed

subsection \<open>Retrying against a script of faults\<close>

definition stmt_clean :: "(Tables \<Rightarrow> Tables \<times> 'a res) \<Rightarrow> bool" where
  "stmt_clean stmt \<longleftrightarrow> (\<forall>t err. snd (stmt t) = Inl err \<longrightarrow> \<not> busy err)"

definition gaveUp :: "goerr \<Rightarrow> goerr" where
  "gaveUp err = wrapf ''db function errored more than %d times: %w'' [''20''] err"

lemma script_done:
  assumes "stmt_clean stmt" and "dbFaults t = []"
  shows "WithRetryLoop sleep (attempt stmt) retries t = stmt t"
proof -
  obtain t' r where s: "stmt t = (t', r)" by fastforce
  then have "\<not> busy err" if "r = Inl err" for err
    using assms(1) that unfolding stmt_clean_def by (metis snd_conv)
  then show ?thesis
    using assms(2) s by (cases r) (simp_all add: WithRetryLoop_unfold[of sleep] attempt_def)
qed

lemma script_error:
  assumes "dbFaults t = e # es" and "\<not> busy e"
  shows "WithRetryLoop sleep (attempt stmt) retries t = (t\<lparr>dbFaults := es\<rparr>, Inl e)"
  using assms by (simp add: WithRetryLoop_unfold[of sleep] attempt_def)

lemma script_busy:
  assumes "dbFaults t = e # es" and "busy e"
  shows "WithRetryLoop sleep (attempt stmt) retries t =
    (if MaxRetries \<le> retries then (t\<lparr>dbFaults := es\<rparr>, Inl (gaveUp e))
     else case sleep ((retries + 1) * 5) (t\<lparr>dbFaults := es\<rparr>) of
            (t', Some ctxErr) \<Rightarrow> (t', Inl ctxErr)
          | (t', None) \<Rightarrow> WithRetryLoop sleep (attempt stmt) (retries + 1) t')"
proof -
  have "attempt stmt t = (t\<lparr>dbFaults := es\<rparr>, Inl e)" using assms(1) by (simp add: attempt_def)
  with assms(2) show ?thesis
    unfolding WithRetryLoop_unfold[of sleep "attempt stmt" retries t] gaveUp_def
    by (simp split: prod.splits option.splits)
qed

text \<open>The outcome is the statement's or an error of the script, of giving up or of the context.\<close>

lemma script_outcome:
  assumes "sleep_ok sleep" and "stmt_clean stmt"
  shows "WithRetryLoop sleep (attempt stmt) retries t = stmt (t\<lparr>dbFaults := []\<rparr>) \<or>
    (\<exists>es err. WithRetryLoop sleep (attempt stmt) retries t = (t\<lparr>dbFaults := es\<rparr>, Inl err) \<and>
      set es \<subseteq> set (dbFaults t) \<and>
      err \<in> {ErrContext} \<union> set (dbFaults t) \<union> gaveUp ` set (dbFaults t))"
proof (induction "dbFaults t" arbitrary: t retries)
  case Nil
  then have "t\<lparr>dbFaults := []\<rparr> = t" by (cases t) simp
  moreover have "WithRetryLoop sleep (attempt stmt) retries t = stmt t"
    using Nil by (intro script_done[OF assms(2)]) simp
  ultimately show ?case by metis
next
  case (Cons e es)
  note f = Cons.hyps(2)[symmetric]
  let ?u = "t\<lparr>dbFaults := es\<rparr>"
  show ?case
  proof (cases "busy e \<and> retries < MaxRetries")
    case False
    then have "\<exists>err \<in> {e, gaveUp e}. WithRetryLoop sleep (attempt stmt) retries t = (?u, Inl err)"
      using script_error[OF f] script_busy[OF f, of sleep stmt retries] by (cases "busy e") auto
    then show ?thesis using f by force
  next
    case True
    show ?thesis
    proof (cases rule: sleep_cases[OF assms(1), of "(retries + 1) * 5" ?u])
      case 1
      then have eq: "WithRetryLoop sleep (attempt stmt) retries t =
          WithRetryLoop sleep (attempt stmt) (retries + 1) ?u"
        using True script_busy[OF f, of sleep stmt retries] by simp
      have "es = dbFaults ?u" by simp
      from Cons.hyps(1)[OF this, of "retries + 1"] show ?thesis unfolding eq using f by fastforce
    next
      case 2
      then have "WithRetryLoop sleep (attempt stmt) retries t = (?u, Inl ErrContext)"
        using True script_busy[OF f, of sleep stmt retries] by simp
      then show ?thesis using f by fastforce
    qed
  qed
qed

text \<open>The exact number of attempts while the context lives.\<close>

lemma script_exact:
  assumes "stmt_clean stmt" and "retries \<le> MaxRetries"
  shows "WithRetryLoop neverDone (attempt stmt) retries (t\<lparr>dbFaults := es\<rparr>) =
    (let n = length (takeWhile busy es)
     in if MaxRetries - retries + 1 \<le> n
        then (t\<lparr>dbFaults := drop (MaxRetries - retries + 1) es\<rparr>, Inl (gaveUp (es ! (MaxRetries - retries))))
        else if n < length es then (t\<lparr>dbFaults := drop (n + 1) es\<rparr>, Inl (es ! n))
        else stmt (t\<lparr>dbFaults := []\<rparr>))"
  using assms(2)
proof (induction es arbitrary: retries)
  case Nil
  then show ?case using script_done[OF assms(1)] by simp
next
  case (Cons e es)
  show ?case
  proof (cases "busy e")
    case False
    then show ?thesis using script_error[of "t\<lparr>dbFaults := e # es\<rparr>" e es] by simp
  next
    case True
    have step: "WithRetryLoop neverDone (attempt stmt) retries (t\<lparr>dbFaults := e # es\<rparr>) =
        (if MaxRetries \<le> retries then (t\<lparr>dbFaults := es\<rparr>, Inl (gaveUp e))
         else WithRetryLoop neverDone (attempt stmt) (retries + 1) (t\<lparr>dbFaults := es\<rparr>))"
      using True script_busy[of "t\<lparr>dbFaults := e # es\<rparr>" e es neverDone stmt retries]
      by (simp add: neverDone_def)
    show ?thesis
    proof (cases "MaxRetries \<le> retries")
      case last: True
      with step True Cons.prems show ?thesis by simp
    next
      case False
      then have "MaxRetries - retries = Suc (MaxRetries - (retries + 1))" by simp
      with False step True Cons.IH[of "retries + 1"] Cons.prems show ?thesis by (simp add: Let_def)
    qed
  qed
qed

section \<open>The contract of the database\<close>

text \<open>
  What the commander relies on. \<open>funs\<close> and \<open>runns\<close> are the rows a state holds. An operation may fail at
  any time with an error that is not one of the sentinels, and then changes no row; a lookup reports
  \<open>ErrNoRows\<close> only when there is no row.
\<close>

definition db_error :: "goerr \<Rightarrow> bool" where
  "db_error e \<longleftrightarrow> errors_AsSqlite e \<noteq> None \<or> errors_Is e ErrContext"

lemma AsSqlite_Is: "errors_AsSqlite e = Some c \<Longrightarrow> errors_Is e t \<Longrightarrow> t = ErrSqlite c"
  by (induction e t rule: errors_Is.induct) auto

lemma Is_unique: "errors_Is e t \<Longrightarrow> errors_Is e t' \<Longrightarrow> t = t'"
  by (induction e t rule: errors_Is.induct) auto

lemma db_error_not_sentinel:
  assumes "db_error e"
  shows "\<not> errors_Is e ErrNoRows" "\<not> errors_Is e ErrFunctionExists" "\<not> errors_Is e ErrFunctionNotFound"
  using assms AsSqlite_Is[of e] Is_unique[of e ErrContext] by (auto simp: db_error_def)

definition same_rows :: "('w \<Rightarrow> 'f set) \<Rightarrow> ('w \<Rightarrow> 'r set) \<Rightarrow> 'w \<Rightarrow> 'w \<Rightarrow> bool" where
  "same_rows funs runns w w' \<longleftrightarrow> funs w' = funs w \<and> runns w' = runns w"

locale commander_db =
  fixes db :: "'w CommanderDB"
    and invar :: "'w \<Rightarrow> bool"
    and funs :: "'w \<Rightarrow> Function set"
    and runns :: "'w \<Rightarrow> Runner set"
  assumes unique_functions: "invar w \<Longrightarrow> f \<in> funs w \<Longrightarrow> g \<in> funs w \<Longrightarrow> ID f = ID g \<or> Hash f = Hash g \<Longrightarrow> f = g"
    and unique_runners: "invar w \<Longrightarrow> r \<in> runns w \<Longrightarrow> r' \<in> runns w \<Longrightarrow> RunnerID r = RunnerID r' \<or> Addr r = Addr r' \<Longrightarrow> r = r'"
    and create_function: "invar w \<Longrightarrow> dbCreateFunction db p n h w = (w', res) \<Longrightarrow> invar w' \<and> runns w' = runns w \<and>
      (case res of
         Inl e \<Rightarrow> db_error e \<and> funs w' = funs w
       | Inr f \<Rightarrow> funs w' = insert f (funs w) \<and> Path f = p \<and> Name f = n \<and> Hash f = h \<and>
           (\<forall>g \<in> funs w. Hash g \<noteq> h \<and> ID g \<noteq> ID f))"
    and function_by_id: "invar w \<Longrightarrow> dbFunctionByID db i w = (w', fres) \<Longrightarrow>
      invar w' \<and> same_rows funs runns w w' \<and>
      (case fres of
         Inl e \<Rightarrow> db_error e \<or> errors_Is e ErrNoRows \<and> (\<forall>f \<in> funs w. ID f \<noteq> i)
       | Inr f \<Rightarrow> f \<in> funs w \<and> ID f = i)"
    and exists_by_hash: "invar w \<Longrightarrow> dbFunctionExistsByHash db h w = (w', bres) \<Longrightarrow>
      invar w' \<and> same_rows funs runns w w' \<and>
      (case bres of Inl e \<Rightarrow> db_error e | Inr b \<Rightarrow> b \<longleftrightarrow> (\<exists>f \<in> funs w. Hash f = h))"
    and create_runner: "invar w \<Longrightarrow> dbCreateRunner db a w = (w', rres) \<Longrightarrow> invar w' \<and> funs w' = funs w \<and>
      (case rres of
         Inl e \<Rightarrow> db_error e \<and> runns w' = runns w
       | Inr r \<Rightarrow> Addr r = a \<and> runns w' = insert r (runns w))"
    and runner_by_addr: "invar w \<Longrightarrow> dbRunnerByAddr db a w = (w', rres) \<Longrightarrow>
      invar w' \<and> same_rows funs runns w w' \<and>
      (case rres of
         Inl e \<Rightarrow> db_error e \<or> errors_Is e ErrNoRows \<and> (\<forall>r \<in> runns w. Addr r \<noteq> a)
       | Inr r \<Rightarrow> r \<in> runns w \<and> Addr r = a)"
    and all_runners: "invar w \<Longrightarrow> dbGetAllRunners db w = (w', lres) \<Longrightarrow>
      invar w' \<and> same_rows funs runns w w' \<and>
      (case lres of
         Inl e \<Rightarrow> db_error e
       | Inr rs \<Rightarrow> set rs = runns w \<and> distinct (map Addr rs) \<and> sorted (map RunnerID rs))"
begin

text \<open>A runner that is registered again keeps its row.\<close>

lemma create_runner_again:
  assumes "invar w" and "dbCreateRunner db a w = (w', Inr r)" and "r' \<in> runns w" and "Addr r' = a"
  shows "r = r' \<and> runns w' = runns w"
proof -
  from create_runner[OF assms(1,2)]
  have c: "invar w'" "Addr r = a" "runns w' = insert r (runns w)" by simp_all
  then have "r = r'" using unique_runners[of w' r r'] assms(3,4) by simp
  with c(3) assms(3) show ?thesis by auto
qed

text \<open>A created function is found under its id, and its binary is known from then on.\<close>

lemma created_function_found:
  assumes "invar w" and "dbCreateFunction db p n h w = (w1, Inr f)"
    and "dbFunctionByID db (ID f) w1 = (w2, res)" and "dbFunctionExistsByHash db h w2 = (w3, bres)"
  shows "(case res of Inl e \<Rightarrow> db_error e | Inr g \<Rightarrow> g = f) \<and>
    (case bres of Inl e \<Rightarrow> db_error e | Inr b \<Rightarrow> b)"
proof -
  from create_function[OF assms(1,2)] have c: "invar w1" "f \<in> funs w1" "Hash f = h" by auto
  from function_by_id[OF c(1) assms(3)] have "invar w2" "funs w2 = funs w1"
    "case res of Inl e \<Rightarrow> db_error e | Inr g \<Rightarrow> g = f"
    using c unique_functions[OF c(1) _ c(2)]
    by (auto simp: same_rows_def split: sum.splits)
  with exists_by_hash[OF _ assms(4)] c show ?thesis by (auto split: sum.splits)
qed

end

section \<open>The tables keep the contract\<close>

definition db_inv :: "Tables \<Rightarrow> bool" where
  "db_inv t \<longleftrightarrow>
     distinct (map ID (functionRows t)) \<and> distinct (map Hash (functionRows t)) \<and>
     distinct (map RunnerID (runnerRows t)) \<and> distinct (map Addr (runnerRows t)) \<and>
     list_all (\<lambda>e. errors_AsSqlite e \<noteq> None) (dbFaults t)"

definition funsOf :: "Tables \<Rightarrow> Function set" where
  "funsOf t = set (functionRows t)"

definition runnsOf :: "Tables \<Rightarrow> Runner set" where
  "runnsOf t = set (runnerRows t)"

lemmas rows_defs = funsOf_def runnsOf_def same_rows_def

lemma nextRowid_fresh: "i \<in> set ids \<Longrightarrow> i < nextRowid ids"
proof -
  have "i \<in> set ids \<Longrightarrow> i \<le> foldr max ids 0" by (induction ids) auto
  then show "i \<in> set ids \<Longrightarrow> i < nextRowid ids" by (simp add: nextRowid_def)
qed

lemma nextRowid_notin: "nextRowid (map g xs) \<notin> g ` set xs"
  using nextRowid_fresh[of "nextRowid (map g xs)" "map g xs"] by auto

lemma nextRowid_neq: "x \<in> set xs \<Longrightarrow> g x \<noteq> nextRowid (map g xs)"
  using nextRowid_notin[of g xs] by (metis imageI)

lemma not_busy_codes: "\<not> busy (ErrSqlite SQLITE_CONSTRAINT_UNIQUE)" "\<not> busy ErrNoRows"
  by (simp_all add: busy_def SQLITE_CONSTRAINT_UNIQUE_def SQLITE_BUSY_def SQLITE_LOCKED_def)

lemma stmts_clean [simp]:
  "stmt_clean (stmtCreateFunction p n h)" "stmt_clean (stmtFunctionExistsByHash h)"
  "stmt_clean (stmtFunctionByID i)" "stmt_clean (stmtRunnerByAddr a)"
  "stmt_clean (stmtCreateRunner a)" "stmt_clean stmtGetAllRunners"
  using not_busy_codes
  by (auto simp: stmt_clean_def stmtCreateFunction_def stmtFunctionExistsByHash_def stmtFunctionByID_def
      stmtRunnerByAddr_def stmtCreateRunner_def stmtGetAllRunners_def one_def Let_def split: option.splits)

text \<open>
  Every database operation either ran its statement or failed with a database error and left the
  rows as they were.
\<close>

lemma retried_cases:
  assumes "sleep_ok sleep" and "stmt_clean stmt" and "db_inv t"
    and "wrapErr msg (WithRetry sleep (attempt stmt) t) = (t', res)"
  obtains (ran) r where "stmt (t\<lparr>dbFaults := []\<rparr>) = (t', r)"
      "res = (case r of Inl e \<Rightarrow> Inl (wrapf msg [] e) | Inr x \<Rightarrow> Inr x)"
  | (failed) e where "res = Inl e" "db_error e" "db_inv t'" "same_rows funsOf runnsOf t t'"
proof -
  have f: "errors_AsSqlite e \<noteq> None" if "e \<in> set (dbFaults t)" for e
    using assms(3) that by (auto simp: db_inv_def list_all_iff)
  consider "WithRetry sleep (attempt stmt) t = stmt (t\<lparr>dbFaults := []\<rparr>)"
    | es e where "WithRetry sleep (attempt stmt) t = (t\<lparr>dbFaults := es\<rparr>, Inl e)"
      "set es \<subseteq> set (dbFaults t)" "e \<in> {ErrContext} \<union> set (dbFaults t) \<union> gaveUp ` set (dbFaults t)"
    using script_outcome[OF assms(1,2), of 1 t] unfolding WithRetry_def by blast
  then show ?thesis
  proof cases
    case 1
    then show ?thesis
      using assms(4) by (cases "stmt (t\<lparr>dbFaults := []\<rparr>)")
        (auto simp: wrapErr_def split: sum.splits intro!: ran)
  next
    case (2 es e)
    then have "errors_AsSqlite e \<noteq> None \<or> e = ErrContext" using f by (auto simp: gaveUp_def)
    then have "db_error (wrapf msg [] e)" by (auto simp: db_error_def)
    moreover have "db_inv (t\<lparr>dbFaults := es\<rparr>)"
      using assms(3) 2(2) by (auto simp: db_inv_def list_all_iff)
    ultimately show ?thesis
      using assms(4) 2(1) by (intro failed[of "wrapf msg [] e"]) (auto simp: wrapErr_def rows_defs)
  qed
qed

lemma db_inv_no_faults: "db_inv t \<Longrightarrow> db_inv (t\<lparr>dbFaults := []\<rparr>)"
  by (simp add: db_inv_def)

lemma sql_create_function:
  assumes "sleep_ok sleep" and "db_inv t" and "SQLiteCreateFunction sleep sqlQueries p n h t = (t', res)"
  shows "db_inv t' \<and> runnsOf t' = runnsOf t \<and>
    (case res of
       Inl e \<Rightarrow> db_error e \<and> funsOf t' = funsOf t
     | Inr f \<Rightarrow> funsOf t' = insert f (funsOf t) \<and> Path f = p \<and> Name f = n \<and> Hash f = h \<and>
         (\<forall>g \<in> funsOf t. Hash g \<noteq> h \<and> ID g \<noteq> ID f))"
proof -
  have w: "wrapErr ''failed to create function: %w'' (WithRetry sleep (attempt (stmtCreateFunction p n h)) t) = (t', res)"
    using assms(3) by (simp add: SQLiteCreateFunction_def sqlQueries_def)
  show ?thesis
  proof (cases rule: retried_cases[OF assms(1) stmts_clean(1) assms(2) w])
    case (1 r)
    then show ?thesis
      using assms(2) nextRowid_notin[of ID "functionRows t"]
      by (auto simp: stmtCreateFunction_def Let_def rows_defs db_inv_def db_error_def list_ex_iff
          nextRowid_neq split: if_splits)
  next
    case (2 e)
    then show ?thesis by (simp add: rows_defs)
  qed
qed

lemma sql_function_by_id:
  assumes "sleep_ok sleep" and "db_inv t" and "SQLiteFunctionByID sleep sqlQueries i t = (t', res)"
  shows "db_inv t' \<and> same_rows funsOf runnsOf t t' \<and>
    (case res of
       Inl e \<Rightarrow> db_error e \<or> errors_Is e ErrNoRows \<and> (\<forall>f \<in> funsOf t. ID f \<noteq> i)
     | Inr f \<Rightarrow> f \<in> funsOf t \<and> ID f = i)"
proof -
  have w: "wrapErr ''failed to get function by id: %w'' (WithRetry sleep (attempt (stmtFunctionByID i)) t) = (t', res)"
    using assms(3) by (simp add: SQLiteFunctionByID_def sqlQueries_def)
  show ?thesis
  proof (cases rule: retried_cases[OF assms(1) stmts_clean(3) assms(2) w])
    case (1 r)
    then show ?thesis
      using db_inv_no_faults[OF assms(2)]
      by (auto simp: stmtFunctionByID_def one_def rows_defs find_None_iff find_Some_iff
          split: option.splits)
  next
    case (2 e)
    then show ?thesis by simp
  qed
qed

lemma sql_exists_by_hash:
  assumes "sleep_ok sleep" and "db_inv t" and "SQLiteFunctionExistsByHash sleep sqlQueries h t = (t', res)"
  shows "db_inv t' \<and> same_rows funsOf runnsOf t t' \<and>
    (case res of Inl e \<Rightarrow> db_error e | Inr b \<Rightarrow> b \<longleftrightarrow> (\<exists>f \<in> funsOf t. Hash f = h))"
proof -
  obtain r0 where r0: "wrapErr ''failed to check if function exists: %w''
      (WithRetry sleep (attempt (stmtFunctionExistsByHash h)) t) = (t', r0)"
    "res = (case r0 of Inl e \<Rightarrow> Inl e | Inr n \<Rightarrow> Inr (n = 1))"
    using assms(3) unfolding SQLiteFunctionExistsByHash_def sqlQueries_def
    by (auto split: prod.splits sum.splits)
  show ?thesis
  proof (cases rule: retried_cases[OF assms(1) stmts_clean(2) assms(2) r0(1)])
    case (1 r)
    then show ?thesis
      using db_inv_no_faults[OF assms(2)] r0(2)
      by (auto simp: stmtFunctionExistsByHash_def rows_defs list_ex_iff)
  next
    case (2 e)
    then show ?thesis using r0(2) by simp
  qed
qed

lemma sql_create_runner:
  assumes "sleep_ok sleep" and "db_inv t" and "SQLiteCreateRunner sleep sqlQueries a t = (t', res)"
  shows "db_inv t' \<and> funsOf t' = funsOf t \<and>
    (case res of
       Inl e \<Rightarrow> db_error e \<and> runnsOf t' = runnsOf t
     | Inr r \<Rightarrow> Addr r = a \<and> runnsOf t' = insert r (runnsOf t))"
proof -
  have w: "wrapErr ''failed create runner by addr: %w'' (WithRetry sleep (attempt (stmtCreateRunner a)) t) = (t', res)"
    using assms(3) by (simp add: SQLiteCreateRunner_def sqlQueries_def)
  show ?thesis
  proof (cases rule: retried_cases[OF assms(1) stmts_clean(5) assms(2) w])
    case (1 r)
    then show ?thesis
      using db_inv_no_faults[OF assms(2)] assms(2) nextRowid_notin[of RunnerID "runnerRows t"]
      by (auto simp: stmtCreateRunner_def Let_def rows_defs db_inv_def find_None_iff find_Some_iff
          split: option.splits)
  next
    case (2 e)
    then show ?thesis by (simp add: rows_defs)
  qed
qed

lemma sql_runner_by_addr:
  assumes "sleep_ok sleep" and "db_inv t" and "SQLiteRunnerByAddr sleep sqlQueries a t = (t', res)"
  shows "db_inv t' \<and> same_rows funsOf runnsOf t t' \<and>
    (case res of
       Inl e \<Rightarrow> db_error e \<or> errors_Is e ErrNoRows \<and> (\<forall>r \<in> runnsOf t. Addr r \<noteq> a)
     | Inr r \<Rightarrow> r \<in> runnsOf t \<and> Addr r = a)"
proof -
  have w: "wrapErr ''failed to get runner by addr: %w'' (WithRetry sleep (attempt (stmtRunnerByAddr a)) t) = (t', res)"
    using assms(3) by (simp add: SQLiteRunnerByAddr_def sqlQueries_def)
  show ?thesis
  proof (cases rule: retried_cases[OF assms(1) stmts_clean(4) assms(2) w])
    case (1 r)
    then show ?thesis
      using db_inv_no_faults[OF assms(2)]
      by (auto simp: stmtRunnerByAddr_def one_def rows_defs find_None_iff find_Some_iff
          split: option.splits)
  next
    case (2 e)
    then show ?thesis by simp
  qed
qed

lemma sql_all_runners:
  assumes "sleep_ok sleep" and "db_inv t" and "SQLiteGetAllRunners sleep sqlQueries t = (t', res)"
  shows "db_inv t' \<and> same_rows funsOf runnsOf t t' \<and>
    (case res of
       Inl e \<Rightarrow> db_error e
     | Inr rs \<Rightarrow> set rs = runnsOf t \<and> distinct (map Addr rs) \<and> sorted (map RunnerID rs))"
proof -
  have w: "wrapErr ''failed to get all runners: %w'' (WithRetry sleep (attempt stmtGetAllRunners) t) = (t', res)"
    using assms(3) by (simp add: SQLiteGetAllRunners_def sqlQueries_def)
  show ?thesis
  proof (cases rule: retried_cases[OF assms(1) stmts_clean(6) assms(2) w])
    case (1 r)
    have "distinct (map Addr (sort_key RunnerID (runnerRows t)))"
      using assms(2) by (auto simp: db_inv_def distinct_map)
    with 1 show ?thesis
      using db_inv_no_faults[OF assms(2)] by (auto simp: stmtGetAllRunners_def rows_defs)
  next
    case (2 e)
    then show ?thesis by simp
  qed
qed

lemma distinct_map_eq: "distinct (map g xs) \<Longrightarrow> x \<in> set xs \<Longrightarrow> y \<in> set xs \<Longrightarrow> g x = g y \<Longrightarrow> x = y"
  by (auto simp: distinct_map dest: inj_onD)

lemma sqlite_commander_db:
  assumes "sleep_ok sleep"
  shows "commander_db (SQLiteCommanderDB sleep sqlQueries) db_inv funsOf runnsOf"
proof (unfold_locales, goal_cases)
  case (1 w f g)
  then show ?case
    using distinct_map_eq[of ID "functionRows w" f g] distinct_map_eq[of Hash "functionRows w" f g]
    by (auto simp: db_inv_def rows_defs)
next
  case (2 w r r')
  then show ?case
    using distinct_map_eq[of RunnerID "runnerRows w" r r'] distinct_map_eq[of Addr "runnerRows w" r r']
    by (auto simp: db_inv_def rows_defs)
next
  case (3 w p n h w' res)
  then show ?case using sql_create_function[OF assms, of w p n h w' res] by (simp add: SQLiteCommanderDB_def)
next
  case (4 w i w' res)
  then show ?case using sql_function_by_id[OF assms, of w i w' res] by (simp add: SQLiteCommanderDB_def)
next
  case (5 w h w' res)
  then show ?case using sql_exists_by_hash[OF assms, of w h w' res] by (simp add: SQLiteCommanderDB_def)
next
  case (6 w a w' res)
  then show ?case using sql_create_runner[OF assms, of w a w' res] by (simp add: SQLiteCommanderDB_def)
next
  case (7 w a w' res)
  then show ?case using sql_runner_by_addr[OF assms, of w a w' res] by (simp add: SQLiteCommanderDB_def)
next
  case (8 w w' res)
  then show ?case using sql_all_runners[OF assms, of w w' res] by (simp add: SQLiteCommanderDB_def)
qed

interpretation sqlite: commander_db "SQLiteCommanderDB neverDone sqlQueries" db_inv funsOf runnsOf
  by (rule sqlite_commander_db[OF sleep_ok_neverDone])

section \<open>Properties\<close>

text \<open>
  a database call terminates for every statement, at most twenty attempts are made, and at least
  one is.
\<close>

lemma WithRetry_at_most_twenty:
  "fst (fst (WithRetry (countedSleep sleep) (counted f) (0, w))) \<in> {1 .. 20}"
  using WithRetryLoop_counted[of 1 sleep f 0 w] by (simp add: WithRetry_def MaxRetries_def)

text \<open>
  C35: what a database call does against a database that fails its first attempts, exactly: fewer than
  twenty locked or busy errors are absorbed and the statement takes effect once; the first other error
  is returned at once; twenty busy errors give up, with nothing changed.
\<close>

theorem WithRetry_exact:
  assumes "stmt_clean stmt"
  shows "WithRetry neverDone (attempt stmt) (t\<lparr>dbFaults := es\<rparr>) =
    (let n = length (takeWhile busy es)
     in if 20 \<le> n then (t\<lparr>dbFaults := drop 20 es\<rparr>, Inl (gaveUp (es ! 19)))
        else if n < length es then (t\<lparr>dbFaults := drop (n + 1) es\<rparr>, Inl (es ! n))
        else stmt (t\<lparr>dbFaults := []\<rparr>))"
proof -
  have "MaxRetries - 1 + 1 = 20" "MaxRetries - 1 = 19" "1 \<le> MaxRetries" by (simp_all add: MaxRetries_def)
  with script_exact[OF assms, of 1 es t] show ?thesis by (simp only: WithRetry_def)
qed

theorem WithRetry_exact_witness:
  "WithRetry neverDone (attempt (stmtCreateRunner ''a'')) (emptyTables\<lparr>dbFaults := replicate 19 (ErrSqlite 5)\<rparr>) =
    (emptyTables\<lparr>runnerRows := [\<lparr>RunnerID = 1, Addr = ''a''\<rparr>]\<rparr>, Inr \<lparr>RunnerID = 1, Addr = ''a''\<rparr>)"
  unfolding WithRetry_exact[OF stmts_clean(5)] by code_simp

text \<open>
  the database keeps one row per binary and one row per runner address: every operation, failed
  or not, keeps ids, hashes and addresses unique; a function is created only when its hash is new, and
  registering a runner again returns the row it already has.
\<close>

lemma sqlite_db_contract:
  assumes "sleep_ok sleep" and "db_inv t"
  defines "db \<equiv> SQLiteCommanderDB sleep sqlQueries"
  shows "(\<forall>p n h t' res. dbCreateFunction db p n h t = (t', res) \<longrightarrow>
      db_inv t' \<and> runnsOf t' = runnsOf t \<and>
      (case res of
         Inl e \<Rightarrow> funsOf t' = funsOf t
       | Inr f \<Rightarrow> funsOf t' = insert f (funsOf t) \<and> (\<forall>g \<in> funsOf t. Hash g \<noteq> h \<and> ID g \<noteq> ID f))) \<and>
    (\<forall>a t' res. dbCreateRunner db a t = (t', res) \<longrightarrow>
      db_inv t' \<and> funsOf t' = funsOf t \<and>
      (case res of
         Inl e \<Rightarrow> runnsOf t' = runnsOf t
       | Inr r \<Rightarrow> runnsOf t' = insert r (runnsOf t) \<and> (\<forall>r' \<in> runnsOf t. Addr r' = a \<longrightarrow> r = r')))"
proof -
  note L = sqlite_commander_db[OF assms(1)]
  have 1: "db_inv t' \<and> runnsOf t' = runnsOf t \<and>
      (case res of
         Inl e \<Rightarrow> funsOf t' = funsOf t
       | Inr f \<Rightarrow> funsOf t' = insert f (funsOf t) \<and> (\<forall>g \<in> funsOf t. Hash g \<noteq> h \<and> ID g \<noteq> ID f))"
    if "dbCreateFunction db p n h t = (t', res)" for p n h t' res
    using commander_db.create_function[OF L assms(2) that[unfolded db_def]] by (auto split: sum.splits)
  have 2: "db_inv t' \<and> funsOf t' = funsOf t \<and>
      (case res of
         Inl e \<Rightarrow> runnsOf t' = runnsOf t
       | Inr r \<Rightarrow> runnsOf t' = insert r (runnsOf t) \<and> (\<forall>r' \<in> runnsOf t. Addr r' = a \<longrightarrow> r = r'))"
    if "dbCreateRunner db a t = (t', res)" for a t' res
    using commander_db.create_runner[OF L assms(2) that[unfolded db_def]]
      commander_db.create_runner_again[OF L assms(2), of a t'] that[unfolded db_def]
    by (auto split: sum.splits)
  from 1 2 show ?thesis by blast
qed

end
