(* ===== verification/CommanderService.thy ===== *)
theory CommanderService
  imports CommanderDB FuncStorage Routing ServerHttp "HOL-Library.Multiset"
begin

text \<open>
  The service of the commander (\<open>pkg/commander/service.go\<close>) and its gRPC server (\<open>grpc.go\<close>).

  The service has a database, a function storage, a cache and a router; the state is theirs. The
  runners it talks to are other processes: \<open>RunnerNet\<close> gives their answers for the duration of a call.
  Durations that are only recorded come in as arguments.

  One round of heartbeats starts a goroutine per runner. Each goroutine performs one operation on the
  cache, which is atomic, so a schedule of the round is an order of the runners: \<open>sched\<close>.
\<close>

section \<open>State and collaborators\<close>

record HeartbeatResponse =
  QueueDepths :: "(string, uint32) fmap"
  hbCpuPercent :: "64 word"
  hbUnusedMemoryBytes :: uint64

record RunnerNet =
  CreateRunnerClient :: "string \<Rightarrow> goerr option"
  callHeartbeat :: "string \<Rightarrow> HeartbeatResponse option res"
  callPrepare :: "string \<Rightarrow> string \<Rightarrow> string \<Rightarrow> string res"

record ('w, 'c) CommanderState =
  dbS :: 'w
  cacheS :: 'c
  fsS :: FS

record ('w, 'c) CommanderService =
  db :: "'w CommanderDB"
  funcStorage :: FileSystemFunctionStorage
  cache :: "'c RoutingCache"
  router :: "string \<Rightarrow> 'c RoutingCache \<Rightarrow> 'c \<Rightarrow> Routing res"

definition NewCommanderService ::
  "'w CommanderDB \<Rightarrow> FileSystemFunctionStorage \<Rightarrow> 'c RoutingCache \<Rightarrow>
   (string \<Rightarrow> 'c RoutingCache \<Rightarrow> 'c \<Rightarrow> Routing res) \<Rightarrow> goerr option \<Rightarrow> ('w, 'c) CommanderService res" where
  "NewCommanderService d fst0 c r metricsErr =
     (case metricsErr of
        Some err \<Rightarrow> Inl err
      | None \<Rightarrow> Inr \<lparr>db = d, funcStorage = fst0, cache = c, router = r\<rparr>)"

section \<open>Heartbeats\<close>

definition evictRunner ::
  "('w, 'c) CommanderService \<Rightarrow> string \<Rightarrow> ('w, 'c) CommanderState \<Rightarrow> ('w, 'c) CommanderState" where
  "evictRunner svc runnerAddr st = st\<lparr>cacheS := fst (rcRemoveRunner (cache svc) runnerAddr (cacheS st))\<rparr>"

definition pollRunnerHeartbeat ::
  "('w, 'c) CommanderService \<Rightarrow> RunnerNet \<Rightarrow> Runner \<Rightarrow> ('w, 'c) CommanderState \<Rightarrow> ('w, 'c) CommanderState" where
  "pollRunnerHeartbeat svc net runn st =
     (case CreateRunnerClient net (Addr runn) of
        Some err \<Rightarrow> evictRunner svc (Addr runn) st
      | None \<Rightarrow>
          (case callHeartbeat net (Addr runn) of
             Inl err \<Rightarrow> evictRunner svc (Addr runn) st
           | Inr None \<Rightarrow> evictRunner svc (Addr runn) st
           | Inr (Some resp) \<Rightarrow>
               (let metrics = \<lparr>CpuPercent = hbCpuPercent resp, UnusedMemoryBytes = hbUnusedMemoryBytes resp\<rparr>
                in st\<lparr>cacheS := fst (rcUpsertRunnerHeartbeat (cache svc) (Addr runn) (QueueDepths resp)
                                       metrics (cacheS st))\<rparr>)))"

definition PollRunnerHeartbeats ::
  "(Runner list \<Rightarrow> Runner list) \<Rightarrow> ('w, 'c) CommanderService \<Rightarrow> RunnerNet \<Rightarrow>
   ('w, 'c) CommanderState \<Rightarrow> ('w, 'c) CommanderState \<times> goerr option" where
  "PollRunnerHeartbeats sched svc net st =
     (case dbGetAllRunners (db svc) (dbS st) of
        (w, Inl err) \<Rightarrow> (st\<lparr>dbS := w\<rparr>, Some (wrapf ''querying runners failed: %w'' [] err))
      | (w, Inr runns) \<Rightarrow>
          (fold (pollRunnerHeartbeat svc net) (sched runns) (st\<lparr>dbS := w\<rparr>), None))"

section \<open>Functions\<close>

record ApiFunction =
  apiId :: int
  apiName :: string

definition modCreateFunctionMeta :: "(CreateFunctionMeta \<Rightarrow> CreateFunctionMeta) \<Rightarrow> 'e Ctx \<Rightarrow> 'e Ctx" where
  "modCreateFunctionMeta f ctx = ctx\<lparr>createFunctionSlot := slotMod f (createFunctionSlot ctx)\<rparr>"

text \<open>The reader is what \<open>io.ReadAll\<close> gives of it.\<close>

definition svcCreateFunction ::
  "(bytes \<Rightarrow> bytes) \<Rightarrow> ('w, 'c) CommanderService \<Rightarrow> string \<Rightarrow> bytes res \<Rightarrow> 'e Ctx \<Rightarrow>
   ('w, 'c) CommanderState \<Rightarrow> ('e Ctx \<times> ('w, 'c) CommanderState \<times> ApiFunction res) outcome" where
  "svcCreateFunction sha256 svc funcName funcBytesReader ctx st =
     assertThat (GetCreateFunctionMeta ctx \<noteq> None) ''meta was nil''
      (let ctx1 = modCreateFunctionMeta (cfFunctionName_update (\<lambda>_. funcName)) ctx
       in Returns
         (case funcBytesReader of
            Inl err \<Rightarrow> (ctx1, st, Inl (wrapf ''reading function bytes failed: %w'' [] err))
          | Inr funcBytes \<Rightarrow>
              (let hash = BytesSha256 sha256 funcBytes;
                   ctx2 = modCreateFunctionMeta (\<lambda>m. m\<lparr>cfFunctionBytes := int (length funcBytes),
                                                        cfFunctionHash := hexX hash\<rparr>) ctx1
               in case dbFunctionExistsByHash (db svc) hash (dbS st) of
                    (w1, Inl err) \<Rightarrow>
                      (ctx2, st\<lparr>dbS := w1\<rparr>,
                       Inl (wrapf ''check for function with hash '%X' failed: %w'' [hexX hash] err))
                  | (w1, Inr exists) \<Rightarrow>
                      (if exists
                       then (modCreateFunctionMeta (cfFunctionAlreadyExists_update (\<lambda>_. True)) ctx2,
                             st\<lparr>dbS := w1\<rparr>, Inl ErrFunctionExists)
                       else
                         (case Save (funcStorage svc) funcName hash funcBytes (fsS st) of
                            (fs1, Inl err) \<Rightarrow>
                              (ctx2, st\<lparr>dbS := w1, fsS := fs1\<rparr>,
                               Inl (wrapf ''failed to save function binary to storage: %w'' [] err))
                          | (fs1, Inr funcPath) \<Rightarrow>
                              (let ctx3 = modCreateFunctionMeta (cfFunctionPath_update (\<lambda>_. funcPath)) ctx2
                               in case dbCreateFunction (db svc) funcPath funcName hash w1 of
                                    (w2, Inl err) \<Rightarrow>
                                      (ctx3, st\<lparr>dbS := w2, fsS := fs1\<rparr>,
                                       Inl (wrapf ''persisting new function failed: %w'' [] err))
                                  | (w2, Inr newFunc) \<Rightarrow>
                                      (modCreateFunctionMeta (cfFunctionID_update (\<lambda>_. ID newFunc)) ctx3,
                                       st\<lparr>dbS := w2, fsS := fs1\<rparr>,
                                       Inr \<lparr>apiId = ID newFunc, apiName = Name newFunc\<rparr>)))))))"

definition svcFunctionByID ::
  "('w, 'c) CommanderService \<Rightarrow> int \<Rightarrow> ('w, 'c) CommanderState \<Rightarrow> ('w, 'c) CommanderState \<times> Function res" where
  "svcFunctionByID svc i st =
     (case dbFunctionByID (db svc) i (dbS st) of
        (w, Inl err) \<Rightarrow>
          (st\<lparr>dbS := w\<rparr>,
           Inl (if errors_Is err ErrNoRows then ErrFunctionNotFound
                else wrapf ''querying function by id failed: %w'' [] err))
      | (w, Inr f) \<Rightarrow> (st\<lparr>dbS := w\<rparr>, Inr f))"

section \<open>Runners\<close>

definition modRegisterRunnerMeta :: "(RegisterRunnerMeta \<Rightarrow> RegisterRunnerMeta) \<Rightarrow> 'e Ctx \<Rightarrow> 'e Ctx" where
  "modRegisterRunnerMeta f ctx = ctx\<lparr>registerRunnerSlot := slotMod f (registerRunnerSlot ctx)\<rparr>"

text \<open>\<open>took\<close> is the measured time of the heartbeat and of the insertion.\<close>

definition persistNewRunner ::
  "('w, 'c) CommanderService \<Rightarrow> RunnerNet \<Rightarrow> int \<times> int \<Rightarrow> string \<Rightarrow> 'e Ctx \<Rightarrow>
   ('w, 'c) CommanderState \<Rightarrow> ('e Ctx \<times> ('w, 'c) CommanderState \<times> Runner res) outcome" where
  "persistNewRunner svc net took addr ctx st =
     assertThat (GetRegisterRunnerMeta ctx \<noteq> None) ''meta was nil''
      (let ctx1 = modRegisterRunnerMeta (rrRunnerAddr_update (\<lambda>_. addr)) ctx
       in Returns
         (case CreateRunnerClient net addr of
            Some err \<Rightarrow> (ctx1, st, Inl (wrapf ''initializing runner at %q failed: %w'' [addr] err))
          | None \<Rightarrow>
              (let ctx2 = modRegisterRunnerMeta (rrHeartbeatTook_update (\<lambda>_. fst took)) ctx1
               in case callHeartbeat net addr of
                    Inl err \<Rightarrow> (ctx2, st, Inl (wrapf ''runner at %q heartbeat failed: %w'' [addr] err))
                  | Inr _ \<Rightarrow>
                      (let ctx3 = modRegisterRunnerMeta (\<lambda>m. m\<lparr>rrRunnerHeartbeatOK := True,
                                                               rrPersistTook := snd took\<rparr>) ctx2
                       in case dbCreateRunner (db svc) addr (dbS st) of
                            (w, Inl err) \<Rightarrow>
                              (ctx3, st\<lparr>dbS := w\<rparr>, Inl (wrapf ''failed to save runner at %q: %w'' [addr] err))
                          | (w, Inr runn) \<Rightarrow>
                              (modRegisterRunnerMeta (rrRunnerID_update (\<lambda>_. RunnerID runn)) ctx3,
                               st\<lparr>dbS := w\<rparr>, Inr runn)))))"

definition svcRegisterRunner ::
  "('w, 'c) CommanderService \<Rightarrow> RunnerNet \<Rightarrow> int \<times> int \<Rightarrow> string \<Rightarrow> 'e Ctx \<Rightarrow>
   ('w, 'c) CommanderState \<Rightarrow> ('e Ctx \<times> ('w, 'c) CommanderState \<times> Runner res) outcome" where
  "svcRegisterRunner svc net took addr ctx st =
     assertThat (GetRegisterRunnerMeta ctx \<noteq> None) ''meta was nil''
      (let ctx1 = modRegisterRunnerMeta (rrRunnerAddr_update (\<lambda>_. addr)) ctx
       in case dbRunnerByAddr (db svc) addr (dbS st) of
            (w, Inl err) \<Rightarrow>
              (if errors_Is err ErrNoRows then persistNewRunner svc net took addr ctx1 (st\<lparr>dbS := w\<rparr>)
               else Returns (ctx1, st\<lparr>dbS := w\<rparr>, Inl (wrapf ''querying runner by addr failed: %w'' [] err)))
          | (w, Inr run) \<Rightarrow>
              Returns (modRegisterRunnerMeta (\<lambda>m. m\<lparr>rrRunnerID := RunnerID run, rrPreexistingRunner := True\<rparr>) ctx1,
                       st\<lparr>dbS := w\<rparr>, Inr run))"

section \<open>Routing\<close>

definition prepareInstance ::
  "('w, 'c) CommanderService \<Rightarrow> RunnerNet \<Rightarrow> string \<Rightarrow> string \<Rightarrow> ('w, 'c) CommanderState \<Rightarrow>
   ('w, 'c) CommanderState \<times> Routing res" where
  "prepareInstance svc net functionId runnerAddr st =
     (case strconv_ParseInt functionId of
        Inl err \<Rightarrow> (st, Inl (wrapf ''failed to convert functionId %q to int: %w'' [functionId] err))
      | Inr funcId \<Rightarrow>
          (case dbFunctionByID (db svc) funcId (dbS st) of
             (w, Inl err) \<Rightarrow>
               (st\<lparr>dbS := w\<rparr>,
                Inl (if errors_Is err ErrNoRows then ErrFunctionNotFound
                     else wrapf ''failed to read function by id %q: %w'' [functionId] err))
           | (w, Inr function) \<Rightarrow>
               (case CreateRunnerClient net runnerAddr of
                  Some err \<Rightarrow> (st\<lparr>dbS := w\<rparr>, Inl (wrapf ''failed to construct runner client: %w'' [] err))
                | None \<Rightarrow>
                    (case callPrepare net runnerAddr functionId (Path function) of
                       Inl err \<Rightarrow> (st\<lparr>dbS := w\<rparr>, Inl (wrapf ''prepare instance call failed: %w'' [] err))
                     | Inr instanceId \<Rightarrow>
                         (case rcSetInstance (cache svc) functionId instanceId runnerAddr 0 (cacheS st) of
                            (c, Some err) \<Rightarrow>
                              (st\<lparr>dbS := w, cacheS := c\<rparr>,
                               Inl (wrapf ''updating routing cache after prepare failed: %w'' [] err))
                          | (c, None) \<Rightarrow>
                              (st\<lparr>dbS := w, cacheS := c\<rparr>,
                               Inr \<lparr>RunnerAddr = runnerAddr, InstanceId = instanceId\<rparr>))))))"

definition modRouteFunctionMeta :: "(RouteFunctionMeta \<Rightarrow> RouteFunctionMeta) \<Rightarrow> 'e Ctx \<Rightarrow> 'e Ctx" where
  "modRouteFunctionMeta f ctx = ctx\<lparr>routeFunctionSlot := slotMod f (routeFunctionSlot ctx)\<rparr>"

text \<open>The routing that an erroneous call returns beside its error is the zero value.\<close>

definition routingOf :: "Routing res \<Rightarrow> Routing" where
  "routingOf r = (case r of Inl _ \<Rightarrow> \<lparr>RunnerAddr = [], InstanceId = []\<rparr> | Inr ro \<Rightarrow> ro)"

definition recordRouting :: "Routing \<Rightarrow> RouteFunctionMeta \<Rightarrow> RouteFunctionMeta" where
  "recordRouting ro m = m\<lparr>rfRunnerAddr := RunnerAddr ro, rfInstanceID := InstanceId ro\<rparr>"

definition svcRouteFunction ::
  "('w, 'c) CommanderService \<Rightarrow> RunnerNet \<Rightarrow> int \<Rightarrow> string \<Rightarrow> 'e Ctx \<Rightarrow>
   ('w, 'c) CommanderState \<Rightarrow> ('e Ctx \<times> ('w, 'c) CommanderState \<times> Routing res) outcome" where
  "svcRouteFunction svc net prepareTook functionId ctx st =
     assertThat (GetRouteFunctionMeta ctx \<noteq> None) ''meta was nil''
      (Returns
        (case router svc functionId (cache svc) (cacheS st) of
           Inl err \<Rightarrow>
             (if errors_Is err ErrNoRows then (ctx, st, Inl ErrFunctionNotFound)
              else (case errors_AsPrepareInstance err of
                      Some (fid, addr) \<Rightarrow>
                        (let (st', r) = prepareInstance svc net fid addr st
                         in (modRouteFunctionMeta (recordRouting (routingOf r) \<circ>
                               (\<lambda>m. m\<lparr>rfPreparedInstance := True, rfPrepareTook := prepareTook\<rparr>)) ctx, st', r))
                    | None \<Rightarrow> (ctx, st, Inl (wrapf ''router failed: %w'' [] err))))
         | Inr ro \<Rightarrow>
             (modRouteFunctionMeta (recordRouting ro \<circ> rfCacheHit_update (\<lambda>_. True)) ctx, st, Inr ro)))"

section \<open>The gRPC server\<close>

definition grpcHeartbeat :: "unit res" where
  "grpcHeartbeat = Inr ()"

definition zeroRegisterRunnerMeta :: RegisterRunnerMeta where
  "zeroRegisterRunnerMeta =
     \<lparr>rrRunnerAddr = [], rrRunnerID = 0, rrPreexistingRunner = False, rrRunnerHeartbeatOK = False,
      rrRegistrationTook = 0, rrHeartbeatTook = 0, rrPersistTook = 0\<rparr>"

definition zeroRouteFunctionMeta :: RouteFunctionMeta where
  "zeroRouteFunctionMeta =
     \<lparr>rfFunctionID = [], rfRunnerAddr = [], rfInstanceID = [], rfRouteTook = 0, rfCacheHit = False,
      rfPreparedInstance = False, rfPrepareTook = 0\<rparr>"

text \<open>\<open>registrationTook\<close> is measured on both ways out. The response is the id of the runner.\<close>

definition grpcRegisterRunner ::
  "('w, 'c) CommanderService \<Rightarrow> RunnerNet \<Rightarrow> int \<times> int \<Rightarrow> int \<Rightarrow> string \<Rightarrow> 'e Ctx \<Rightarrow>
   ('w, 'c) CommanderState \<Rightarrow> ('e Ctx \<times> ('w, 'c) CommanderState \<times> int res) outcome" where
  "grpcRegisterRunner svc net took registrationTook addr ctx st =
     (let ctx0 = SetRegisterRunnerMeta (zeroRegisterRunnerMeta\<lparr>rrRunnerAddr := addr\<rparr>) ctx
      in case svcRegisterRunner svc net took addr ctx0 st of
           Panics msg \<Rightarrow> Panics msg
         | Returns (ctx1, st1, res) \<Rightarrow>
             (let ctx2 = modRegisterRunnerMeta (rrRegistrationTook_update (\<lambda>_. registrationTook)) ctx1
              in case res of
                   Inl err \<Rightarrow> Returns (ctx2, st1, Inl (wrapf ''registering runner failed: %w'' [] err))
                 | Inr runn \<Rightarrow> Returns (ctx2, st1, Inr (RunnerID runn))))"

definition grpcRouteFunction ::
  "('w, 'c) CommanderService \<Rightarrow> RunnerNet \<Rightarrow> int \<Rightarrow> int \<Rightarrow> string \<Rightarrow> 'e Ctx \<Rightarrow>
   ('w, 'c) CommanderState \<Rightarrow> ('e Ctx \<times> ('w, 'c) CommanderState \<times> Routing res) outcome" where
  "grpcRouteFunction svc net prepareTook routeTook functionId ctx st =
     (let ctx0 = SetRouteFunctionMeta (zeroRouteFunctionMeta\<lparr>rfFunctionID := functionId\<rparr>) ctx
      in case svcRouteFunction svc net prepareTook functionId ctx0 st of
           Panics msg \<Rightarrow> Panics msg
         | Returns (ctx1, st1, res) \<Rightarrow>
             (let timed = modRouteFunctionMeta (rfRouteTook_update (\<lambda>_. routeTook))
              in case res of
                   Inl err \<Rightarrow>
                     Returns (timed ctx1, st1,
                       Inl (if errors_Is err ErrNoRunnerAvailable then ErrStatus ''Unavailable'' (ErrText err)
                            else if errors_Is err ErrFunctionNotFound then ErrStatus ''NotFound'' (ErrText err)
                            else wrapf ''routing failed: %w'' [] err))
                 | Inr ro \<Rightarrow> Returns (timed (modRouteFunctionMeta (recordRouting ro) ctx1), st1, Inr ro)))"

section \<open>A round of heartbeats, abstractly\<close>

text \<open>The answer of a runner, when it has one, and what it reports of an instance.\<close>

definition answered :: "RunnerNet \<Rightarrow> string \<Rightarrow> HeartbeatResponse option" where
  "answered net addr =
     (case CreateRunnerClient net addr of
        Some _ \<Rightarrow> None
      | None \<Rightarrow> (case callHeartbeat net addr of Inr (Some resp) \<Rightarrow> Some resp | _ \<Rightarrow> None))"

definition reportOf :: "RunnerNet \<Rightarrow> string \<Rightarrow> string \<Rightarrow> uint32 option" where
  "reportOf net addr i = (case answered net addr of None \<Rightarrow> None | Some resp \<Rightarrow> fmlookup (QueueDepths resp) i)"

definition metricsOf :: "HeartbeatResponse \<Rightarrow> ResourceMetrics" where
  "metricsOf resp = \<lparr>CpuPercent = hbCpuPercent resp, UnusedMemoryBytes = hbUnusedMemoryBytes resp\<rparr>"

definition absPoll :: "RunnerNet \<Rightarrow> string \<Rightarrow> AbsCache \<Rightarrow> AbsCache" where
  "absPoll net addr a =
     (case answered net addr of
        None \<Rightarrow> absRemoveRunner addr a
      | Some resp \<Rightarrow> absUpsertRunnerHeartbeat addr (QueueDepths resp) (metricsOf resp) a)"

text \<open>Runners report only instances of their own: unknown ones or ones the cache has at that runner.\<close>

definition own_reports :: "RunnerNet \<Rightarrow> string set \<Rightarrow> AbsCache \<Rightarrow> bool" where
  "own_reports net R a \<longleftrightarrow>
     (\<forall>r \<in> R. \<forall>i. reportOf net r i \<noteq> None \<longrightarrow>
        absRunnerOf a i \<in> {None, Some r} \<and> (\<forall>r' \<in> R. reportOf net r' i \<noteq> None \<longrightarrow> r' = r))"

lemma assign_absPoll:
  "assign (absPoll net r a) i =
     (case reportOf net r i of
        Some d \<Rightarrow> Some (absFunctionOf a i, r, ucast d)
      | None \<Rightarrow> if absRunnerOf a i = Some r then None else assign a i)"
  by (auto simp: absPoll_def reportOf_def absRemoveRunner_def absUpsertRunnerHeartbeat_def split: option.splits)

lemma runners_absPoll:
  "runners (absPoll net r a) = (if answered net r = None then runners a - {r} else insert r (runners a))"
  by (auto simp: absPoll_def absRemoveRunner_def absUpsertRunnerHeartbeat_def split: option.splits)

lemma stats_absPoll: "stats (absPoll net r a) = (stats a)(r := map_option metricsOf (answered net r))"
  by (auto simp: absPoll_def absRemoveRunner_def absUpsertRunnerHeartbeat_def split: option.splits)

text \<open>What a whole round does: one answer per runner and instance, whatever the order.\<close>

lemma fold_absPoll_runners:
  assumes "distinct rs"
  shows "runners (fold (absPoll net) rs a) = (runners a - set rs) \<union> {r \<in> set rs. answered net r \<noteq> None}"
  using assms
proof (induction rs rule: rev_induct)
  case (snoc x rs)
  then have IH: "runners (fold (absPoll net) rs a) = (runners a - set rs) \<union> {r \<in> set rs. answered net r \<noteq> None}"
    and x: "x \<notin> set rs" by simp_all
  have "{r \<in> set (rs @ [x]). answered net r \<noteq> None} =
      {r \<in> set rs. answered net r \<noteq> None} \<union> (if answered net x = None then {} else {x})" by auto
  then show ?case using x unfolding fold_append fold_simps o_apply runners_absPoll IH by auto
qed simp

lemma fold_absPoll_stats:
  "stats (fold (absPoll net) rs a) r =
      (if r \<in> set rs then map_option metricsOf (answered net r) else stats a r)"
  by (induction rs arbitrary: a) (simp_all add: stats_absPoll)

lemma fold_absPoll_assign:
  assumes "distinct rs" and "own_reports net R a" and "set rs \<subseteq> R"
  shows "assign (fold (absPoll net) rs a) i =
    (case find (\<lambda>r. reportOf net r i \<noteq> None) rs of
       Some r \<Rightarrow> Some (absFunctionOf a i, r, ucast (the (reportOf net r i)))
     | None \<Rightarrow> if absRunnerOf a i \<in> Some ` set rs then None else assign a i)"
  using assms(1,3)
proof (induction rs rule: rev_induct)
  case (snoc x rs)
  let ?a = "fold (absPoll net) rs a"
  have own: "absRunnerOf a i \<in> {None, Some r} \<and> r' = r"
    if "r \<in> R" "r' \<in> R" "reportOf net r i \<noteq> None" "reportOf net r' i \<noteq> None" for r r'
    using assms(2) that by (auto simp: own_reports_def)
  have IH: "assign ?a i = (case find (\<lambda>r. reportOf net r i \<noteq> None) rs of
       Some r \<Rightarrow> Some (absFunctionOf a i, r, ucast (the (reportOf net r i)))
     | None \<Rightarrow> if absRunnerOf a i \<in> Some ` set rs then None else assign a i)"
    using snoc by simp
  have fnd: "find P (rs @ [x]) = (case find P rs of None \<Rightarrow> if P x then Some x else None | Some r \<Rightarrow> Some r)"
    for P :: "string \<Rightarrow> bool" by (induction rs) auto
  show ?case
  proof (cases "find (\<lambda>r. reportOf net r i \<noteq> None) rs")
    case None
    then have none: "reportOf net r i = None" if "r \<in> set rs" for r
      using that by (auto simp: find_None_iff)
    show ?thesis
    proof (cases "reportOf net x i")
      case rep: (Some d)
      then have "absRunnerOf a i \<in> {None, Some x}" using own[of x x] snoc.prems by auto
      then have "assign ?a i = assign a i" using IH None snoc.prems by (auto simp: absRunnerOf_def)
      then have "absFunctionOf ?a i = absFunctionOf a i" by (simp add: absFunctionOf_def)
      with rep None show ?thesis by (simp add: assign_absPoll fnd)
    next
      case nrep: None
      have "absRunnerOf ?a i = (if absRunnerOf a i \<in> Some ` set rs then None else absRunnerOf a i)"
        using IH None by (auto simp: absRunnerOf_def)
      with nrep None IH snoc.prems show ?thesis by (auto simp: assign_absPoll fnd)
    qed
  next
    case (Some r)
    then have r: "r \<in> set rs" "reportOf net r i \<noteq> None" by (auto simp: find_Some_iff)
    moreover have "r \<in> R" "x \<in> R" "x \<noteq> r" using r snoc.prems by auto
    ultimately have "reportOf net x i = None" using own[of r x] by blast
    moreover have "absRunnerOf ?a i = Some r" using IH Some by (simp add: absRunnerOf_def)
    ultimately show ?thesis using Some IH r snoc.prems by (auto simp: assign_absPoll fnd)
  qed
qed (simp add: split: option.splits)

text \<open>Two orders of the same runners end in the same abstract cache.\<close>

lemma fold_absPoll_order:
  assumes "distinct rs" and "distinct rs'" and "set rs = set rs'" and "own_reports net (set rs) a"
  shows "fold (absPoll net) rs a = fold (absPoll net) rs' a"
proof -
  have "find (\<lambda>r. reportOf net r i \<noteq> None) rs = find (\<lambda>r. reportOf net r i \<noteq> None) rs'" for i
  proof (cases "find (\<lambda>r. reportOf net r i \<noteq> None) rs")
    case None
    then show ?thesis using assms(3) by (metis find_None_iff)
  next
    case (Some r)
    then have r: "r \<in> set rs" "reportOf net r i \<noteq> None" by (auto simp: find_Some_iff)
    then have "find (\<lambda>r. reportOf net r i \<noteq> None) rs' \<noteq> None"
      unfolding find_None_iff assms(3) by blast
    then obtain r' where r': "find (\<lambda>r. reportOf net r i \<noteq> None) rs' = Some r'" by blast
    then have "r' \<in> set rs" "reportOf net r' i \<noteq> None" using assms(3) by (auto simp: find_Some_iff)
    then have "r' = r" using r assms(4) unfolding own_reports_def by blast
    then show ?thesis using r' Some by simp
  qed
  then have "assign (fold (absPoll net) rs a) = assign (fold (absPoll net) rs' a)"
    using fold_absPoll_assign[OF assms(1,4)] fold_absPoll_assign[OF assms(2,4)] assms(3)
    by (simp add: fun_eq_iff)
  moreover have "runners (fold (absPoll net) rs a) = runners (fold (absPoll net) rs' a)"
    "stats (fold (absPoll net) rs a) = stats (fold (absPoll net) rs' a)"
    by (simp_all add: fold_absPoll_runners[OF assms(1)] fold_absPoll_runners[OF assms(2)] assms(3)
        fold_absPoll_stats fun_eq_iff)
  ultimately show ?thesis by (simp add: AbsCache.equality)
qed

section \<open>The commander over the contracts of its parts\<close>

text \<open>
  The database and the cache are used through their contracts. The router promises that an existing
  routing is one of the cache, that it asks for a new instance only of the requested function and on a
  known runner, and that its only other error says that no runner is available.
\<close>

locale commander =
  D: commander_db "db svc" dinv funs runns + C: routing_cache "cache svc" cinv absn
  for svc :: "('w, 'c) CommanderService" and dinv funs runns cinv absn +
  assumes route_found: "cinv c \<Longrightarrow> router svc f (cache svc) c = Inr ro \<Longrightarrow>
      \<exists>q. assign (absn c) (InstanceId ro) = Some (Some f, RunnerAddr ro, q)"
    and route_failed: "cinv c \<Longrightarrow> router svc f (cache svc) c = Inl e \<Longrightarrow>
      e = ErrNoRunnerAvailable \<or> (\<exists>r \<in> runners (absn c). e = ErrPrepareInstance f r)"
begin

definition svc_inv :: "('w, 'c) CommanderState \<Rightarrow> bool" where
  "svc_inv st \<longleftrightarrow> dinv (dbS st) \<and> cinv (cacheS st)"

text \<open>Preparing an instance registers it in the cache, or leaves the cache as it was.\<close>

lemma prepareInstance_spec:
  assumes "svc_inv st" and "r \<in> runners (absn (cacheS st))" and "prepareInstance svc net f r st = (st', res)"
  shows "svc_inv st' \<and> fsS st' = fsS st \<and> same_rows funs runns (dbS st) (dbS st') \<and>
    (case res of
       Inl e \<Rightarrow> cacheS st' = cacheS st \<and> (e = ErrFunctionNotFound \<longrightarrow>
         (\<exists>n. strconv_ParseInt f = Inr n \<and> (\<forall>g \<in> funs (dbS st). ID g \<noteq> n)))
     | Inr ro \<Rightarrow> RunnerAddr ro = r \<and>
         absn (cacheS st') = absSetInstance f (InstanceId ro) r 0 (absn (cacheS st)) \<and>
         (\<exists>n. \<exists>g \<in> funs (dbS st). strconv_ParseInt f = Inr n \<and> ID g = n \<and>
            callPrepare net r f (Path g) = Inr (InstanceId ro)))"
proof (cases "strconv_ParseInt f")
  case (Inl err)
  with assms show ?thesis by (auto simp: prepareInstance_def same_rows_def)
next
  case (Inr n)
  then have f: "f \<noteq> ''''" by (auto simp: strconv_ParseInt_def parseInt_def)
  have inv: "dinv (dbS st)" "cinv (cacheS st)" using assms(1) by (simp_all add: svc_inv_def)
  have r: "r \<noteq> ''''" using C.named_runners[OF inv(2)] assms(2) by auto
  obtain w fres where w: "dbFunctionByID (db svc) n (dbS st) = (w, fres)" by fastforce
  note d = D.function_by_id[OF inv(1) w]
  show ?thesis
  proof (cases fres)
    case (Inl err)
    with assms d w Inr inv db_error_not_sentinel(1)[of err] show ?thesis
      by (auto simp: prepareInstance_def svc_inv_def split: if_splits)
  next
    case g: (Inr g)
    obtain pr where pr: "callPrepare net r f (Path g) = pr" by simp
    show ?thesis
    proof (cases "CreateRunnerClient net r = None \<and> (\<exists>i. pr = Inr i)")
      case False
      with assms d w Inr g pr inv show ?thesis
        by (auto simp: prepareInstance_def svc_inv_def split: option.splits sum.splits)
    next
      case True
      then obtain i where i: "pr = Inr i" by blast
      from C.write_instance[OF inv(2) f r, of i 0] obtain c where
        c: "rcSetInstance (cache svc) f i r 0 (cacheS st) = (c, None)" "cinv c"
          "absn c = absSetInstance f i r 0 (absn (cacheS st))" by blast
      with assms d w Inr g pr True i show ?thesis
        by (auto simp: prepareInstance_def svc_inv_def)
    qed
  qed
qed

end

context commander
begin

text \<open>Routing: the state stays consistent, no runner becomes known, and a routing it returns is in the cache afterwards.\<close>

lemma svcRouteFunction_spec:
  assumes "svc_inv st" and "svcRouteFunction svc net t f ctx st = Returns (ctx', st', res)"
  shows "svc_inv st' \<and> fsS st' = fsS st \<and> same_rows funs runns (dbS st) (dbS st') \<and>
    runners (absn (cacheS st')) = runners (absn (cacheS st)) \<and>
    (case res of
       Inl e \<Rightarrow> cacheS st' = cacheS st
     | Inr ro \<Rightarrow> \<exists>q. assign (absn (cacheS st')) (InstanceId ro) = Some (Some f, RunnerAddr ro, q))"
proof -
  have meta: "GetRouteFunctionMeta ctx \<noteq> None"
    using assms(2) by (cases "GetRouteFunctionMeta ctx") (simp_all add: svcRouteFunction_def)
  have c: "cinv (cacheS st)" using assms(1) by (simp add: svc_inv_def)
  show ?thesis
  proof (cases "router svc f (cache svc) (cacheS st)")
    case (Inr ro)
    with assms(2) meta have "st' = st" "res = Inr ro" by (auto simp: svcRouteFunction_def)
    with assms(1) route_found[OF c Inr] show ?thesis by (simp add: same_rows_def)
  next
    case (Inl e)
    from route_failed[OF c Inl] show ?thesis
    proof
      assume "e = ErrNoRunnerAvailable"
      with assms meta Inl show ?thesis by (auto simp: svcRouteFunction_def same_rows_def)
    next
      assume "\<exists>r \<in> runners (absn (cacheS st)). e = ErrPrepareInstance f r"
      then obtain r where r: "r \<in> runners (absn (cacheS st))" "e = ErrPrepareInstance f r" by blast
      obtain st1 r1 where p: "prepareInstance svc net f r st = (st1, r1)" by fastforce
      with assms(2) meta Inl r have "st' = st1" "res = r1"
        by (auto simp: svcRouteFunction_def Let_def)
      with prepareInstance_spec[OF assms(1) r(1) p] r(1) show ?thesis
        by (auto simp: absSetInstance_def insert_absorb split: sum.splits)
    qed
  qed
qed

text \<open>One goroutine of a heartbeat round, and the whole round.\<close>

lemma pollRunnerHeartbeat_spec:
  assumes "cinv (cacheS st)" and "Addr runn \<noteq> ''''"
  shows "cinv (cacheS (pollRunnerHeartbeat svc net runn st)) \<and>
    absn (cacheS (pollRunnerHeartbeat svc net runn st)) = absPoll net (Addr runn) (absn (cacheS st)) \<and>
    dbS (pollRunnerHeartbeat svc net runn st) = dbS st \<and> fsS (pollRunnerHeartbeat svc net runn st) = fsS st"
proof (cases "answered net (Addr runn)")
  case None
  then have "pollRunnerHeartbeat svc net runn st = evictRunner svc (Addr runn) st"
    by (auto simp: pollRunnerHeartbeat_def answered_def split: option.splits sum.splits)
  with C.write_remove[OF assms(1), of "Addr runn"] None show ?thesis
    by (auto simp: evictRunner_def absPoll_def)
next
  case (Some resp)
  then have "pollRunnerHeartbeat svc net runn st = st\<lparr>cacheS := fst (rcUpsertRunnerHeartbeat (cache svc)
      (Addr runn) (QueueDepths resp) (metricsOf resp) (cacheS st))\<rparr>"
    by (auto simp: pollRunnerHeartbeat_def answered_def metricsOf_def Let_def split: option.splits sum.splits)
  with C.write_heartbeat[OF assms, of "QueueDepths resp" "metricsOf resp"] Some show ?thesis
    by (auto simp: absPoll_def)
qed

lemma fold_poll_spec:
  assumes "cinv (cacheS st)" and "\<And>r. r \<in> set rs \<Longrightarrow> Addr r \<noteq> ''''"
  shows "cinv (cacheS (fold (pollRunnerHeartbeat svc net) rs st)) \<and>
    absn (cacheS (fold (pollRunnerHeartbeat svc net) rs st)) =
      fold (absPoll net) (map Addr rs) (absn (cacheS st)) \<and>
    dbS (fold (pollRunnerHeartbeat svc net) rs st) = dbS st \<and>
    fsS (fold (pollRunnerHeartbeat svc net) rs st) = fsS st"
  using assms
proof (induction rs arbitrary: st)
  case (Cons r rs)
  note p = pollRunnerHeartbeat_spec[OF Cons.prems(1), of r net]
  with Cons.prems Cons.IH[of "pollRunnerHeartbeat svc net r st"] show ?case by simp
qed simp

lemma PollRunnerHeartbeats_spec:
  assumes "svc_inv st" and "\<And>r. r \<in> runns (dbS st) \<Longrightarrow> Addr r \<noteq> ''''" and "\<And>rs. mset (sched rs) = mset rs"
    and "PollRunnerHeartbeats sched svc net st = (st', None)"
  obtains rs where "set rs = Addr ` runns (dbS st)" "distinct rs" "svc_inv st'" "fsS st' = fsS st"
    "absn (cacheS st') = fold (absPoll net) rs (absn (cacheS st))"
    "dbS st' = fst (dbGetAllRunners (db svc) (dbS st))"
proof -
  obtain w lres where w: "dbGetAllRunners (db svc) (dbS st) = (w, lres)" by fastforce
  with assms(4) obtain all where l: "lres = Inr all"
    by (cases lres) (auto simp: PollRunnerHeartbeats_def)
  have d: "dinv w" "set all = runns (dbS st)" "distinct (map Addr all)"
    using D.all_runners[of "dbS st" w lres] assms(1) w l by (auto simp: svc_inv_def)
  let ?rs = "sched all"
  have s: "set ?rs = set all" "mset (map Addr ?rs) = mset (map Addr all)"
    using assms(3)[of all] by (auto dest: mset_eq_setD)
  have "distinct (map Addr ?rs)" using d(3) mset_eq_imp_distinct_iff[OF s(2)] by simp
  moreover have st': "st' = fold (pollRunnerHeartbeat svc net) ?rs (st\<lparr>dbS := w\<rparr>)"
    using assms(4) w l by (simp add: PollRunnerHeartbeats_def)
  moreover have "cinv (cacheS (st\<lparr>dbS := w\<rparr>))" using assms(1) by (simp add: svc_inv_def)
  note fold_poll_spec[OF this, of ?rs net] 
  ultimately show ?thesis
    using w l d(1,2) s(1) assms(2) by (intro that[of "map Addr ?rs"]) (auto simp: svc_inv_def)
qed

end

section \<open>Uploaded functions\<close>

text \<open>A row whose binary is on disk, at the path of the row and with the hash of the row.\<close>

definition stored :: "(bytes \<Rightarrow> bytes) \<Rightarrow> string \<Rightarrow> FS \<Rightarrow> Function \<Rightarrow> bytes \<Rightarrow> bool" where
  "stored sha256 root fs f bs \<longleftrightarrow>
     Path f = filepath_Join [root, functionFilename (Name f) (Hash f)] \<and> Hash f = sha256 bs \<and>
     fmlookup (nodes fs) (Path f) = Some (File bs)"

definition storage_inv :: "(bytes \<Rightarrow> bytes) \<Rightarrow> string \<Rightarrow> FS \<Rightarrow> Function set \<Rightarrow> bool" where
  "storage_inv sha256 root fs F \<longleftrightarrow> (\<forall>f \<in> F. \<exists>bs. stored sha256 root fs f bs)"

text \<open>Saving a binary with a new hash does not touch the binaries that are there.\<close>

lemma Save_keeps_stored:
  assumes "stored sha256 (storageRoot s) fs f bs" and "Save s name h bs' fs = (fs', r)"
    and "length (Hash f) = length h" and "Hash f \<noteq> h"
  shows "stored sha256 (storageRoot s) fs' f bs"
proof -
  have "Path f \<noteq> filepath_Join [storageRoot s, functionFilename name h]"
    using assms(1) Join_filename_inject functionFilename_hash[OF assms(3)] assms(4)
    unfolding stored_def by metis
  from Save_frame[OF assms(2) this] assms(1) show ?thesis unfolding stored_def by metis
qed

context commander
begin

text \<open>The ways an upload ends.\<close>

lemma svcCreateFunction_spec:
  assumes "svc_inv st" and "svcCreateFunction sha256 svc name reader ctx st = Returns (ctx', st', res)"
  obtains (failed) e where "res = Inl e" "svc_inv st'" "same_rows funs runns (dbS st) (dbS st')"
      "cacheS st' = cacheS st" "\<exists>m as e'. e = wrapf m as e'"
      "fsS st' = fsS st \<or> (\<exists>bs r. reader = Inr bs \<and> (\<forall>f \<in> funs (dbS st). Hash f \<noteq> sha256 bs) \<and>
         Save (funcStorage svc) name (sha256 bs) bs (fsS st) = (fsS st', r))"
  | (exists) bs f where "res = Inl ErrFunctionExists" "svc_inv st'" "same_rows funs runns (dbS st) (dbS st')"
      "cacheS st' = cacheS st" "fsS st' = fsS st" "reader = Inr bs" "f \<in> funs (dbS st)" "Hash f = sha256 bs"
  | (created) bs g where "res = Inr \<lparr>apiId = ID g, apiName = Name g\<rparr>" "svc_inv st'" "reader = Inr bs"
      "cacheS st' = cacheS st" "runns (dbS st') = runns (dbS st)" "funs (dbS st') = insert g (funs (dbS st))"
      "Name g = name" "Hash g = sha256 bs" "\<And>f. f \<in> funs (dbS st) \<Longrightarrow> Hash f \<noteq> sha256 bs \<and> ID f \<noteq> ID g"
      "Save (funcStorage svc) name (sha256 bs) bs (fsS st) = (fsS st', Inr (Path g))"
proof (cases reader)
  case (Inl err)
  with assms show ?thesis
    by (intro failed) (auto simp: svcCreateFunction_def Let_def same_rows_def assertThat_def split: if_splits)
next
  case (Inr bs)
  have inv: "dinv (dbS st)" "cinv (cacheS st)" using assms(1) by (simp_all add: svc_inv_def)
  have meta: "GetCreateFunctionMeta ctx \<noteq> None"
    using assms(2) by (auto simp: svcCreateFunction_def assertThat_def split: if_splits)
  note eq = assms(2)[unfolded svcCreateFunction_def Let_def BytesSha256_def Inr assertThat_def]
  obtain w1 ex where w1: "dbFunctionExistsByHash (db svc) (sha256 bs) (dbS st) = (w1, ex)" by fastforce
  note d1 = D.exists_by_hash[OF inv(1) w1]
  show ?thesis
  proof (cases ex)
    case (Inl err)
    with eq meta w1 d1 inv show ?thesis
      by (intro failed) (auto simp: svc_inv_def)
  next
    case ex: (Inr b)
    show ?thesis
    proof (cases b)
      case True
      then obtain f where "f \<in> funs (dbS st)" "Hash f = sha256 bs" using d1 ex by auto
      with True eq meta w1 d1 ex inv Inr show ?thesis by (intro exists[of bs f]) (auto simp: svc_inv_def)
    next
      case False
      then have new: "\<forall>f \<in> funs (dbS st). Hash f \<noteq> sha256 bs" using d1 ex by auto
      obtain fs1 sv where sv: "Save (funcStorage svc) name (sha256 bs) bs (fsS st) = (fs1, sv)" by fastforce
      show ?thesis
      proof (cases sv)
        case (Inl err)
        with Inl sv False eq meta w1 d1 ex inv Inr new \<open>reader = Inr bs\<close> show ?thesis
          by (intro failed) (auto simp: svc_inv_def)
      next
        case p: (Inr p)
        obtain w2 cr where w2: "dbCreateFunction (db svc) p name (sha256 bs) w1 = (w2, cr)" by fastforce
        have "dinv w1" "funs w1 = funs (dbS st)" "runns w1 = runns (dbS st)"
          using d1 by (simp_all add: same_rows_def)
        note d2 = D.create_function[OF this(1) w2] this(2,3)
        show ?thesis
        proof (cases cr)
          case (Inl err)
          with p sv False eq meta w1 w2 d1 d2 ex inv new \<open>reader = Inr bs\<close> show ?thesis
            by (intro failed) (auto simp: svc_inv_def same_rows_def)
        next
          case (Inr g)
          with p sv False eq meta w1 w2 d1 d2 ex inv new \<open>reader = Inr bs\<close> show ?thesis
            by (intro created[of g bs]) (auto simp: svc_inv_def)
        qed
      qed
    qed
  qed
qed

end

context commander
begin

text \<open>Every registered function has its binary on disk, and uploads keep it so.\<close>

lemma svcCreateFunction_storage:
  assumes "svc_inv st" and "svcCreateFunction sha256 svc name reader ctx st = Returns (ctx', st', res)"
    and "\<And>b. length (sha256 b) = 32"
    and "storage_inv sha256 (storageRoot (funcStorage svc)) (fsS st) (funs (dbS st))"
  shows "storage_inv sha256 (storageRoot (funcStorage svc)) (fsS st') (funs (dbS st'))"
proof -
  have len: "length (Hash f) = 32" if "f \<in> funs (dbS st)" for f
    using assms(3,4) that by (auto simp: storage_inv_def stored_def)
  have keep: "\<exists>bs. stored sha256 (storageRoot (funcStorage svc)) fs' f bs"
    if "f \<in> funs (dbS st)" "Hash f \<noteq> sha256 b" "Save (funcStorage svc) name (sha256 b) b (fsS st) = (fs', r)"
    for f b fs' r
    using assms(4) that len[OF that(1)] assms(3) Save_keeps_stored[OF _ that(3)]
    unfolding storage_inv_def by metis
  show ?thesis
  proof (cases rule: svcCreateFunction_spec[OF assms(1,2)])
    case (1 e)
    then have "funs (dbS st') = funs (dbS st)" by (simp add: same_rows_def)
    with 1(6) keep assms(4) show ?thesis unfolding storage_inv_def by metis
  next
    case (2 bs f)
    with assms(4) show ?thesis by (simp add: same_rows_def)
  next
    case (3 bs g)
    from Save_success[OF 3(10)] 3(7,8) have "stored sha256 (storageRoot (funcStorage svc)) (fsS st') g bs"
      by (simp add: stored_def)
    with 3(6,9,10) keep show ?thesis unfolding storage_inv_def by (metis insert_iff)
  qed
qed

text \<open>Registration: a known address keeps its row; a new one is persisted after it answered.\<close>

lemma svcRegisterRunner_spec:
  assumes "svc_inv st" and "svcRegisterRunner svc net took addr ctx st = Returns (ctx', st', res)"
  shows "svc_inv st' \<and> cacheS st' = cacheS st \<and> fsS st' = fsS st \<and> funs (dbS st') = funs (dbS st) \<and>
    (case res of
       Inl e \<Rightarrow> runns (dbS st') = runns (dbS st)
     | Inr r \<Rightarrow> Addr r = addr \<and> runns (dbS st') = insert r (runns (dbS st)) \<and>
         ((\<forall>r' \<in> runns (dbS st). Addr r' \<noteq> addr) \<longrightarrow>
            CreateRunnerClient net addr = None \<and> (\<exists>resp. callHeartbeat net addr = Inr resp)))"
proof -
  have inv: "dinv (dbS st)" "cinv (cacheS st)" using assms(1) by (simp_all add: svc_inv_def)
  have meta: "GetRegisterRunnerMeta ctx \<noteq> None"
    using assms(2) by (auto simp: svcRegisterRunner_def assertThat_def split: if_splits)
  obtain w rres where w: "dbRunnerByAddr (db svc) addr (dbS st) = (w, rres)" by fastforce
  note d = D.runner_by_addr[OF inv(1) w]
  show ?thesis
  proof (cases rres)
    case (Inr r)
    with assms(2) meta w have "st' = st\<lparr>dbS := w\<rparr>" "res = Inr r"
      by (auto simp: svcRegisterRunner_def Let_def assertThat_def)
    with d Inr inv show ?thesis by (auto simp: svc_inv_def same_rows_def)
  next
    case (Inl err)
    show ?thesis
    proof (cases "errors_Is err ErrNoRows")
      case False
      with assms(2) meta w Inl have "st' = st\<lparr>dbS := w\<rparr>" "\<exists>e. res = Inl e"
        by (auto simp: svcRegisterRunner_def Let_def assertThat_def)
      with d inv show ?thesis by (auto simp: svc_inv_def same_rows_def)
    next
      case True
      obtain w2 cr where w2: "dbCreateRunner (db svc) addr w = (w2, cr)" by fastforce
      have w1: "dinv w" "funs w = funs (dbS st)" "runns w = runns (dbS st)"
        using d by (simp_all add: same_rows_def)
      note d2 = D.create_runner[OF w1(1) w2]
      have p: "persistNewRunner svc net took addr
          (modRegisterRunnerMeta (rrRunnerAddr_update (\<lambda>_. addr)) ctx) (st\<lparr>dbS := w\<rparr>) = Returns (ctx', st', res)"
        using assms(2) meta w Inl True by (simp add: svcRegisterRunner_def Let_def)
      show ?thesis
      proof (cases "CreateRunnerClient net addr = None \<and> (\<exists>resp. callHeartbeat net addr = Inr resp)")
        case False
        with p have "st' = st\<lparr>dbS := w\<rparr>" "\<exists>e. res = Inl e"
          by (auto simp: persistNewRunner_def Let_def assertThat_def split: if_splits option.splits sum.splits)
        with w1 inv show ?thesis by (auto simp: svc_inv_def)
      next
        case ok: True
        with p w2 have "st' = st\<lparr>dbS := w2\<rparr>" "(\<exists>e. cr = Inl e \<and> (\<exists>e'. res = Inl e')) \<or> (\<exists>r. cr = Inr r \<and> res = Inr r)"
          by (auto simp: persistNewRunner_def Let_def assertThat_def split: if_splits sum.splits)
        with d2 w1 inv ok show ?thesis by (auto simp: svc_inv_def)
      qed
    qed
  qed
qed

end

section \<open>The commander of the program\<close>

text \<open>SQLite tables, the in-memory cache and the naive router meet the contracts.\<close>

definition programService ::
  "iterorder \<Rightarrow> Tables sleeper \<Rightarrow> NaiveRouter \<Rightarrow> FileSystemFunctionStorage \<Rightarrow> (Tables, InMemoryCache) CommanderService" where
  "programService ord sleep n s =
     \<lparr>db = SQLiteCommanderDB sleep sqlQueries, funcStorage = s, cache = inMemoryRoutingCache ord,
      router = Route ord n\<rparr>"

lemma program_commander:
  assumes "iter_order ord" and "sleep_ok sleep"
  shows "commander (programService ord sleep n s) db_inv funsOf runnsOf cache_inv abs_cache"
proof (rule commander.intro)
  note L = inMemory_routing_cache[OF assms(1)]
  show "commander_db (db (programService ord sleep n s)) db_inv funsOf runnsOf"
    by (simp add: programService_def sqlite_commander_db[OF assms(2)])
  show "routing_cache (cache (programService ord sleep n s)) cache_inv abs_cache"
    by (simp add: programService_def L)
  show "commander_axioms (programService ord sleep n s) cache_inv abs_cache"
  proof (rule commander_axioms.intro)
    fix c f ro
    assume inv: "cache_inv c"
      and eq: "router (programService ord sleep n s) f (cache (programService ord sleep n s)) c = Inr ro"
    show "\<exists>q. assign (abs_cache c) (InstanceId ro) = Some (Some f, RunnerAddr ro, q)"
      using eq by (cases rule: routing_cache.Route_cases[OF L assms(1) inv, of n f])
        (auto simp: programService_def)
  next
    fix c f e
    assume inv: "cache_inv c"
      and eq: "router (programService ord sleep n s) f (cache (programService ord sleep n s)) c = Inl e"
    show "e = ErrNoRunnerAvailable \<or> (\<exists>r \<in> runners (abs_cache c). e = ErrPrepareInstance f r)"
      using eq by (cases rule: routing_cache.Route_cases[OF L assms(1) inv, of n f])
        (auto simp: programService_def absRequestsOf_def split: if_splits)
  qed
qed

interpretation prog: commander
  "programService sorted_list_of_fset neverDone (NewNaiveRouter 5 50) \<lparr>storageRoot = ''/srv''\<rparr>"
  db_inv funsOf runnsOf cache_inv abs_cache
  by (rule program_commander[OF iter_order_sorted sleep_ok_neverDone])

section \<open>Properties\<close>

text \<open>What the abstract assignment means for the in-memory cache.\<close>

lemma assign_mem:
  assumes "cache_inv c" and "assign (abs_cache c) i = Some (Some f, r, q)"
  shows "RunnerAddressOfInstance i c = Inr r \<and> fmlookup (fmget fmempty (funcInstances c) f) i = Some q"
proof -
  have "fmlookup (instanceRunner c) i = Some r" using assms(2) by (auto simp: abs_cache_def)
  moreover have "absInstancesOf (abs_cache c) f i = Some q" using assms(2) by (simp add: absInstancesOf_def)
  ultimately show ?thesis by (simp add: RunnerAddressOfInstance_def mem_instances[OF assms(1), symmetric])
qed

lemma grpcRouteFunction_inner:
  assumes "grpcRouteFunction svc net pt rt f ctx st = Returns (ctx', st', res)"
  shows "\<exists>ctx1 res1. svcRouteFunction svc net pt f
      (SetRouteFunctionMeta (zeroRouteFunctionMeta\<lparr>rfFunctionID := f\<rparr>) ctx) st = Returns (ctx1, st', res1) \<and>
    (case res1 of Inl e \<Rightarrow> \<exists>e'. res = Inl e' | Inr ro \<Rightarrow> res = Inr ro)"
proof (cases "svcRouteFunction svc net pt f
    (SetRouteFunctionMeta (zeroRouteFunctionMeta\<lparr>rfFunctionID := f\<rparr>) ctx) st")
  case (Returns x)
  obtain ctx1 st1 res1 where x: "x = (ctx1, st1, res1)" by (cases x)
  show ?thesis using assms Returns x by (cases res1) (auto simp: grpcRouteFunction_def)
next
  case (Panics msg)
  with assms show ?thesis by (simp add: grpcRouteFunction_def)
qed

text \<open>
  C22: a routing that the commander hands out is backed by its cache. After \<open>RouteFunction\<close> answered
  with a runner and an instance, whether it found the instance or had it prepared, the cache resolves
  that instance to that runner and lists it for that function, so that the next request finds it; an
  error leaves the cache as it was; and neither database rows nor files change.
\<close>

theorem routed_instance_is_cached:
  assumes "iter_order ord" and "sleep_ok sleep" and "db_inv (dbS st)" and "cache_inv (cacheS st)"
    and "grpcRouteFunction (programService ord sleep n s) net pt rt f ctx st = Returns (ctx', st', res)"
  shows "db_inv (dbS st') \<and> cache_inv (cacheS st') \<and> fsS st' = fsS st \<and>
    same_rows funsOf runnsOf (dbS st) (dbS st') \<and>
    (case res of
       Inl e \<Rightarrow> cacheS st' = cacheS st
     | Inr ro \<Rightarrow> RunnerAddressOfInstance (InstanceId ro) (cacheS st') = Inr (RunnerAddr ro) \<and>
         (\<exists>q. fmlookup (fmget fmempty (funcInstances (cacheS st')) f) (InstanceId ro) = Some q))"
proof -
  note L = program_commander[OF assms(1,2), of n s]
  have inv: "commander.svc_inv db_inv cache_inv st" using assms(3,4) by (simp add: commander.svc_inv_def[OF L])
  obtain ctx1 res1 where
    r: "svcRouteFunction (programService ord sleep n s) net pt f
         (SetRouteFunctionMeta (zeroRouteFunctionMeta\<lparr>rfFunctionID := f\<rparr>) ctx) st = Returns (ctx1, st', res1)"
    "case res1 of Inl e \<Rightarrow> \<exists>e'. res = Inl e' | Inr ro \<Rightarrow> res = Inr ro"
    using grpcRouteFunction_inner[OF assms(5)] by blast
  note sp = commander.svcRouteFunction_spec[OF L inv r(1)]
  then have inv': "db_inv (dbS st')" "cache_inv (cacheS st')" by (simp_all add: commander.svc_inv_def[OF L])
  show ?thesis
  proof (cases res1)
    case (Inl e)
    with sp r(2) inv' show ?thesis by auto
  next
    case (Inr ro)
    with sp obtain q where "assign (abs_cache (cacheS st')) (InstanceId ro) = Some (Some f, RunnerAddr ro, q)" by auto
    from assign_mem[OF inv'(2) this] sp r(2) inv' Inr show ?thesis by simp
  qed
qed

definition example_net :: RunnerNet where
  "example_net = \<lparr>CreateRunnerClient = \<lambda>_. None,
     callHeartbeat = (\<lambda>a. if a = ''r1'' then Inr (Some \<lparr>QueueDepths = fmupd ''i1'' 2 fmempty, hbCpuPercent = 0,
        hbUnusedMemoryBytes = 1\<rparr>) else Inl (ErrExternal ''unreachable'')),
     callPrepare = (\<lambda>_ _ _. Inr ''i9'')\<rparr>"

definition example_tables :: Tables where
  "example_tables = \<lparr>functionRows = [\<lparr>ID = 1, Hash = [7], Name = ''f'', Path = ''/srv/f-07''\<rparr>],
     runnerRows = [\<lparr>RunnerID = 1, Addr = ''r1''\<rparr>, \<lparr>RunnerID = 2, Addr = ''r2''\<rparr>], dbFaults = [ErrSqlite 5]\<rparr>"

definition example_state :: "(Tables, InMemoryCache) CommanderState" where
  "example_state = \<lparr>dbS = example_tables,
     cacheS = run_cache sorted_list_of_fset [OpSetInstance ''2'' ''a'' ''r1'' 0, OpSetInstance ''2'' ''b'' ''r2'' 0],
     fsS = example_fs\<rparr>"

definition example_svc :: "(Tables, InMemoryCache) CommanderService" where
  "example_svc = programService sorted_list_of_fset neverDone (NewNaiveRouter 5 50) \<lparr>storageRoot = ''/srv''\<rparr>"

definition example_ctx :: "unit Ctx" where
  "example_ctx = emptyCtx\<lparr>routeFunctionSlot := Holder None, createFunctionSlot := Holder None,
     registerRunnerSlot := Holder None\<rparr>"

lemma example_invs: "db_inv (dbS example_state)" "cache_inv (cacheS example_state)"
  by (simp add: example_state_def example_tables_def db_inv_def)
    (simp add: example_state_def, rule run_cache_inv[OF iter_order_sorted], simp)

lemma example_grpcRoute:
  "(case grpcRouteFunction example_svc example_net 3 4 ''1'' example_ctx
      example_state of Returns (_, _, res) \<Rightarrow> res | Panics _ \<Rightarrow> Inl ErrContext) =
   Inr \<lparr>RunnerAddr = ''r1'', InstanceId = ''i9''\<rparr>"
  by code_simp

theorem routed_instance_is_cached_witness:
  "\<exists>st'. RunnerAddressOfInstance ''i9'' (cacheS st') = Inr ''r1'' \<and>
     (\<exists>ctx'. grpcRouteFunction example_svc example_net 3 4 ''1'' example_ctx
        example_state = Returns (ctx', st', Inr \<lparr>RunnerAddr = ''r1'', InstanceId = ''i9''\<rparr>))"
proof -
  obtain ctx' st' where g: "grpcRouteFunction example_svc example_net 3 4 ''1''
      example_ctx example_state =
      Returns (ctx', st', Inr \<lparr>RunnerAddr = ''r1'', InstanceId = ''i9''\<rparr>)"
    using example_grpcRoute by (auto split: outcome.splits prod.splits)
  from routed_instance_is_cached[OF iter_order_sorted sleep_ok_neverDone example_invs g[unfolded example_svc_def]]
  have "RunnerAddressOfInstance ''i9'' (cacheS st') = Inr ''r1''" by simp
  with g show ?thesis by blast
qed

end
