(* ===== verification/CommanderCorrect.thy ===== *)
theory CommanderCorrect
  imports CommanderService
begin

text \<open>
  What the commander of the program guarantees, with its SQLite database, its in-memory cache, its
  naive router and its storage directory: error codes of routing, uploads, registrations and heartbeat
  rounds. The proofs apply the lemmas of the locale \<open>commander\<close>.
\<close>

section \<open>Routing errors\<close>

lemma SQLiteFunctionByID_missing:
  assumes "dbFaults t = []" and "\<forall>f \<in> funsOf t. ID f \<noteq> i"
  shows "SQLiteFunctionByID sleep sqlQueries i t = (t, Inl (wrapf ''failed to get function by id: %w'' [] ErrNoRows))"
proof -
  have "find (\<lambda>f. ID f = i) (functionRows t) = None" using assms(2) by (auto simp: find_None_iff funsOf_def)
  then show ?thesis
    using script_done[OF stmts_clean(3)[of i] assms(1), of sleep 1]
    by (simp add: SQLiteFunctionByID_def sqlQueries_def WithRetry_def wrapErr_def stmtFunctionByID_def one_def)
qed

text \<open>
  C27: the status codes of \<open>RouteFunction\<close>: when the router has no runner the caller gets \<open>Unavailable\<close>;
  when an instance has to be prepared of a function that is not in the database the caller gets
  \<open>NotFound\<close>, and no runner is asked for an instance.
\<close>

theorem RouteFunction_status_codes:
  fixes ord sleep n s
  assumes "routeFunctionSlot ctx = Holder old"
  defines "svc \<equiv> programService ord sleep n s"
  shows "(Route ord n f (inMemoryRoutingCache ord) (cacheS st) = Inl ErrNoRunnerAvailable \<longrightarrow>
      (\<exists>ctx'. grpcRouteFunction svc net pt rt f ctx st =
        Returns (ctx', st, Inl (ErrStatus ''Unavailable''
          (ErrText (wrapf ''router failed: %w'' [] ErrNoRunnerAvailable)))))) \<and>
    (Route ord n f (inMemoryRoutingCache ord) (cacheS st) = Inl (ErrPrepareInstance f r) \<and>
      strconv_ParseInt f = Inr i \<and> dbFaults (dbS st) = [] \<and> (\<forall>g \<in> funsOf (dbS st). ID g \<noteq> i) \<longrightarrow>
      (\<exists>ctx'. grpcRouteFunction svc net pt rt f ctx st =
        Returns (ctx', st, Inl (ErrStatus ''NotFound'' (ErrText ErrFunctionNotFound)))))"
proof -
  have meta: "GetRouteFunctionMeta (SetRouteFunctionMeta m ctx) \<noteq> None" for m
    using assms(1) by (simp add: GetRouteFunctionMeta_def SetRouteFunctionMeta_def)
  have "prepareInstance svc net f r st = (st, Inl ErrFunctionNotFound)"
    if "strconv_ParseInt f = Inr i" "dbFaults (dbS st) = []" "\<forall>g \<in> funsOf (dbS st). ID g \<noteq> i"
    using that SQLiteFunctionByID_missing[OF that(2,3), of sleep]
    by (simp add: prepareInstance_def svc_def programService_def SQLiteCommanderDB_def)
  with meta show ?thesis
    by (auto simp: grpcRouteFunction_def svcRouteFunction_def svc_def programService_def Let_def)
qed

theorem RouteFunction_status_codes_witness:
  "\<exists>ctx'. grpcRouteFunction (programService sorted_list_of_fset neverDone (NewNaiveRouter 5 50) \<lparr>storageRoot = ''/srv''\<rparr>)
      example_net 3 4 ''1'' example_ctx (example_state\<lparr>cacheS := NewInMemoryCache\<rparr>) =
    Returns (ctx', example_state\<lparr>cacheS := NewInMemoryCache\<rparr>, Inl (ErrStatus ''Unavailable''
      (ErrText (wrapf ''router failed: %w'' [] ErrNoRunnerAvailable))))"
proof -
  have "routeFunctionSlot example_ctx = Holder None" by (simp add: example_ctx_def)
  moreover have "Route sorted_list_of_fset (NewNaiveRouter 5 50) ''1'' (inMemoryRoutingCache sorted_list_of_fset)
      (cacheS (example_state\<lparr>cacheS := NewInMemoryCache\<rparr>)) = Inl ErrNoRunnerAvailable"
    by code_simp
  ultimately show ?thesis using RouteFunction_status_codes by blast
qed

section \<open>Uploads\<close>

lemma upload_stores_binary_spec:
  assumes "iter_order ord" and "sleep_ok sleep" and "db_inv (dbS st)" and "cache_inv (cacheS st)"
    and "\<And>b. length (sha256 b) = 32" and "storage_inv sha256 (storageRoot s) (fsS st) (funsOf (dbS st))"
    and "svcCreateFunction sha256 (programService ord sleep n s) name (Inr bs) ctx st = Returns (ctx', st', res)"
  shows "db_inv (dbS st') \<and> storage_inv sha256 (storageRoot s) (fsS st') (funsOf (dbS st')) \<and>
    (case res of
       Inl e \<Rightarrow> funsOf (dbS st') = funsOf (dbS st)
     | Inr a \<Rightarrow> \<exists>g. funsOf (dbS st') = insert g (funsOf (dbS st)) \<and> g \<notin> funsOf (dbS st) \<and>
         ID g = apiId a \<and> Name g = name \<and> apiName a = name \<and> stored sha256 (storageRoot s) (fsS st') g bs)"
proof -
  let ?svc = "programService ord sleep n s"
  note L = program_commander[OF assms(1,2), of n s]
  have root: "funcStorage ?svc = s" by (simp add: programService_def)
  have inv: "commander.svc_inv db_inv cache_inv st" using assms(3,4) by (simp add: commander.svc_inv_def[OF L])
  have st: "storage_inv sha256 (storageRoot s) (fsS st') (funsOf (dbS st'))"
    using commander.svcCreateFunction_storage[OF L inv assms(7,5)] assms(6) unfolding root by blast
  show ?thesis
  proof (cases rule: commander.svcCreateFunction_spec[OF L inv assms(7)])
    case (1 e)
    with st show ?thesis by (simp add: commander.svc_inv_def[OF L] same_rows_def)
  next
    case (2 b f)
    with st show ?thesis by (simp add: commander.svc_inv_def[OF L] same_rows_def)
  next
    case (3 b g)
    then have "stored sha256 (storageRoot s) (fsS st') g bs" "g \<notin> funsOf (dbS st)"
      using Save_success[OF 3(10)] unfolding root stored_def by auto
    with 3 st show ?thesis by (simp add: commander.svc_inv_def[OF L]) blast
  qed
qed

text \<open>
  C23: every function the database knows has its binary on disk, at the path in its row and with the
  hash in its row; an upload keeps that true for all functions, whatever it is named and however it
  fails. A successful upload adds exactly one row, whose file holds the uploaded bytes.
\<close>

theorem upload_stores_binary:
  assumes "iter_order ord" and "sleep_ok sleep" and "db_inv (dbS st)" and "cache_inv (cacheS st)"
    and "\<And>b. length (sha256 b) = 32" and "storage_inv sha256 (storageRoot s) (fsS st) (funsOf (dbS st))"
    and "svcCreateFunction sha256 (programService ord sleep n s) name (Inr bs) ctx st = Returns (ctx', st', res)"
  shows "db_inv (dbS st') \<and> storage_inv sha256 (storageRoot s) (fsS st') (funsOf (dbS st')) \<and>
    (case res of
       Inl e \<Rightarrow> funsOf (dbS st') = funsOf (dbS st)
     | Inr a \<Rightarrow> \<exists>g. funsOf (dbS st') = insert g (funsOf (dbS st)) \<and> g \<notin> funsOf (dbS st) \<and>
         ID g = apiId a \<and> Name g = name \<and> apiName a = name \<and> stored sha256 (storageRoot s) (fsS st') g bs)"
  by (rule upload_stores_binary_spec[OF assms])

definition example_sha :: "bytes \<Rightarrow> bytes" where
  "example_sha b = replicate 32 (of_nat (length b))"

definition upload_state :: "(Tables, InMemoryCache) CommanderState" where
  "upload_state = \<lparr>dbS = emptyTables, cacheS = NewInMemoryCache, fsS = example_fs\<rparr>"

lemma upload_state_inv:
  "db_inv (dbS upload_state)" "cache_inv (cacheS upload_state)"
  "storage_inv example_sha root (fsS upload_state) (funsOf (dbS upload_state))"
  by (simp_all add: upload_state_def db_inv_def emptyTables_def NewInMemoryCache_inv storage_inv_def funsOf_def)

lemma example_upload:
  "case svcCreateFunction example_sha example_svc ''f.sh'' (Inr [1, 2, 3])
      (SetCreateFunctionMeta \<lparr>cfFunctionName = [], cfFunctionID = 0, cfFunctionBytes = 0, cfFunctionHash = [],
        cfFunctionPath = [], cfFunctionAlreadyExists = False\<rparr> example_ctx) upload_state of
     Returns (_, _, res) \<Rightarrow> res = Inr \<lparr>apiId = 1, apiName = ''f.sh''\<rparr> | Panics _ \<Rightarrow> False"
  by code_simp

theorem upload_stores_binary_witness:
  "\<exists>(st' :: (Tables, InMemoryCache) CommanderState) g. stored example_sha ''/srv'' (fsS st') g [1, 2, 3] \<and> funsOf (dbS st') = {g}"
proof -
  obtain ctx' st' where u: "svcCreateFunction example_sha example_svc ''f.sh'' (Inr [1, 2, 3])
      (SetCreateFunctionMeta \<lparr>cfFunctionName = [], cfFunctionID = 0, cfFunctionBytes = 0, cfFunctionHash = [],
        cfFunctionPath = [], cfFunctionAlreadyExists = False\<rparr> example_ctx) upload_state =
      Returns (ctx', st', Inr \<lparr>apiId = 1, apiName = ''f.sh''\<rparr>)"
    using example_upload by (auto split: outcome.splits prod.splits)
  have len: "length (example_sha b) = 32" for b by (simp add: example_sha_def)
  have f0: "funsOf (dbS upload_state) = {}" by (simp add: upload_state_def emptyTables_def funsOf_def)
  from upload_stores_binary[OF iter_order_sorted sleep_ok_neverDone upload_state_inv(1,2) len
      upload_state_inv(3) u[unfolded example_svc_def]] f0
  show ?thesis by auto
qed

text \<open>
  the same binary is stored once. When a function with the hash of the upload is known, the upload
  changes neither rows nor files and reports \<open>ErrFunctionExists\<close>, unless the database itself fails.
\<close>

lemma upload_same_binary_rejected:
  assumes "iter_order ord" and "sleep_ok sleep" and "db_inv (dbS st)" and "cache_inv (cacheS st)"
    and "f \<in> funsOf (dbS st)" and "Hash f = sha256 bs"
    and "svcCreateFunction sha256 (programService ord sleep n s) name (Inr bs) ctx st = Returns (ctx', st', res)"
  shows "funsOf (dbS st') = funsOf (dbS st) \<and> fsS st' = fsS st \<and>
    (res = Inl ErrFunctionExists \<or>
     (\<exists>e. res = Inl (wrapf ''check for function with hash '%X' failed: %w'' [hexX (sha256 bs)] e) \<and> db_error e))"
proof -
  let ?svc = "programService ord sleep n s"
  have db: "db ?svc = SQLiteCommanderDB sleep sqlQueries" by (simp add: programService_def)
  note L = program_commander[OF assms(1,2), of n s]
  obtain w1 ex where w1: "dbFunctionExistsByHash (db ?svc) (sha256 bs) (dbS st) = (w1, ex)" by fastforce
  from commander_db.exists_by_hash[OF sqlite_commander_db[OF assms(2)] assms(3), of "sha256 bs" w1 ex] w1
  have d: "same_rows funsOf runnsOf (dbS st) w1"
    "case ex of Inl e \<Rightarrow> db_error e | Inr b \<Rightarrow> b \<longleftrightarrow> (\<exists>f \<in> funsOf (dbS st). Hash f = sha256 bs)"
    unfolding db by auto
  have meta: "GetCreateFunctionMeta ctx \<noteq> None"
    using assms(7) by (auto simp: svcCreateFunction_def assertThat_def split: if_splits)
  note eq = assms(7)[unfolded svcCreateFunction_def Let_def BytesSha256_def assertThat_def]
  show ?thesis
  proof (cases ex)
    case (Inl e)
    with eq meta w1 d show ?thesis by (auto simp: same_rows_def)
  next
    case (Inr b)
    with d assms(5,6) have b by auto
    with Inr eq meta w1 d show ?thesis by (auto simp: same_rows_def)
  qed
qed

lemma example_reupload:
  "case svcCreateFunction (\<lambda>b. [7]) example_svc ''again'' (Inr [1, 2, 3])
      (SetCreateFunctionMeta \<lparr>cfFunctionName = [], cfFunctionID = 0, cfFunctionBytes = 0, cfFunctionHash = [],
        cfFunctionPath = [], cfFunctionAlreadyExists = False\<rparr> example_ctx) example_state of
     Returns (_, _, res) \<Rightarrow> res = Inl ErrFunctionExists | Panics _ \<Rightarrow> False"
  by code_simp

section \<open>Runners\<close>

text \<open>
  registration. A runner is persisted only after it answered a heartbeat at its address; a runner
  that registers again gets the id it already has and no second row; a failed registration leaves the
  table as it was; the cache is not touched, so a new runner gets work only after a heartbeat round.
\<close>

lemma register_runner_once:
  assumes "iter_order ord" and "sleep_ok sleep" and "db_inv (dbS st)" and "cache_inv (cacheS st)"
    and "svcRegisterRunner (programService ord sleep n s) net took addr ctx st = Returns (ctx', st', res)"
  shows "db_inv (dbS st') \<and> cacheS st' = cacheS st \<and> funsOf (dbS st') = funsOf (dbS st) \<and>
    (case res of
       Inl e \<Rightarrow> runnsOf (dbS st') = runnsOf (dbS st)
     | Inr r \<Rightarrow> Addr r = addr \<and> runnsOf (dbS st') = insert r (runnsOf (dbS st)) \<and>
         (\<forall>r' \<in> runnsOf (dbS st). Addr r' = addr \<longrightarrow> r = r') \<and>
         (r \<notin> runnsOf (dbS st) \<longrightarrow> (\<exists>resp. callHeartbeat net addr = Inr resp)))"
proof -
  note L = program_commander[OF assms(1,2), of n s]
  have inv: "commander.svc_inv db_inv cache_inv st" using assms(3,4) by (simp add: commander.svc_inv_def[OF L])
  note sp = commander.svcRegisterRunner_spec[OF L inv assms(5)]
  then have inv': "db_inv (dbS st')" by (simp add: commander.svc_inv_def[OF L])
  show ?thesis
  proof (cases res)
    case (Inl e)
    with sp inv' show ?thesis by simp
  next
    case (Inr r)
    with sp have r: "Addr r = addr" "runnsOf (dbS st') = insert r (runnsOf (dbS st))" by simp_all
    have "r = r'" if "r' \<in> runnsOf (dbS st)" "Addr r' = addr" for r'
      using commander_db.unique_runners[OF sqlite_commander_db[OF assms(2)] inv', of r r'] that r by simp
    moreover have "\<exists>resp. callHeartbeat net addr = Inr resp" if "r \<notin> runnsOf (dbS st)"
    proof -
      have "\<forall>r' \<in> runnsOf (dbS st). Addr r' \<noteq> addr" using calculation that by blast
      with sp Inr show ?thesis by simp
    qed
    ultimately show ?thesis using sp Inr inv' r by auto
  qed
qed

lemma example_register:
  "case svcRegisterRunner example_svc example_net (0, 0) ''r1''
      (SetRegisterRunnerMeta zeroRegisterRunnerMeta example_ctx) example_state of
     Returns (_, _, res) \<Rightarrow> res = Inr \<lparr>RunnerID = 1, Addr = ''r1''\<rparr> | Panics _ \<Rightarrow> False"
  by code_simp

section \<open>Heartbeat rounds\<close>

lemma runners_mem: "cache_inv c \<Longrightarrow> r \<in> runners (abs_cache c) \<longleftrightarrow> fmlookup (runnerRequests c) r \<noteq> None"
  unfolding mem_requests[symmetric] by (simp add: absRequestsOf_def)

text \<open>After a round exactly the registered runners that answered are known to the cache, besides runners that it
  knew before and that are not registered.\<close>

lemma heartbeat_round_known:
  assumes "iter_order ord" and "sleep_ok sleep" and "db_inv (dbS st)" and "cache_inv (cacheS st)"
    and "\<And>r. r \<in> runnsOf (dbS st) \<Longrightarrow> Addr r \<noteq> ''''" and "\<And>rs. mset (sched rs) = mset rs"
    and "PollRunnerHeartbeats sched (programService ord sleep n s) net st = (st', None)"
  shows "db_inv (dbS st') \<and> cache_inv (cacheS st') \<and> runnsOf (dbS st') = runnsOf (dbS st) \<and>
    runners (abs_cache (cacheS st')) = (runners (abs_cache (cacheS st)) - Addr ` runnsOf (dbS st)) \<union>
      {a \<in> Addr ` runnsOf (dbS st). answered net a \<noteq> None}"
proof -
  note L = program_commander[OF assms(1,2), of n s]
  have inv: "commander.svc_inv db_inv cache_inv st" using assms(3,4) by (simp add: commander.svc_inv_def[OF L])
  obtain rs where rs: "set rs = Addr ` runnsOf (dbS st)" "distinct rs"
    "commander.svc_inv db_inv cache_inv st'" "fsS st' = fsS st"
    "abs_cache (cacheS st') = fold (absPoll net) rs (abs_cache (cacheS st))"
    "dbS st' = fst (dbGetAllRunners (db (programService ord sleep n s)) (dbS st))"
    using commander.PollRunnerHeartbeats_spec[OF L inv assms(5,6,7)] by blast
  have inv': "db_inv (dbS st')" "cache_inv (cacheS st')" using rs(3) by (simp_all add: commander.svc_inv_def[OF L])
  obtain w lres where w: "dbGetAllRunners (db (programService ord sleep n s)) (dbS st) = (w, lres)" by fastforce
  have rows: "runnsOf (dbS st') = runnsOf (dbS st)"
    using commander_db.all_runners[OF commander.axioms(1)[OF L] assms(3) w] rs(6) w by (simp add: same_rows_def)
  have "runners (abs_cache (cacheS st')) = (runners (abs_cache (cacheS st)) - Addr ` runnsOf (dbS st)) \<union>
      {r \<in> Addr ` runnsOf (dbS st). answered net r \<noteq> None}"
    unfolding rs(5) fold_absPoll_runners[OF rs(2)] rs(1) ..
  with inv' rows show ?thesis by (intro conjI)
qed

text \<open>A round that cannot read the runners changes nothing.\<close>

lemma heartbeat_round_failed:
  assumes "iter_order ord" and "sleep_ok sleep" and "db_inv (dbS st)"
    and "PollRunnerHeartbeats sched (programService ord sleep n s) net st = (st', Some e)"
  shows "db_inv (dbS st') \<and> cacheS st' = cacheS st \<and> runnsOf (dbS st') = runnsOf (dbS st)"
proof -
  note L = program_commander[OF assms(1,2), of n s]
  obtain w lres where w: "dbGetAllRunners (db (programService ord sleep n s)) (dbS st) = (w, lres)" by fastforce
  then show ?thesis
    using commander_db.all_runners[OF commander.axioms(1)[OF L] assms(3) w] assms(4)
    by (auto simp: PollRunnerHeartbeats_def same_rows_def split: sum.splits)
qed

text \<open>
  The states of a commander: it starts with an empty cache on a database that may have rows of an earlier
  run, and then serves uploads, registrations of runners, which have an address, requests for a routing
  and heartbeat rounds, in any order, one after the other.
\<close>

inductive serving ::
  "(Tables, InMemoryCache) CommanderService \<Rightarrow> (bytes \<Rightarrow> bytes) \<Rightarrow> (Tables, InMemoryCache) CommanderState \<Rightarrow> bool"
  for svc sha256 where
  starts: "db_inv t \<Longrightarrow> (\<forall>r \<in> runnsOf t. Addr r \<noteq> '''') \<Longrightarrow>
    serving svc sha256 \<lparr>dbS = t, cacheS = NewInMemoryCache, fsS = fs\<rparr>"
| uploads: "serving svc sha256 st \<Longrightarrow>
    svcCreateFunction sha256 svc name reader (ctx :: HttpCtx) st = Returns (ctx', st', res) \<Longrightarrow> serving svc sha256 st'"
| registers: "serving svc sha256 st \<Longrightarrow> addr \<noteq> '''' \<Longrightarrow>
    svcRegisterRunner svc net took addr (gctx :: unit Ctx) st = Returns (gctx', st', rres) \<Longrightarrow> serving svc sha256 st'"
| routes: "serving svc sha256 st \<Longrightarrow>
    svcRouteFunction svc net pt f (gctx :: unit Ctx) st = Returns (gctx', st', ro) \<Longrightarrow> serving svc sha256 st'"
| polls: "serving svc sha256 st \<Longrightarrow> (\<And>rs. mset (sched rs) = mset rs) \<Longrightarrow>
    PollRunnerHeartbeats sched svc net st = (st', err) \<Longrightarrow> serving svc sha256 st'"

text \<open>In all of them the cache knows registered runners only.\<close>

definition known_registered :: "(Tables, InMemoryCache) CommanderState \<Rightarrow> bool" where
  "known_registered st \<longleftrightarrow> db_inv (dbS st) \<and> cache_inv (cacheS st) \<and> (\<forall>r \<in> runnsOf (dbS st). Addr r \<noteq> '''') \<and>
     runners (abs_cache (cacheS st)) \<subseteq> Addr ` runnsOf (dbS st)"

lemma round_known_registered:
  assumes "iter_order ord" and "sleep_ok sleep" and "known_registered st" and "\<And>rs. mset (sched rs) = mset rs"
    and "PollRunnerHeartbeats sched (programService ord sleep n s) net st = (st', err)"
  shows "known_registered st'"
proof (cases err)
  case None
  have k: "db_inv (dbS st)" "cache_inv (cacheS st)" "\<And>r. r \<in> runnsOf (dbS st) \<Longrightarrow> Addr r \<noteq> ''''"
      "runners (abs_cache (cacheS st)) \<subseteq> Addr ` runnsOf (dbS st)"
    using assms(3) by (auto simp: known_registered_def)
  from heartbeat_round_known[OF assms(1,2) k(1-3) assms(4) assms(5)[unfolded None]] k(3,4)
  show ?thesis by (auto simp: known_registered_def)
next
  case (Some e)
  have "db_inv (dbS st)" using assms(3) by (simp add: known_registered_def)
  from heartbeat_round_failed[OF assms(1,2) this assms(5)[unfolded Some]] assms(3)
  show ?thesis by (simp add: known_registered_def)
qed

lemma serving_known_registered:
  assumes "iter_order ord" and "sleep_ok sleep" and "serving (programService ord sleep n s) sha256 st"
  shows "known_registered st"
  using assms(3)
proof induction
  case (starts t fs)
  have "runners (abs_cache NewInMemoryCache) = {}" by (simp add: abs_cache_def NewInMemoryCache_def)
  then show ?case using starts NewInMemoryCache_inv by (simp add: known_registered_def)
next
  case (uploads st name reader ctx ctx' st' res)
  note L = program_commander[OF assms(1,2), of n s]
  have inv: "commander.svc_inv db_inv cache_inv st"
    using uploads.IH by (simp add: commander.svc_inv_def[OF L] known_registered_def)
  show ?case
    by (cases rule: commander.svcCreateFunction_spec[OF L inv uploads.hyps(2)])
      (use uploads.IH in \<open>simp_all add: known_registered_def same_rows_def commander.svc_inv_def[OF L]\<close>)
next
  case (registers st addr net took gctx gctx' st' rres)
  note L = program_commander[OF assms(1,2), of n s]
  have inv: "commander.svc_inv db_inv cache_inv st"
    using registers.IH by (simp add: commander.svc_inv_def[OF L] known_registered_def)
  from commander.svcRegisterRunner_spec[OF L inv registers.hyps(3)] registers.IH registers.hyps(2)
  show ?case by (auto simp: known_registered_def commander.svc_inv_def[OF L] split: sum.splits)
next
  case (routes st net pt f gctx gctx' st' ro)
  note L = program_commander[OF assms(1,2), of n s]
  have inv: "commander.svc_inv db_inv cache_inv st"
    using routes.IH by (simp add: commander.svc_inv_def[OF L] known_registered_def)
  from commander.svcRouteFunction_spec[OF L inv routes.hyps(2)] routes.IH
  show ?case by (simp add: known_registered_def commander.svc_inv_def[OF L] same_rows_def)
next
  case (polls st sched net st' err)
  show ?case by (rule round_known_registered[OF assms(1,2) polls.IH polls.hyps(2,3)])
qed

text \<open>
  C25: in every state that a commander reaches from its start by uploads, registrations, routings and
  heartbeat rounds, one after the other, a heartbeat round that can read the registered runners leaves as
  available exactly the registered runners that answered it; an evicted runner is back after the first
  round it answers. This holds for every schedule of the goroutines of the round.
\<close>

theorem heartbeat_round_runners:
  assumes "iter_order ord" and "sleep_ok sleep" and "serving (programService ord sleep n s) sha256 st"
    and "\<And>rs. mset (sched rs) = mset rs"
    and "PollRunnerHeartbeats sched (programService ord sleep n s) net st = (st', None)"
  shows "runnsOf (dbS st') = runnsOf (dbS st) \<and>
    (\<forall>a. fmlookup (runnerRequests (cacheS st')) a \<noteq> None \<longleftrightarrow> a \<in> Addr ` runnsOf (dbS st) \<and> answered net a \<noteq> None)"
proof -
  have "known_registered st" by (rule serving_known_registered[OF assms(1-3)])
  then have k: "db_inv (dbS st)" "cache_inv (cacheS st)" "\<And>r. r \<in> runnsOf (dbS st) \<Longrightarrow> Addr r \<noteq> ''''"
      "runners (abs_cache (cacheS st)) \<subseteq> Addr ` runnsOf (dbS st)"
    by (auto simp: known_registered_def)
  note h = heartbeat_round_known[OF assms(1,2) k(1-3) assms(4,5)]
  then have "runners (abs_cache (cacheS st')) = {a \<in> Addr ` runnsOf (dbS st). answered net a \<noteq> None}" using k(4) by auto
  then show ?thesis using h runners_mem[of "cacheS st'"] by auto
qed

lemma example_poll:
  "snd (PollRunnerHeartbeats rev example_svc example_net example_state) = None"
  by code_simp

lemma example_addrs: "r \<in> runnsOf (dbS example_state) \<Longrightarrow> Addr r \<noteq> ''''"
  by (auto simp: example_state_def example_tables_def runnsOf_def)

definition calm_net :: RunnerNet where
  "calm_net = \<lparr>CreateRunnerClient = \<lambda>_. None,
     callHeartbeat = (\<lambda>_. Inr (Some \<lparr>QueueDepths = fmempty, hbCpuPercent = 0, hbUnusedMemoryBytes = 1\<rparr>)),
     callPrepare = (\<lambda>_ _ _. Inr ''i9'')\<rparr>"

definition served_state :: "(Tables, InMemoryCache) CommanderState" where
  "served_state = fst (PollRunnerHeartbeats id example_svc calm_net
     \<lparr>dbS = example_tables, cacheS = NewInMemoryCache, fsS = example_fs\<rparr>)"

lemma served_state_serving: "serving example_svc example_sha served_state"
proof (rule serving.polls[of _ _ _ id])
  show "serving example_svc example_sha \<lparr>dbS = example_tables, cacheS = NewInMemoryCache, fsS = example_fs\<rparr>"
    by (rule serving.starts) (auto simp: db_inv_def example_tables_def runnsOf_def)
  show "PollRunnerHeartbeats id example_svc calm_net \<lparr>dbS = example_tables, cacheS = NewInMemoryCache, fsS = example_fs\<rparr> =
      (served_state, snd (PollRunnerHeartbeats id example_svc calm_net
        \<lparr>dbS = example_tables, cacheS = NewInMemoryCache, fsS = example_fs\<rparr>))"
    by (simp add: served_state_def)
qed simp

lemma served_state_facts:
  "snd (PollRunnerHeartbeats rev example_svc example_net served_state) = None"
  "Addr ` set (runnerRows (dbS served_state)) = {''r1'', ''r2''}"
  "fmlookup (runnerRequests (cacheS served_state)) ''r2'' \<noteq> None"
  by code_simp+

theorem heartbeat_round_runners_witness:
  "fmlookup (runnerRequests (cacheS served_state)) ''r2'' \<noteq> None \<and>
   fmlookup (runnerRequests (cacheS (fst (PollRunnerHeartbeats rev example_svc example_net served_state)))) ''r2'' = None \<and>
   fmlookup (runnerRequests (cacheS (fst (PollRunnerHeartbeats rev example_svc example_net served_state)))) ''r1'' \<noteq> None"
proof -
  have "PollRunnerHeartbeats rev example_svc example_net served_state =
      (fst (PollRunnerHeartbeats rev example_svc example_net served_state), None)"
    using served_state_facts(1) by (metis prod.collapse)
  from heartbeat_round_runners[OF iter_order_sorted sleep_ok_neverDone served_state_serving[unfolded example_svc_def] _
      this[unfolded example_svc_def]]
  have h: "fmlookup (runnerRequests (cacheS (fst (PollRunnerHeartbeats rev example_svc example_net served_state)))) a \<noteq> None \<longleftrightarrow>
      a \<in> Addr ` runnsOf (dbS served_state) \<and> answered example_net a \<noteq> None" for a
    unfolding example_svc_def by simp
  have "Addr ` runnsOf (dbS served_state) = {''r1'', ''r2''}" using served_state_facts(2) by (simp add: runnsOf_def)
  moreover have "answered example_net ''r2'' = None" "answered example_net ''r1'' \<noteq> None"
    by (simp_all add: answered_def example_net_def)
  ultimately show ?thesis using h[of "''r2''"] h[of "''r1''"] served_state_facts(3) by simp
qed

text \<open>
  C26: the goroutines of a heartbeat round may run in any order: when every runner reports instances of
  its own, all schedules end in the same cache.
\<close>

theorem heartbeat_round_schedule_irrelevant:
  assumes "iter_order ord" and "sleep_ok sleep" and "db_inv (dbS st)" and "cache_inv (cacheS st)"
    and "\<And>r. r \<in> runnsOf (dbS st) \<Longrightarrow> Addr r \<noteq> ''''"
    and "\<And>rs. mset (sched rs) = mset rs" and "\<And>rs. mset (sched' rs) = mset rs"
    and "own_reports net (Addr ` runnsOf (dbS st)) (abs_cache (cacheS st))"
    and "PollRunnerHeartbeats sched (programService ord sleep n s) net st = (st1, None)"
    and "PollRunnerHeartbeats sched' (programService ord sleep n s) net st = (st2, None)"
  shows "st1 = st2"
proof -
  note L = program_commander[OF assms(1,2), of n s]
  have inv: "commander.svc_inv db_inv cache_inv st" using assms(3,4) by (simp add: commander.svc_inv_def[OF L])
  obtain rs where rs: "set rs = Addr ` runnsOf (dbS st)" "distinct rs"
    "commander.svc_inv db_inv cache_inv st1" "fsS st1 = fsS st"
    "abs_cache (cacheS st1) = fold (absPoll net) rs (abs_cache (cacheS st))"
    "dbS st1 = fst (dbGetAllRunners (db (programService ord sleep n s)) (dbS st))"
    using commander.PollRunnerHeartbeats_spec[OF L inv assms(5,6,9)] by blast
  obtain rs' where rs': "set rs' = Addr ` runnsOf (dbS st)" "distinct rs'"
    "commander.svc_inv db_inv cache_inv st2" "fsS st2 = fsS st"
    "abs_cache (cacheS st2) = fold (absPoll net) rs' (abs_cache (cacheS st))"
    "dbS st2 = fst (dbGetAllRunners (db (programService ord sleep n s)) (dbS st))"
    using commander.PollRunnerHeartbeats_spec[OF L inv assms(5,7,10)] by blast
  have "abs_cache (cacheS st1) = abs_cache (cacheS st2)"
    unfolding rs(5) rs'(5) using rs(1,2) rs'(1,2) assms(8) by (intro fold_absPoll_order) simp_all
  with rs(3) rs'(3) have "cacheS st1 = cacheS st2"
    by (intro cache_canonical) (simp_all add: commander.svc_inv_def[OF L])
  with rs(4,6) rs'(4,6) show ?thesis by simp
qed

lemma example_own: "own_reports example_net (Addr ` runnsOf (dbS example_state)) (abs_cache (cacheS example_state))"
proof -
  have "absRunnerOf (abs_cache (cacheS example_state)) ''i1'' = None" by code_simp
  then show ?thesis
    by (auto simp: own_reports_def reportOf_def answered_def example_net_def split: if_splits option.splits)
qed

theorem heartbeat_round_schedule_irrelevant_witness:
  "fst (PollRunnerHeartbeats rev example_svc example_net example_state) =
   fst (PollRunnerHeartbeats id example_svc example_net example_state)"
proof -
  have "snd (PollRunnerHeartbeats id example_svc example_net example_state) = None" by code_simp
  then have "PollRunnerHeartbeats rev example_svc example_net example_state =
      (fst (PollRunnerHeartbeats rev example_svc example_net example_state), None)"
    "PollRunnerHeartbeats id example_svc example_net example_state =
      (fst (PollRunnerHeartbeats id example_svc example_net example_state), None)"
    using example_poll by (metis prod.collapse)+
  then show ?thesis
    unfolding example_svc_def
    by (intro heartbeat_round_schedule_irrelevant[OF iter_order_sorted sleep_ok_neverDone example_invs
          example_addrs _ _ example_own]) simp_all
qed


text \<open>
  What a whole round leaves about one of its runners: the cache has there exactly the instances the
  runner reported, with the reported depths, and its metrics.
\<close>

lemma fold_absPoll_reported:
  assumes "distinct rs" and "own_reports net (set rs) a" and "r \<in> set rs"
  shows "reportOf net r i = Some d \<Longrightarrow>
      assign (fold (absPoll net) rs a) i = Some (absFunctionOf a i, r, ucast d)"
    and "reportOf net r i = None \<Longrightarrow> absRunnerOf (fold (absPoll net) rs a) i \<noteq> Some r"
proof -
  note A = fold_absPoll_assign[OF assms(1,2) subset_refl, of i]
  {
    assume d: "reportOf net r i = Some d"
    then have "find (\<lambda>r. reportOf net r i \<noteq> None) rs \<noteq> None"
      using assms(3) unfolding find_None_iff by auto
    then obtain r' where r': "find (\<lambda>r. reportOf net r i \<noteq> None) rs = Some r'" by blast
    then have "r' \<in> set rs" "reportOf net r' i \<noteq> None" by (auto simp: find_Some_iff)
    with assms(2,3) d have "r' = r" unfolding own_reports_def by blast
    with A r' d show "assign (fold (absPoll net) rs a) i = Some (absFunctionOf a i, r, ucast d)" by simp
  }
  assume "reportOf net r i = None"
  then show "absRunnerOf (fold (absPoll net) rs a) i \<noteq> Some r"
    using assms(3) by (auto simp: absRunnerOf_def A find_Some_iff split: option.splits if_splits)
qed

lemma heartbeat_round_reported:
  assumes "iter_order ord" and "sleep_ok sleep" and "db_inv (dbS st)" and "cache_inv (cacheS st)"
    and "\<And>r. r \<in> runnsOf (dbS st) \<Longrightarrow> Addr r \<noteq> ''''" and "\<And>rs. mset (sched rs) = mset rs"
    and "own_reports net (Addr ` runnsOf (dbS st)) (abs_cache (cacheS st))"
    and "PollRunnerHeartbeats sched (programService ord sleep n s) net st = (st', None)"
    and "a \<in> Addr ` runnsOf (dbS st)"
  shows "RunnerAddressOfInstance i (cacheS st') = Inr a \<longleftrightarrow> reportOf net a i \<noteq> None"
    and "reportOf net a i = Some d \<Longrightarrow> fmlookup (instanceQueue (cacheS st')) i = Some (ucast d)"
    and "fmlookup (runnerStats (cacheS st')) a = map_option metricsOf (answered net a)"
proof -
  note L = program_commander[OF assms(1,2), of n s]
  have inv: "commander.svc_inv db_inv cache_inv st" using assms(3,4) by (simp add: commander.svc_inv_def[OF L])
  obtain rs where rs: "set rs = Addr ` runnsOf (dbS st)" "distinct rs"
    "commander.svc_inv db_inv cache_inv st'" "fsS st' = fsS st"
    "abs_cache (cacheS st') = fold (absPoll net) rs (abs_cache (cacheS st))"
    "dbS st' = fst (dbGetAllRunners (db (programService ord sleep n s)) (dbS st))"
    using commander.PollRunnerHeartbeats_spec[OF L inv assms(5,6,8)] by blast
  have inv': "cache_inv (cacheS st')" using rs(3) by (simp add: commander.svc_inv_def[OF L])
  have own: "own_reports net (set rs) (abs_cache (cacheS st))" and a: "a \<in> set rs"
    using assms(7,9) rs(1) by simp_all
  note R = fold_absPoll_reported[OF rs(2) own a, folded rs(5)]
  have at: "assign (abs_cache (cacheS st')) i = Some (absFunctionOf (abs_cache (cacheS st)) i, a, ucast d)"
    if "reportOf net a i = Some d" for d using R(1)[OF that] .
  show "RunnerAddressOfInstance i (cacheS st') = Inr a \<longleftrightarrow> reportOf net a i \<noteq> None"
    using at R(2)[of i] by (cases "reportOf net a i")
      (auto simp: RunnerAddressOfInstance_refines absRunnerOf_def split: option.splits)
  show "fmlookup (instanceQueue (cacheS st')) i = Some (ucast d)" if "reportOf net a i = Some d"
    using at[OF that] cache_inv_exceptD(4)[OF inv', of i]
    by (auto simp: abs_assign fmget_def split: option.splits)
  show "fmlookup (runnerStats (cacheS st')) a = map_option metricsOf (answered net a)"
    using fold_absPoll_stats[of net rs "abs_cache (cacheS st)" a] a unfolding rs(5)[symmetric]
    by (simp add: abs_cache_def)
qed
end
