(* ===== verification/CommanderHandlers.thy ===== *)
theory CommanderHandlers
  imports CommanderService
begin

text \<open>
  The HTTP handlers of the commander (\<open>pkg/commander/handlers.go\<close>) and its polling loop
  (\<open>runnerHeartbeatPolling\<close> in \<open>pkg/commander/run.go\<close>).

  A multipart request is what the library makes of it: the error of parsing the form, the value of its
  field \<open>name\<close>, and the reader of its file \<open>binary\<close> or the error of opening it. A response body is
  written whole or, on a broken connection, not at all.
\<close>

section \<open>Uploading\<close>

record MultipartRequest =
  requestURI :: string
  parseFormErr :: "goerr option"
  formName :: string
  formFile :: "bytes res res"

definition parseCreateFunctionMultipartRequest :: "MultipartRequest \<Rightarrow> (string \<times> bytes res) res" where
  "parseCreateFunctionMultipartRequest r =
     (case parseFormErr r of
        Some err \<Rightarrow> Inl err
      | None \<Rightarrow> (case formFile r of Inl err \<Rightarrow> Inl err | Inr file \<Rightarrow> Inr (formName r, file)))"

definition zeroCreateFunctionMeta :: CreateFunctionMeta where
  "zeroCreateFunctionMeta =
     \<lparr>cfFunctionName = [], cfFunctionID = 0, cfFunctionBytes = 0, cfFunctionHash = [],
      cfFunctionPath = [], cfFunctionAlreadyExists = False\<rparr>"

definition httpCreateFunction ::
  "(bytes \<Rightarrow> bytes) \<Rightarrow> ('w, 'c) CommanderService \<Rightarrow> MultipartRequest \<Rightarrow> ApiFunction exchange \<Rightarrow>
   ('w, 'c) CommanderState \<Rightarrow> (ApiFunction exchange \<times> ('w, 'c) CommanderState) outcome" where
  "httpCreateFunction sha256 svc r x st =
     (case parseCreateFunctionMultipartRequest r of
        Inl err \<Rightarrow>
          Returns
            (if errorTextIs err LargeBodyErrorStr
             then EncodeError (requestURI r)
                    \<lparr>Cause = err, Code = ''function.too.large'',
                     Detail = Fmt ''Function binary must have size less than %d bytes'' [strconv_FormatInt MaxBytes],
                     Status = 400, Title = ''Function binary too large'', AdditionalProperties = []\<rparr> x
             else EncodeError (requestURI r)
                    \<lparr>Cause = err, Code = InvalidRequestCode, Detail = ErrText err, Status = 400,
                     Title = InvalidRequestTitle, AdditionalProperties = []\<rparr> x, st)
      | Inr (funcName, funcBytesReader) \<Rightarrow>
          (let ctx1 = SetCreateFunctionMeta (zeroCreateFunctionMeta\<lparr>cfFunctionName := funcName\<rparr>) (fst x)
           in case svcCreateFunction sha256 svc funcName funcBytesReader ctx1 st of
                Panics msg \<Rightarrow> Panics msg
              | Returns (ctx2, st2, Inl err) \<Rightarrow>
                  Returns
                    (if errors_Is err ErrFunctionExists
                     then EncodeError (requestURI r)
                            \<lparr>Cause = err, Code = ''function.exists'',
                             Detail = Lit ''Function with same bytes already exists'', Status = 409,
                             Title = ''Function already exists'', AdditionalProperties = []\<rparr> (ctx2, snd x)
                     else InternalServerError (requestURI r) err (ctx2, snd x), st2)
              | Returns (ctx2, st2, Inr newFunc) \<Rightarrow>
                  Returns ((ctx2, EncodeResponse 201 newFunc (snd x)), st2)))"

section \<open>Downloading\<close>

definition DownloadHeaderFunctionID :: string where
  "DownloadHeaderFunctionID = ''Function-Id''"

definition DownloadHeaderFunctionFilename :: string where
  "DownloadHeaderFunctionFilename = ''Function-Filename''"

definition DownloadHeaderFunctionPath :: string where
  "DownloadHeaderFunctionPath = ''Function-Path''"

definition modDownloadFunctionBinaryMeta ::
  "(DownloadFunctionBinaryMeta \<Rightarrow> DownloadFunctionBinaryMeta) \<Rightarrow> 'e Ctx \<Rightarrow> 'e Ctx" where
  "modDownloadFunctionBinaryMeta f ctx =
     ctx\<lparr>downloadFunctionBinarySlot := slotMod f (downloadFunctionBinarySlot ctx)\<rparr>"

definition zeroDownloadFunctionBinaryMeta :: DownloadFunctionBinaryMeta where
  "zeroDownloadFunctionBinaryMeta =
     \<lparr>dbFunctionID = 0, dbFunctionPath = [], dbFunctionFilename = [], dbBytesWritten = 0\<rparr>"

definition httpDownloadFunctionBinary ::
  "('w, 'c) CommanderService \<Rightarrow> string \<Rightarrow> string \<Rightarrow> 'p exchange \<Rightarrow> ('w, 'c) CommanderState \<Rightarrow>
   'p exchange \<times> ('w, 'c) CommanderState" where
  "httpDownloadFunctionBinary svc uri i x st =
     (let ctx0 = SetDownloadFunctionBinaryMeta zeroDownloadFunctionBinaryMeta (fst x)
      in case strconv_ParseInt i of
           Inl err \<Rightarrow>
             (EncodeError uri (FromInvalidParamErr (ErrInvalidParam ''id'' err) ''id'') (ctx0, snd x), st)
         | Inr funcId \<Rightarrow>
             (let ctx1 = modDownloadFunctionBinaryMeta (dbFunctionID_update (\<lambda>_. funcId)) ctx0
              in case svcFunctionByID svc funcId st of
                   (st1, Inl err) \<Rightarrow>
                     (if errors_Is err ErrFunctionNotFound
                      then EncodeError uri
                             \<lparr>Cause = err, Code = ''function.not.found'',
                              Detail = Fmt ''Function with id '%d' not found'' [strconv_FormatInt funcId],
                              Status = 404, Title = ''Function not found'', AdditionalProperties = []\<rparr> (ctx1, snd x)
                      else InternalServerError uri err (ctx1, snd x), st1)
                 | (st1, Inr function) \<Rightarrow>
                     (let fname = filepath_Base (Path function);
                          ctx2 = modDownloadFunctionBinaryMeta
                            (\<lambda>m. m\<lparr>dbFunctionPath := Path function, dbFunctionFilename := fname\<rparr>) ctx1
                      in case os_Open (Path function) (fsS st1) of
                           (fs1, Inl err) \<Rightarrow>
                             (InternalServerError uri (wrapf ''open function binary: %w'' [] err) (ctx2, snd x),
                              st1\<lparr>fsS := fs1\<rparr>)
                         | (fs1, Inr content) \<Rightarrow>
                             (let w1 = WriteHeader 200
                                    (headerSet ContentType ''application/octet-stream''
                                      (headerSet DownloadHeaderFunctionPath (filepath_Dir (Path function))
                                        (headerSet DownloadHeaderFunctionFilename fname
                                          (headerSet DownloadHeaderFunctionID (strconv_FormatInt (ID function)) (snd x)))))
                              in case writeChunk (RawChunk content) w1 of
                                   (w2, None) \<Rightarrow>
                                     ((modDownloadFunctionBinaryMeta (dbBytesWritten_update (\<lambda>_. int (length content))) ctx2,
                                       w2), st1\<lparr>fsS := fs1\<rparr>)
                                 | (w2, Some err) \<Rightarrow>
                                     (InternalServerError uri (wrapf ''stream function binary: %w'' [] err)
                                       (modDownloadFunctionBinaryMeta (dbBytesWritten_update (\<lambda>_. 0)) ctx2, w2),
                                      st1\<lparr>fsS := fs1\<rparr>)))))"

section \<open>The polling loop\<close>

text \<open>
  The loop runs until its context ends. An event is a tick, with the schedule of its round and what
  the runners answer during it; errors of a round are only logged.
\<close>

datatype PollEvent = Tick "Runner list \<Rightarrow> Runner list" RunnerNet | CtxDone

fun pollLoop :: "('w, 'c) CommanderService \<Rightarrow> PollEvent list \<Rightarrow> ('w, 'c) CommanderState \<Rightarrow> ('w, 'c) CommanderState" where
  "pollLoop svc [] st = st"
| "pollLoop svc (CtxDone # evs) st = st"
| "pollLoop svc (Tick sched net # evs) st = pollLoop svc evs (fst (PollRunnerHeartbeats sched svc net st))"

definition runnerHeartbeatPolling ::
  "int \<Rightarrow> ('w, 'c) CommanderService \<Rightarrow> PollEvent list \<Rightarrow> ('w, 'c) CommanderState \<Rightarrow> ('w, 'c) CommanderState outcome" where
  "runnerHeartbeatPolling runnerHeartbeatPoll svc evs st =
     assertThat (0 < runnerHeartbeatPoll) ''RunnerHeartbeatPoll can't be 0 or less, it was %d''
      (Returns (pollLoop svc evs st))"

section \<open>Properties\<close>

lemma SQLiteFunctionByID_found:
  assumes "db_inv t" and "dbFaults t = []" and "g \<in> funsOf t"
  shows "SQLiteFunctionByID sleep sqlQueries (ID g) t = (t, Inr g)"
proof -
  have "find (\<lambda>f. ID f = ID g) (functionRows t) = Some g"
  proof (cases "find (\<lambda>f. ID f = ID g) (functionRows t)")
    case None
    then show ?thesis using assms(3) by (auto simp: find_None_iff funsOf_def)
  next
    case (Some f)
    then have "f \<in> set (functionRows t)" "ID f = ID g" by (auto simp: find_Some_iff)
    then show ?thesis
      using Some assms(1,3) distinct_map_eq[of ID "functionRows t" f g] by (simp add: db_inv_def funsOf_def)
  qed
  then show ?thesis
    using script_done[OF stmts_clean(3)[of "ID g"] assms(2), of sleep 1]
    by (simp add: SQLiteFunctionByID_def sqlQueries_def WithRetry_def wrapErr_def stmtFunctionByID_def one_def)
qed

lemma svcFunctionByID_found:
  assumes "db_inv (dbS st)" and "dbFaults (dbS st) = []" and "g \<in> funsOf (dbS st)"
  shows "svcFunctionByID (programService ord sleep n s) (ID g) st = (st, Inr g)"
  using SQLiteFunctionByID_found[OF assms]
  by (simp add: svcFunctionByID_def programService_def SQLiteCommanderDB_def)

text \<open>
  the download serves exactly what was uploaded. In every state where the files match the rows (as
  all uploads leave it), a request for the id of a registered function on an undisturbed system is
  answered with status 200, the bytes whose hash is in the row, its file name and the directory of the
  storage.
\<close>

lemma download_serves_stored_binary:
  fixes x :: "'p exchange"
  assumes "db_inv (dbS st)" and "dbFaults (dbS st) = []" and "faults (fsS st) = []"
    and "g \<in> funsOf (dbS st)" and "stored sha256 (storageRoot s) (fsS st) g bs"
    and "- (2 ^ 63) \<le> ID g" and "ID g < 2 ^ 63" and "sent (snd x) = None" and "writeErr (snd x) = None"
  shows "\<exists>ctx' w' hdr. httpDownloadFunctionBinary (programService ord sleep n s) uri (strconv_FormatInt (ID g)) x st =
      ((ctx', w'), st) \<and> sent w' = Some (200, hdr) \<and> body w' = body (snd x) @ [RawChunk bs] \<and>
      fmlookup hdr DownloadHeaderFunctionPath = Some (filepath_Clean (storageRoot s)) \<and>
      fmlookup hdr DownloadHeaderFunctionFilename = Some (functionFilename (Name g) (Hash g)) \<and>
      fmlookup hdr DownloadHeaderFunctionID = Some (strconv_FormatInt (ID g))"
proof -
  have p: "Path g = filepath_Join [storageRoot s, functionFilename (Name g) (Hash g)]"
    "fmlookup (nodes (fsS st)) (Path g) = Some (File bs)" using assms(5) unfolding stored_def by blast+
  have clean: "filepath_Clean (Path g) = Path g" unfolding p(1) by (rule Clean_Join[OF functionFilename_plain])
  have op: "os_Open (Path g) (fsS st) = (fsS st, Inr bs)"
    using assms(3) p(2) clean by (simp add: os_Open_def os_Stat_def nextFault_def popFault_def Let_def)
  have dir: "filepath_Dir (Path g) = filepath_Clean (storageRoot s)"
    "filepath_Base (Path g) = functionFilename (Name g) (Hash g)"
    unfolding p(1) by (simp_all add: Dir_Join[OF functionFilename_plain] Base_Join[OF functionFilename_plain])
  note run = ParseInt_FormatInt[OF assms(6,7)] svcFunctionByID_found[OF assms(1,2,4), of ord sleep n s]
  show ?thesis
    using assms(8,9) op dir
    by (simp add: httpDownloadFunctionBinary_def run Let_def writeChunk_def sent_WriteHeader
        ContentType_def DownloadHeaderFunctionPath_def DownloadHeaderFunctionFilename_def DownloadHeaderFunctionID_def)
qed

definition served_state :: "(Tables, InMemoryCache) CommanderState" where
  "served_state =
     \<lparr>dbS = \<lparr>functionRows = [\<lparr>ID = 1, Hash = [7], Name = ''f'', Path = ''/srv/f-07''\<rparr>], runnerRows = [], dbFaults = []\<rparr>,
      cacheS = NewInMemoryCache,
      fsS = \<lparr>nodes = fmupd ''/srv/f-07'' (File [1, 2]) (fmupd ''/srv'' DirNode fmempty), faults = []\<rparr>\<rparr>"

text \<open>An upload changes no other holder of the context.\<close>

lemma modCreateFunctionMeta_slot [simp]: "apiErrorSlot (modCreateFunctionMeta f ctx) = apiErrorSlot ctx"
  by (simp add: modCreateFunctionMeta_def)

lemma svcCreateFunction_slot:
  assumes "svcCreateFunction sha256 svc name reader ctx st = Returns (ctx', st', res)"
  shows "apiErrorSlot ctx' = apiErrorSlot ctx"
  using assms unfolding svcCreateFunction_def Let_def assertThat_def
  by (auto split: if_splits sum.splits prod.splits)

lemma svcCreateFunction_returns:
  assumes "GetCreateFunctionMeta ctx \<noteq> None"
  shows "\<exists>ctx' st' res. svcCreateFunction sha256 svc name reader ctx st = Returns (ctx', st', res)"
proof (cases "svcCreateFunction sha256 svc name reader ctx st")
  case (Returns y)
  then show ?thesis by (cases y) auto
next
  case (Panics msg)
  with assms show ?thesis by (simp add: svcCreateFunction_def Let_def assertThat_def)
qed

text \<open>
  C24: the status of an upload says what happened to it: 201 when the function was created, 409 when
  its binary is known, 400 when the request could not be read, and 500 otherwise; a response other
  than 201 has added no function.
\<close>

theorem upload_status:
  assumes "iter_order ord" and "sleep_ok sleep" and "db_inv (dbS st)" and "cache_inv (cacheS st)"
    and "sent (snd x) = None" and "writeErr (snd x) = None"
    and "apiErrorSlot (fst x) = Holder h" and "createFunctionSlot (fst x) = Holder m"
  shows "\<exists>x' st'. httpCreateFunction sha256 (programService ord sleep n s) r x st = Returns (x', st') \<and>
    db_inv (dbS st') \<and>
    (case parseCreateFunctionMultipartRequest r of
       Inl err \<Rightarrow> responseStatus (snd x') = Some 400 \<and> st' = st
     | Inr _ \<Rightarrow> responseStatus (snd x') \<in> {Some 201, Some 409, Some 500}) \<and>
    (responseStatus (snd x') = Some 201 \<longleftrightarrow> funsOf (dbS st') \<noteq> funsOf (dbS st)) \<and>
    (responseStatus (snd x') \<noteq> Some 201 \<longrightarrow> GetAPIError (fst x') \<noteq> None)"
proof (cases "parseCreateFunctionMultipartRequest r")
  case (Inl err)
  with assms(3,5,7) show ?thesis
    by (auto simp: httpCreateFunction_def EncodeError_response)
next
  case (Inr p)
  obtain name reader where p: "p = (name, reader)" by (cases p)
  note L = program_commander[OF assms(1,2), of n s]
  have inv: "commander.svc_inv db_inv cache_inv st" using assms(3,4) by (simp add: commander.svc_inv_def[OF L])
  let ?ctx = "SetCreateFunctionMeta (zeroCreateFunctionMeta\<lparr>cfFunctionName := name\<rparr>) (fst x)"
  have "GetCreateFunctionMeta ?ctx \<noteq> None"
    using assms(8) by (simp add: GetCreateFunctionMeta_def SetCreateFunctionMeta_def)
  then obtain ctx1 st1 res where
    c: "svcCreateFunction sha256 (programService ord sleep n s) name reader ?ctx st = Returns (ctx1, st1, res)"
    using svcCreateFunction_returns by blast
  have slot: "apiErrorSlot ctx1 = Holder h"
    using svcCreateFunction_slot[OF c] assms(7) by (simp add: SetCreateFunctionMeta_def)
  show ?thesis
  proof (cases rule: commander.svcCreateFunction_spec[OF L inv c])
    case (1 e)
    with slot Inr p c assms(5,6) show ?thesis
      by (auto simp: httpCreateFunction_def EncodeError_response InternalServerError_def
          commander.svc_inv_def[OF L] same_rows_def)
  next
    case (2 bs f)
    with slot Inr p c assms(5,6) show ?thesis
      by (auto simp: httpCreateFunction_def EncodeError_response commander.svc_inv_def[OF L] same_rows_def)
  next
    case (3 bs g)
    then have "funsOf (dbS st1) \<noteq> funsOf (dbS st)" by auto
    with 3 slot Inr p c assms(5,6) show ?thesis
      by (auto simp: httpCreateFunction_def EncodeResponse_def commander.svc_inv_def[OF L] responseStatus_def
          encodeWithContentType_def writeChunk_def sent_WriteHeader Let_def split: option.splits)
  qed
qed

definition upload_request :: MultipartRequest where
  "upload_request =
     \<lparr>requestURI = ''/functions'', parseFormErr = Some (ErrExternal LargeBodyErrorStr), formName = [],
      formFile = Inl ErrNotExist\<rparr>"

theorem upload_status_witness:
  "\<exists>x' st'. httpCreateFunction (\<lambda>_. [7])
      (programService sorted_list_of_fset neverDone (NewNaiveRouter 5 50) \<lparr>storageRoot = ''/srv''\<rparr>) upload_request
      (emptyCtx\<lparr>apiErrorSlot := Holder None, createFunctionSlot := Holder None\<rparr>, newWriter None) served_state =
      Returns (x', st') \<and> responseStatus (snd x') = Some 400 \<and> st' = served_state"
proof -
  have "db_inv (dbS served_state)" "cache_inv (cacheS served_state)"
    by (simp_all add: served_state_def db_inv_def NewInMemoryCache_inv)
  note U = upload_status[OF iter_order_sorted sleep_ok_neverDone this,
      of "(emptyCtx\<lparr>apiErrorSlot := Holder None, createFunctionSlot := Holder None\<rparr>, newWriter None)" None None]
  have "parseCreateFunctionMultipartRequest upload_request = Inl (ErrExternal LargeBodyErrorStr)"
    by (simp add: parseCreateFunctionMultipartRequest_def upload_request_def)
  with U[of "\<lambda>_. [7]" "NewNaiveRouter 5 50" "\<lparr>storageRoot = ''/srv''\<rparr>" upload_request] show ?thesis
    by (auto simp: newWriter_def)
qed

text \<open>The schedule of every round is an order of its runners.\<close>

definition schedules_ok :: "PollEvent list \<Rightarrow> bool" where
  "schedules_ok evs \<longleftrightarrow> (\<forall>sched net rs. Tick sched net \<in> set evs \<longrightarrow> mset (sched rs) = mset rs)"

context commander
begin

lemma PollRunnerHeartbeats_inv:
  assumes "svc_inv st" and "\<And>r. r \<in> runns (dbS st) \<Longrightarrow> Addr r \<noteq> ''''" and "\<And>rs. mset (sched rs) = mset rs"
    and "PollRunnerHeartbeats sched svc net st = (st', e)"
  shows "svc_inv st' \<and> same_rows funs runns (dbS st) (dbS st')"
proof -
  obtain w lres where w: "dbGetAllRunners (db svc) (dbS st) = (w, lres)" by fastforce
  have d: "dinv w" "same_rows funs runns (dbS st) w" "case lres of Inl e \<Rightarrow> True | Inr all \<Rightarrow> set all = runns (dbS st)"
    using D.all_runners[of "dbS st" w lres] assms(1) w by (auto simp: svc_inv_def split: sum.splits)
  show ?thesis
  proof (cases lres)
    case (Inl err)
    with assms(1,4) w d show ?thesis by (auto simp: PollRunnerHeartbeats_def svc_inv_def)
  next
    case (Inr all)
    have "set (sched all) = runns (dbS st)" using assms(3)[of all] d(3) Inr by (auto dest: mset_eq_setD)
    moreover have "cinv (cacheS (st\<lparr>dbS := w\<rparr>))" using assms(1) by (simp add: svc_inv_def)
    note fold_poll_spec[OF this, of "sched all" net]
    moreover have "st' = fold (pollRunnerHeartbeat svc net) (sched all) (st\<lparr>dbS := w\<rparr>)"
      using assms(4) w Inr by (simp add: PollRunnerHeartbeats_def)
    ultimately show ?thesis using d(1,2) assms(2) by (simp add: svc_inv_def)
  qed
qed

lemma pollLoop_inv:
  assumes "svc_inv st" and "\<And>r. r \<in> runns (dbS st) \<Longrightarrow> Addr r \<noteq> ''''"
    and "schedules_ok evs"
  shows "svc_inv (pollLoop svc evs st) \<and> same_rows funs runns (dbS st) (dbS (pollLoop svc evs st))"
  using assms
proof (induction evs arbitrary: st)
  case Nil
  then show ?case by (simp add: same_rows_def)
next
  case (Cons ev evs)
  show ?case
  proof (cases ev)
    case CtxDone
    with Cons.prems show ?thesis by (simp add: same_rows_def)
  next
    case (Tick sched net)
    obtain st1 e where p: "PollRunnerHeartbeats sched svc net st = (st1, e)" by fastforce
    have m: "mset (sched rs) = mset rs" for rs using Cons.prems(3) Tick by (simp add: schedules_ok_def)
    from PollRunnerHeartbeats_inv[OF Cons.prems(1,2) m p]
    have st1: "svc_inv st1" "same_rows funs runns (dbS st) (dbS st1)" by simp_all
    have "svc_inv (pollLoop svc evs st1) \<and> same_rows funs runns (dbS st1) (dbS (pollLoop svc evs st1))"
      using Cons.prems(2,3) st1 by (intro Cons.IH) (auto simp: same_rows_def schedules_ok_def)
    with Tick p st1 show ?thesis by (simp add: same_rows_def)
  qed
qed

end

text \<open>
  whatever the runners answer and however the ticks of the polling loop are scheduled, the loop
  keeps the cache consistent for as long as it runs, and it changes neither functions nor runners.
\<close>

lemma polling_keeps_cache_consistent:
  assumes "iter_order ord" and "sleep_ok sleep" and "0 < interval"
    and "db_inv (dbS st)" and "cache_inv (cacheS st)"
    and "\<And>r. r \<in> runnsOf (dbS st) \<Longrightarrow> Addr r \<noteq> ''''"
    and "schedules_ok evs"
  shows "\<exists>st'. runnerHeartbeatPolling interval (programService ord sleep n s) evs st = Returns st' \<and>
    db_inv (dbS st') \<and> cache_inv (cacheS st') \<and> same_rows funsOf runnsOf (dbS st) (dbS st')"
proof -
  note L = program_commander[OF assms(1,2), of n s]
  have inv: "commander.svc_inv db_inv cache_inv st" using assms(4,5) by (simp add: commander.svc_inv_def[OF L])
  from commander.pollLoop_inv[OF L inv assms(6,7)] assms(3) show ?thesis
    by (simp add: runnerHeartbeatPolling_def commander.svc_inv_def[OF L])
qed

end
