(* ===== verification/RunnerInstances.thy ===== *)
theory RunnerInstances
  imports GoStd
begin

text \<open>
  The book-keeping of a runner (\<open>pkg/runner/instances.go\<close>): broadcasting one result to many waiting
  goroutines (\<open>MultiConsumer\<close>), the downloads in flight, the instances that are starting, and the state
  of the running instances with their queues and timers.

  A channel is its buffered values and whether it is closed. Every function here runs under a lock or
  touches one object only, but for \<open>IsDownloadedOrStartDownload\<close>, whose two accesses are functions of their
  own and which gets what others do between them as an argument; how the goroutines interleave is the subject of \<open>RunnerWorker\<close>. An operation
  on a channel or an assertion may panic or block for good: \<open>effect\<close>.

  A timer channel delivers one value. Until a goroutine has received it, \<open>Reset\<close> finds the timer
  pending, even when its time has passed (Go 1.23 and later).
\<close>

datatype 'a effect = Done 'a | PanicWith string | Blocked

section \<open>MultiConsumer\<close>

record 't Chan =
  buf :: "'t list"
  closed :: bool

record 't MultiConsumer =
  subscribers :: "nat list"
  hasResult :: bool
  result :: "'t option"
  chans :: "'t Chan list"

definition NewMultiConsumer :: "'t MultiConsumer" where
  "NewMultiConsumer = \<lparr>subscribers = [], hasResult = False, result = None, chans = []\<rparr>"

text \<open>\<open>AddSub\<close> returns the index of the new channel, which has room for one value.\<close>

definition AddSub :: "'t MultiConsumer \<Rightarrow> 't MultiConsumer \<times> nat" where
  "AddSub b =
     (let n = length (chans b)
      in if hasResult b
         then (b\<lparr>chans := chans b @ [\<lparr>buf = [the (result b)], closed = True\<rparr>]\<rparr>, n)
         else (b\<lparr>chans := chans b @ [\<lparr>buf = [], closed = False\<rparr>], subscribers := subscribers b @ [n]\<rparr>, n))"

definition sendAndClose :: "'t \<Rightarrow> nat \<Rightarrow> 't Chan list \<Rightarrow> 't Chan list effect" where
  "sendAndClose r n cs =
     (if closed (cs ! n) then PanicWith ''send on closed channel''
      else if buf (cs ! n) \<noteq> [] then Blocked
      else Done (cs[n := \<lparr>buf = [r], closed = True\<rparr>]))"

fun submitTo :: "'t \<Rightarrow> nat list \<Rightarrow> 't Chan list \<Rightarrow> 't Chan list effect" where
  "submitTo r [] cs = Done cs"
| "submitTo r (n # ns) cs =
     (case sendAndClose r n cs of
        Done cs' \<Rightarrow> submitTo r ns cs'
      | PanicWith msg \<Rightarrow> PanicWith msg
      | Blocked \<Rightarrow> Blocked)"

definition SubmitResult :: "'t \<Rightarrow> 't MultiConsumer \<Rightarrow> 't MultiConsumer effect" where
  "SubmitResult r b =
     (case submitTo r (subscribers b) (chans b) of
        Done cs \<Rightarrow> Done (b\<lparr>hasResult := True, result := Some r, chans := cs, subscribers := []\<rparr>)
      | PanicWith msg \<Rightarrow> PanicWith msg
      | Blocked \<Rightarrow> Blocked)"

section \<open>Downloads in flight\<close>

record DownloadResult =
  drPath :: string
  drErr :: "goerr option"

text \<open>The map holds pointers to consumers: indices into a heap of them.\<close>

record DownloadsSyncMap =
  downloads :: "(string, nat) fmap"
  dlConsumers :: "DownloadResult MultiConsumer list"

definition NewDownloadsSyncMap :: DownloadsSyncMap where
  "NewDownloadsSyncMap = \<lparr>downloads = fmempty, dlConsumers = []\<rparr>"

text \<open>The caller either owns the work and its consumer, or waits on a channel of the owner's consumer.\<close>

datatype Ticket = Owner nat | Waiter nat nat

text \<open>
  \<open>LoadOrStore\<close> of the map with a new consumer, which is dropped when the path is there: the consumer of the
  path and whether it was there. The subscription is a second access; \<open>meanwhile\<close> is what other handlers
  do to the map between the two.
\<close>

definition loadOrStoreDownload :: "string \<Rightarrow> DownloadsSyncMap \<Rightarrow> DownloadsSyncMap \<times> nat \<times> bool" where
  "loadOrStoreDownload path m =
     (case fmlookup (downloads m) path of
        None \<Rightarrow>
          (let c = length (dlConsumers m)
           in (m\<lparr>downloads := fmupd path c (downloads m), dlConsumers := dlConsumers m @ [NewMultiConsumer]\<rparr>, c, False))
      | Some c \<Rightarrow> (m, c, True))"

definition subscribeDownload :: "nat \<Rightarrow> DownloadsSyncMap \<Rightarrow> DownloadsSyncMap \<times> nat" where
  "subscribeDownload c m =
     (let (b, ch) = AddSub (dlConsumers m ! c) in (m\<lparr>dlConsumers := (dlConsumers m)[c := b]\<rparr>, ch))"

definition IsDownloadedOrStartDownload ::
  "(DownloadsSyncMap \<Rightarrow> DownloadsSyncMap) \<Rightarrow> string \<Rightarrow> DownloadsSyncMap \<Rightarrow> DownloadsSyncMap \<times> Ticket" where
  "IsDownloadedOrStartDownload meanwhile path m =
     (case loadOrStoreDownload path m of
        (m1, c, False) \<Rightarrow> (m1, Owner c)
      | (m1, c, True) \<Rightarrow> (let (m2, ch) = subscribeDownload c (meanwhile m1) in (m2, Waiter c ch)))"

definition DownloadsDelete :: "string \<Rightarrow> DownloadsSyncMap \<Rightarrow> DownloadsSyncMap effect" where
  "DownloadsDelete path m =
     (if path = [] then PanicWith ''path can't be empty''
      else Done (m\<lparr>downloads := fmdrop path (downloads m)\<rparr>))"

section \<open>Instances\<close>

definition InvocationsQueueMaxLen :: nat where
  "InvocationsQueueMaxLen = 100"

record StartInstanceResult =
  siInstanceId :: string
  siErr :: "goerr option"

datatype TimerState = TimerPending | TimerReceived | TimerStopped

record ('q, 'rt) instanceState =
  instId :: string
  funcPath :: string
  runtime :: 'rt
  queue :: "'q list"
  queueClosed :: bool
  opened :: bool
  lastUsedTimer :: TimerState
  lastUsedTimerEnd :: int
  instanceShutdownAfter :: int
  workerCancelled :: bool
  runtimeStopped :: bool

record ('q, 'rt) InstancesStates =
  startingInstances :: "(string, nat) fmap"
  startConsumers :: "StartInstanceResult MultiConsumer list"
  instanceStates :: "(string, ('q, 'rt) instanceState) fmap"

definition NewInstanceStates :: "('q, 'rt) InstancesStates" where
  "NewInstanceStates = \<lparr>startingInstances = fmempty, startConsumers = [], instanceStates = fmempty\<rparr>"

text \<open>\<open>now\<close> is the time of the call.\<close>

definition ResetTimer :: "int \<Rightarrow> ('q, 'rt) instanceState \<Rightarrow> ('q, 'rt) instanceState effect" where
  "ResetTimer now s =
     (let resetted = (lastUsedTimer s = TimerPending);
          s' = s\<lparr>lastUsedTimer := TimerPending, lastUsedTimerEnd := now + instanceShutdownAfter s\<rparr>
      in if \<not> resetted then PanicWith ''calling ResetTimer on already triggered timer'' else Done s')"

definition AddToQueue :: "int \<Rightarrow> 'q \<Rightarrow> ('q, 'rt) instanceState \<Rightarrow> ('q, 'rt) instanceState effect" where
  "AddToQueue now req s =
     (if \<not> opened s then PanicWith ''adding request to already closed queue''
      else case ResetTimer now s of
             PanicWith msg \<Rightarrow> PanicWith msg
           | Blocked \<Rightarrow> Blocked
           | Done s' \<Rightarrow>
               (if queueClosed s' then PanicWith ''send on closed channel''
                else if InvocationsQueueMaxLen \<le> length (queue s') then Blocked
                else Done (s'\<lparr>queue := queue s' @ [req]\<rparr>)))"

definition IsStartingOrStartIt :: "string \<Rightarrow> ('q, 'rt) InstancesStates \<Rightarrow> ('q, 'rt) InstancesStates \<times> Ticket" where
  "IsStartingOrStartIt path is =
     (case fmlookup (startingInstances is) path of
        Some c \<Rightarrow>
          (let (b, ch) = AddSub (startConsumers is ! c)
           in (is\<lparr>startConsumers := (startConsumers is)[c := b]\<rparr>, Waiter c ch))
      | None \<Rightarrow>
          (let c = length (startConsumers is)
           in (is\<lparr>startConsumers := startConsumers is @ [NewMultiConsumer],
                  startingInstances := fmupd path c (startingInstances is)\<rparr>, Owner c)))"

definition RemoveStartingInstance :: "string \<Rightarrow> ('q, 'rt) InstancesStates \<Rightarrow> ('q, 'rt) InstancesStates" where
  "RemoveStartingInstance path is = is\<lparr>startingInstances := fmdrop path (startingInstances is)\<rparr>"

definition Submit ::
  "int \<Rightarrow> string \<Rightarrow> string \<Rightarrow> int \<Rightarrow> 'rt \<Rightarrow> ('q, 'rt) InstancesStates \<Rightarrow>
   ('q, 'rt) InstancesStates \<times> ('q, 'rt) instanceState" where
  "Submit now path instanceId shutdownAfter rt is =
     (let is1 = RemoveStartingInstance path is;
          state = \<lparr>instId = instanceId, funcPath = path, runtime = rt, queue = [], queueClosed = False,
                   opened = False, lastUsedTimer = TimerPending, lastUsedTimerEnd = now + shutdownAfter,
                   instanceShutdownAfter = shutdownAfter, workerCancelled = False, runtimeStopped = False\<rparr>
      in (is1\<lparr>instanceStates := fmupd instanceId state (instanceStates is1)\<rparr>, state))"

text \<open>The reported depth is a \<open>uint32\<close>.\<close>

definition QueueDepths :: "int \<Rightarrow> int \<Rightarrow> ('q, 'rt) InstancesStates \<Rightarrow> (string, uint32) fmap" where
  "QueueDepths now gracePeriod is =
     fmmap (\<lambda>s. of_nat (length (queue s)))
       (fmfilter (\<lambda>i. case fmlookup (instanceStates is) i of
                        Some s \<Rightarrow> \<not> lastUsedTimerEnd s - now < gracePeriod
                      | None \<Rightarrow> False) (instanceStates is))"

definition ActiveInstancesCount :: "('q, 'rt) InstancesStates \<Rightarrow> nat" where
  "ActiveInstancesCount is = fcard (fmdom (instanceStates is))"

text \<open>The lookup and the compare-and-swap of \<open>opened\<close>: the flag that was there.\<close>

definition InstanceState :: "string \<Rightarrow> ('q, 'rt) InstancesStates \<Rightarrow> ('q, 'rt) InstancesStates \<times> bool res" where
  "InstanceState instanceId is =
     (case fmlookup (instanceStates is) instanceId of
        None \<Rightarrow> (is, Inl ErrUnknownInstance)
      | Some s \<Rightarrow>
          (if \<not> opened s
           then (is\<lparr>instanceStates := fmupd instanceId (s\<lparr>opened := True\<rparr>) (instanceStates is)\<rparr>, Inr False)
           else (is, Inr True)))"

text \<open>Stopping closes the queue, which panics when it is closed already. The instance that the other
  goroutines still point to is the second component.\<close>

definition StopInstance ::
  "('q, 'rt) instanceState \<Rightarrow> ('q, 'rt) InstancesStates \<Rightarrow>
   (('q, 'rt) InstancesStates \<times> ('q, 'rt) instanceState) effect" where
  "StopInstance s is =
     (let s1 = s\<lparr>opened := False, workerCancelled := True\<rparr>
      in if queueClosed s1 then PanicWith ''close of closed channel''
         else Done (is\<lparr>instanceStates := fmdrop (instId s) (instanceStates is)\<rparr>,
                    s1\<lparr>queueClosed := True, lastUsedTimer := TimerStopped, runtimeStopped := True\<rparr>))"

section \<open>Broadcasting\<close>

datatype 't McOp = SubOp | SubmitOp 't

fun mcRun :: "'t McOp list \<Rightarrow> 't MultiConsumer \<Rightarrow> 't MultiConsumer effect" where
  "mcRun [] b = Done b"
| "mcRun (SubOp # ops) b = mcRun ops (fst (AddSub b))"
| "mcRun (SubmitOp r # ops) b =
     (case SubmitResult r b of
        Done b' \<Rightarrow> mcRun ops b'
      | PanicWith msg \<Rightarrow> PanicWith msg
      | Blocked \<Rightarrow> Blocked)"

abbreviation waitingChan :: "'t Chan" where
  "waitingChan \<equiv> \<lparr>buf = [], closed = False\<rparr>"

abbreviation answeredChan :: "'t \<Rightarrow> 't Chan" where
  "answeredChan r \<equiv> \<lparr>buf = [r], closed = True\<rparr>"

text \<open>
  With the set \<open>R\<close> of results submitted so far: before the first one every channel waits and is
  subscribed; afterwards every channel has been answered.
\<close>

definition mc_inv :: "'t set \<Rightarrow> 't MultiConsumer \<Rightarrow> bool" where
  "mc_inv R b \<longleftrightarrow>
     (if R = {} then \<not> hasResult b \<and> subscribers b = [0 ..< length (chans b)] \<and>
        (\<forall>c \<in> set (chans b). c = waitingChan)
      else hasResult b \<and> subscribers b = [] \<and> (\<exists>r \<in> R. result b = Some r) \<and>
        (\<forall>c \<in> set (chans b). \<exists>r \<in> R. c = answeredChan r))"

lemma submitTo_all:
  assumes "distinct ns" and "\<And>n. n \<in> set ns \<Longrightarrow> n < length cs \<and> cs ! n = waitingChan"
  shows "\<exists>cs'. submitTo r ns cs = Done cs' \<and> length cs' = length cs \<and>
    (\<forall>m < length cs. cs' ! m = (if m \<in> set ns then answeredChan r else cs ! m))"
  using assms
proof (induction ns arbitrary: cs)
  case (Cons n ns)
  let ?cs = "cs[n := answeredChan r]"
  have "\<exists>cs'. submitTo r ns ?cs = Done cs' \<and> length cs' = length ?cs \<and>
      (\<forall>m < length ?cs. cs' ! m = (if m \<in> set ns then answeredChan r else ?cs ! m))"
    using Cons.prems by (intro Cons.IH) (auto simp: nth_list_update)
  then obtain cs' where cs': "submitTo r ns ?cs = Done cs'" "length cs' = length cs"
    "\<forall>m < length cs. cs' ! m = (if m \<in> set ns then answeredChan r else ?cs ! m)" by auto
  have "sendAndClose r n cs = Done ?cs" using Cons.prems(2)[of n] by (simp add: sendAndClose_def)
  with cs' Cons.prems show ?case by (auto simp: nth_list_update)
qed simp

lemma SubmitResult_inv:
  assumes "mc_inv R b"
  shows "\<exists>b'. SubmitResult r b = Done b' \<and> mc_inv (insert r R) b' \<and> length (chans b') = length (chans b)"
proof -
  have "distinct (subscribers b)" using assms by (auto simp: mc_inv_def split: if_splits)
  moreover have "n < length (chans b) \<and> chans b ! n = waitingChan" if "n \<in> set (subscribers b)" for n
    using assms that by (auto simp: mc_inv_def split: if_splits)
  ultimately obtain cs where cs: "submitTo r (subscribers b) (chans b) = Done cs" "length cs = length (chans b)"
    "\<forall>m < length (chans b). cs ! m = (if m \<in> set (subscribers b) then answeredChan r else chans b ! m)"
    using submitTo_all[of "subscribers b" "chans b" r] by blast
  have "\<exists>r' \<in> insert r R. c = answeredChan r'" if "c \<in> set cs" for c
  proof -
    obtain m where m: "m < length (chans b)" "c = cs ! m" using \<open>c \<in> set cs\<close> cs(2) by (metis in_set_conv_nth)
    show ?thesis
    proof (cases "m \<in> set (subscribers b)")
      case False
      then have "R \<noteq> {}" using assms m(1) by (auto simp: mc_inv_def)
      with assms m False cs(3) show ?thesis by (simp add: mc_inv_def)
    qed (use m cs(3) in simp)
  qed
  with cs(1,2) show ?thesis by (simp add: SubmitResult_def mc_inv_def)
qed

lemma AddSub_inv:
  assumes "mc_inv R b"
  shows "mc_inv R (fst (AddSub b)) \<and> length (chans (fst (AddSub b))) = Suc (length (chans b))"
  using assms by (auto simp: mc_inv_def AddSub_def Let_def split: if_splits)

lemma mcRun_inv:
  assumes "mc_inv R b"
  shows "\<exists>b'. mcRun ops b = Done b' \<and> mc_inv (R \<union> {r. SubmitOp r \<in> set ops}) b' \<and>
    length (chans b') = length (chans b) + length (filter (\<lambda>op. op = SubOp) ops)"
  using assms
proof (induction ops arbitrary: R b)
  case (Cons op ops)
  show ?case
  proof (cases op)
    case SubOp
    with Cons.IH[of R "fst (AddSub b)"] AddSub_inv[OF Cons.prems] show ?thesis by auto
  next
    case (SubmitOp r)
    from SubmitResult_inv[OF Cons.prems, of r] obtain b1 where
      "SubmitResult r b = Done b1" "mc_inv (insert r R) b1" "length (chans b1) = length (chans b)" by blast
    moreover have "insert r R \<union> {r'. SubmitOp r' \<in> set ops} = R \<union> {r'. SubmitOp r' \<in> set (op # ops)}"
      using SubmitOp by auto
    ultimately show ?thesis using Cons.IH[of "insert r R" b1] SubmitOp by auto
  qed
qed simp

section \<open>Single flight\<close>

datatype StartOp = Ask string | Forget string

fun startRun :: "StartOp list \<Rightarrow> ('q, 'rt) InstancesStates \<Rightarrow> ('q, 'rt) InstancesStates" where
  "startRun [] is = is"
| "startRun (Ask p # ops) is = startRun ops (fst (IsStartingOrStartIt p is))"
| "startRun (Forget p # ops) is = startRun ops (RemoveStartingInstance p is)"

lemma startRun_keeps:
  assumes "fmlookup (startingInstances is) p = Some c" and "Forget p \<notin> set ops"
  shows "fmlookup (startingInstances (startRun ops is)) p = Some c"
  using assms
proof (induction ops arbitrary: "is")
  case (Cons op ops)
  show ?case
  proof (cases op)
    case (Ask q)
    have "fmlookup (startingInstances (fst (IsStartingOrStartIt q is))) p = Some c"
      using Cons.prems(1) by (auto simp: IsStartingOrStartIt_def Let_def split: option.splits prod.splits)
    with Cons Ask show ?thesis by simp
  next
    case (Forget q)
    with Cons show ?thesis by (simp add: RemoveStartingInstance_def)
  qed
qed simp

section \<open>Properties\<close>

text \<open>
  A broadcast reaches everyone and never hangs or panics: for every order of subscriptions and
  results, each subscriber has a channel of its own; as soon as a result was submitted, before or after
  the subscription, the channel holds exactly one result and is closed, and without any result it is
  open and empty.
\<close>

lemma broadcast_reaches_everyone:
  fixes ops :: "'t McOp list"
  shows "\<exists>b. mcRun ops NewMultiConsumer = Done b \<and>
    length (chans b) = length (filter (\<lambda>op. op = SubOp) ops) \<and>
    (if \<exists>r. SubmitOp r \<in> set ops
     then set (chans b) \<subseteq> {\<lparr>buf = [r], closed = True\<rparr> | r. SubmitOp r \<in> set ops}
     else set (chans b) \<subseteq> {\<lparr>buf = [], closed = False\<rparr>})"
proof -
  have "mc_inv {} (NewMultiConsumer :: 't MultiConsumer)" by (simp add: mc_inv_def NewMultiConsumer_def)
  from mcRun_inv[OF this, of ops] obtain b where
    b: "mcRun ops NewMultiConsumer = Done b" "mc_inv {r. SubmitOp r \<in> set ops} b"
      "length (chans b) = length (filter (\<lambda>op. op = SubOp) ops)"
    by (auto simp: NewMultiConsumer_def)
  then show ?thesis by (auto simp: mc_inv_def split: if_splits)
qed

text \<open>
  A binary is started by one goroutine at a time: once a goroutine owns the start of a path, all
  others that ask for that path wait on channels of the same consumer until the owner takes the path
  off the list, whatever happens to other paths in between.
\<close>

lemma start_single_flight:
  assumes "IsStartingOrStartIt p is = (is1, t)" and "Forget p \<notin> set ops"
  shows "\<exists>c. (t = Owner c \<or> (\<exists>ch. t = Waiter c ch)) \<and>
    (\<exists>ch. snd (IsStartingOrStartIt p (startRun ops is1)) = Waiter c ch)"
proof -
  have "\<exists>c. (t = Owner c \<or> (\<exists>ch. t = Waiter c ch)) \<and> fmlookup (startingInstances is1) p = Some c"
    using assms(1) by (auto simp: IsStartingOrStartIt_def Let_def split: option.splits prod.splits)
  then obtain c where c: "t = Owner c \<or> (\<exists>ch. t = Waiter c ch)" "fmlookup (startingInstances is1) p = Some c" by blast
  have "\<exists>ch. snd (IsStartingOrStartIt p (startRun ops is1)) = Waiter c ch"
    using startRun_keeps[OF c(2) assms(2)] by (simp add: IsStartingOrStartIt_def split: prod.splits)
  with c(1) show ?thesis by blast
qed

definition queues_bounded :: "('q, 'rt) InstancesStates \<Rightarrow> bool" where
  "queues_bounded is \<longleftrightarrow> (\<forall>i s. fmlookup (instanceStates is) i = Some s \<longrightarrow> length (queue s) \<le> InvocationsQueueMaxLen)"

lemma AddToQueue_bounded:
  assumes "AddToQueue now req s = Done s'"
  shows "length (queue s') \<le> InvocationsQueueMaxLen" and "queue s' = queue s @ [req]"
  using assms by (auto simp: AddToQueue_def ResetTimer_def Let_def split: if_splits)

text \<open>
  what a heartbeat reports: exactly the registered instances that live on for at least the grace
  period, each with the length of its queue; the conversion to 32 bits loses nothing, because a queue
  never has more than a hundred requests.
\<close>

lemma QueueDepths_exact:
  assumes "queues_bounded is"
  shows "(fmlookup (QueueDepths now grace is) i \<noteq> None \<longleftrightarrow>
      (\<exists>s. fmlookup (instanceStates is) i = Some s \<and> grace \<le> lastUsedTimerEnd s - now)) \<and>
    (\<forall>d. fmlookup (QueueDepths now grace is) i = Some d \<longrightarrow>
      (\<exists>s. fmlookup (instanceStates is) i = Some s \<and> unat d = length (queue s)))"
proof (cases "fmlookup (instanceStates is) i")
  case None
  then show ?thesis by (simp add: QueueDepths_def)
next
  case (Some s)
  have "length (queue s) \<le> 100" using assms Some by (auto simp: queues_bounded_def InvocationsQueueMaxLen_def)
  then have "unat (of_nat (length (queue s)) :: uint32) = length (queue s)" by (simp add: unat_of_nat)
  with Some show ?thesis by (auto simp: QueueDepths_def)
qed

end
