(* ===== verification/RunnerFlights.thy ===== *)
theory RunnerFlights
  imports RunnerInstances
begin

text \<open>
  Work in flight. Downloads and starts of instances follow the same protocol (\<open>pkg/runner/grpc.go\<close>,
  \<open>pkg/runner/instances.go\<close>): the first handler that asks for a path owns the work, the others subscribe to
  its consumer; the owner takes the path off the map and then submits the result. Each of these accesses
  is a step of its own, so that a handler may find a path, and subscribe only after the owner is done.
  The locale \<open>single_flight\<close> states what the protocol needs of the two maps, and both are instances of it:
  for every interleaving of handlers no step panics or blocks and everyone gets the owner's result. In
  the map of starting instances finding a path and subscribing happen under one lock; its runs are among
  those of the finer steps.
\<close>

section \<open>Effects\<close>

definition bindE :: "'a effect \<Rightarrow> ('a \<Rightarrow> 'b effect) \<Rightarrow> 'b effect" where
  "bindE m f = (case m of Done x \<Rightarrow> f x | PanicWith msg \<Rightarrow> PanicWith msg | Blocked \<Rightarrow> Blocked)"

lemma bindE_simps [simp]:
  "bindE (Done x) f = f x" "bindE (PanicWith msg) f = PanicWith msg" "bindE Blocked f = Blocked"
  by (simp_all add: bindE_def)

definition assertE :: "bool \<Rightarrow> string \<Rightarrow> 'a effect \<Rightarrow> 'a effect" where
  "assertE c msg k = (if c then k else PanicWith msg)"

lemma assertE_simps [simp]: "assertE True msg k = k" "assertE False msg k = PanicWith msg"
  by (simp_all add: assertE_def)

section \<open>Submitting\<close>

definition submitStart ::
  "nat \<Rightarrow> StartInstanceResult \<Rightarrow> ('q, 'rt) InstancesStates \<Rightarrow> ('q, 'rt) InstancesStates effect" where
  "submitStart c res is =
     bindE (SubmitResult res (startConsumers is ! c))
       (\<lambda>b. Done (is\<lparr>startConsumers := (startConsumers is)[c := b]\<rparr>))"

definition submitDownload :: "nat \<Rightarrow> DownloadResult \<Rightarrow> DownloadsSyncMap \<Rightarrow> DownloadsSyncMap effect" where
  "submitDownload c res m =
     bindE (SubmitResult res (dlConsumers m ! c)) (\<lambda>b. Done (m\<lparr>dlConsumers := (dlConsumers m)[c := b]\<rparr>))"

text \<open>
  How the owner of a download and of a start end. A start that succeeded registers the instance. The
  map is left before the result is submitted; \<open>meanwhile\<close> is what other handlers do between the two.
\<close>

definition finishDownload ::
  "(DownloadsSyncMap \<Rightarrow> DownloadsSyncMap) \<Rightarrow> string \<Rightarrow> nat \<Rightarrow> DownloadResult \<Rightarrow> DownloadsSyncMap \<Rightarrow>
   DownloadsSyncMap effect" where
  "finishDownload meanwhile path c res m =
     bindE (DownloadsDelete path m) (\<lambda>m1. submitDownload c res (meanwhile m1))"

definition leaveStarting ::
  "int \<Rightarrow> int \<Rightarrow> 'rt \<Rightarrow> StartInstanceResult \<Rightarrow> string \<Rightarrow> ('q, 'rt) InstancesStates \<Rightarrow> ('q, 'rt) InstancesStates" where
  "leaveStarting now shutdownAfter rt res path is =
     (case siErr res of
        Some err \<Rightarrow> RemoveStartingInstance path is
      | None \<Rightarrow> fst (Submit now path (siInstanceId res) shutdownAfter rt is))"

definition finishStart ::
  "(('q, 'rt) InstancesStates \<Rightarrow> ('q, 'rt) InstancesStates) \<Rightarrow> int \<Rightarrow> int \<Rightarrow> 'rt \<Rightarrow> string \<Rightarrow> nat \<Rightarrow>
   StartInstanceResult \<Rightarrow> ('q, 'rt) InstancesStates \<Rightarrow> ('q, 'rt) InstancesStates effect" where
  "finishStart meanwhile now shutdownAfter rt path c res is =
     submitStart c res (meanwhile (leaveStarting now shutdownAfter rt res path is))"

text \<open>The two halves of \<open>IsStartingOrStartIt\<close>.\<close>

definition loadOrStoreStarting :: "string \<Rightarrow> ('q, 'rt) InstancesStates \<Rightarrow> ('q, 'rt) InstancesStates \<times> nat \<times> bool" where
  "loadOrStoreStarting path is =
     (case fmlookup (startingInstances is) path of
        None \<Rightarrow>
          (let c = length (startConsumers is)
           in (is\<lparr>startingInstances := fmupd path c (startingInstances is),
                 startConsumers := startConsumers is @ [NewMultiConsumer]\<rparr>, c, False))
      | Some c \<Rightarrow> (is, c, True))"

definition subscribeStarting :: "nat \<Rightarrow> ('q, 'rt) InstancesStates \<Rightarrow> ('q, 'rt) InstancesStates \<times> nat" where
  "subscribeStarting c is =
     (let (b, ch) = AddSub (startConsumers is ! c) in (is\<lparr>startConsumers := (startConsumers is)[c := b]\<rparr>, ch))"

lemma IsStartingOrStartIt_halves:
  "IsStartingOrStartIt path is =
     (case loadOrStoreStarting path is of
        (is1, c, False) \<Rightarrow> (is1, Owner c)
      | (is1, c, True) \<Rightarrow> (let (is2, ch) = subscribeStarting c is1 in (is2, Waiter c ch)))"
  by (simp add: IsStartingOrStartIt_def loadOrStoreStarting_def subscribeStarting_def Let_def split: option.splits prod.splits)

section \<open>The protocol\<close>

text \<open>
  Where a handler is. A handler that waits has a channel of the consumer and gets the value that is in it;
  nobody else reads that channel.
\<close>

datatype 't FlightPc =
    Asking string
  | Owning string nat
  | Joining string nat
  | Left string nat 't
  | Submitted string nat 't
  | Awaiting string nat nat
  | Got string nat 't

fun flightPath :: "'t FlightPc \<Rightarrow> string" where
  "flightPath (Asking p) = p"
| "flightPath (Owning p c) = p"
| "flightPath (Joining p c) = p"
| "flightPath (Left p c r) = p"
| "flightPath (Submitted p c r) = p"
| "flightPath (Awaiting p c ch) = p"
| "flightPath (Got p c r) = p"

fun flightNo :: "'t FlightPc \<Rightarrow> nat option" where
  "flightNo (Asking p) = None"
| "flightNo (Owning p c) = Some c"
| "flightNo (Joining p c) = Some c"
| "flightNo (Left p c r) = Some c"
| "flightNo (Submitted p c r) = Some c"
| "flightNo (Awaiting p c ch) = Some c"
| "flightNo (Got p c r) = Some c"

fun ownsFlight :: "'t FlightPc \<Rightarrow> bool" where
  "ownsFlight (Owning p c) = True"
| "ownsFlight (Left p c r) = True"
| "ownsFlight (Submitted p c r) = True"
| "ownsFlight _ = False"

locale single_flight =
  fixes pending :: "'s \<Rightarrow> (string, nat) fmap"
    and consumers :: "'s \<Rightarrow> 't MultiConsumer list"
    and lookup :: "string \<Rightarrow> 's \<Rightarrow> 's \<times> nat \<times> bool"
    and subscribe :: "nat \<Rightarrow> 's \<Rightarrow> 's \<times> nat"
    and leave :: "'t \<Rightarrow> string \<Rightarrow> 's \<Rightarrow> 's effect"
    and submit :: "nat \<Rightarrow> 't \<Rightarrow> 's \<Rightarrow> 's effect"
    and valid :: "string \<Rightarrow> bool"
  assumes lookup_first: "fmlookup (pending s) p = None \<Longrightarrow>
      \<exists>s'. lookup p s = (s', length (consumers s), False) \<and>
        pending s' = fmupd p (length (consumers s)) (pending s) \<and> consumers s' = consumers s @ [NewMultiConsumer]"
    and lookup_again: "fmlookup (pending s) p = Some c \<Longrightarrow> lookup p s = (s, c, True)"
    and subscribe_adds: "\<exists>s'. subscribe c s = (s', snd (AddSub (consumers s ! c))) \<and> pending s' = pending s \<and>
      consumers s' = (consumers s)[c := fst (AddSub (consumers s ! c))]"
    and leave_drops: "valid p \<Longrightarrow> \<exists>s'. leave r p s = Done s' \<and> pending s' = fmdrop p (pending s) \<and> consumers s' = consumers s"
    and submit_stores: "SubmitResult r (consumers s ! c) = Done b \<Longrightarrow>
      \<exists>s'. submit c r s = Done s' \<and> pending s' = pending s \<and> consumers s' = (consumers s)[c := b]"
begin

text \<open>A step of handler \<open>i\<close>; \<open>r\<close> is what the work of an owner gives. A handler that has to wait, or is done, has none.\<close>

definition flightStep :: "nat \<Rightarrow> 't \<Rightarrow> 's \<times> 't FlightPc list \<Rightarrow> ('s \<times> 't FlightPc list) effect option" where
  "flightStep i r st =
     (case st of (s, pcs) \<Rightarrow>
        if length pcs \<le> i then None
        else case pcs ! i of
          Asking p \<Rightarrow>
            (case lookup p s of (s', c, loaded) \<Rightarrow>
               Some (Done (s', pcs[i := if loaded then Joining p c else Owning p c])))
        | Joining p c \<Rightarrow> (case subscribe c s of (s', ch) \<Rightarrow> Some (Done (s', pcs[i := Awaiting p c ch])))
        | Owning p c \<Rightarrow> Some (bindE (leave r p s) (\<lambda>s'. Done (s', pcs[i := Left p c r])))
        | Left p c x \<Rightarrow> Some (bindE (submit c x s) (\<lambda>s'. Done (s', pcs[i := Submitted p c x])))
        | Awaiting p c ch \<Rightarrow>
            (case buf (chans (consumers s ! c) ! ch) of
               [] \<Rightarrow> None
             | x # _ \<Rightarrow> Some (Done (s, pcs[i := Got p c x])))
        | _ \<Rightarrow> None)"

text \<open>A schedule says who moves; a handler that cannot move does nothing.\<close>

fun flightRun :: "(nat \<times> 't) list \<Rightarrow> 's \<times> 't FlightPc list \<Rightarrow> ('s \<times> 't FlightPc list) effect" where
  "flightRun [] st = Done st"
| "flightRun ((i, r) # sched) st =
     (case flightStep i r st of
        None \<Rightarrow> flightRun sched st
      | Some e \<Rightarrow> bindE e (flightRun sched))"

text \<open>
  Who is on a flight has an owner of the same path, and only one; the paths in the map are those whose
  owner still works; a consumer has the result as soon as its owner has submitted it, and not before;
  every waiting handler has a channel of its own.
\<close>

definition pcOk :: "'t MultiConsumer list \<Rightarrow> 't FlightPc \<Rightarrow> bool" where
  "pcOk cs pc \<longleftrightarrow>
     (case pc of
        Owning p c \<Rightarrow> mc_inv {} (cs ! c)
      | Left p c r \<Rightarrow> mc_inv {} (cs ! c)
      | Submitted p c r \<Rightarrow> mc_inv {r} (cs ! c)
      | Awaiting p c ch \<Rightarrow> ch < length (chans (cs ! c))
      | Got p c r \<Rightarrow> mc_inv {r} (cs ! c)
      | _ \<Rightarrow> True)"

definition flying :: "'s \<times> 't FlightPc list \<Rightarrow> bool" where
  "flying st \<longleftrightarrow> (case st of (s, pcs) \<Rightarrow>
     (\<forall>p c. fmlookup (pending s) p = Some c \<longleftrightarrow> (\<exists>k < length pcs. pcs ! k = Owning p c)) \<and>
     (\<forall>k < length pcs. \<forall>c. flightNo (pcs ! k) = Some c \<longrightarrow> c < length (consumers s) \<and>
        (\<exists>j < length pcs. ownsFlight (pcs ! j) \<and> flightNo (pcs ! j) = Some c \<and>
          flightPath (pcs ! j) = flightPath (pcs ! k))) \<and>
     (\<forall>j < length pcs. \<forall>k < length pcs. ownsFlight (pcs ! j) \<and> ownsFlight (pcs ! k) \<and>
        flightNo (pcs ! j) = flightNo (pcs ! k) \<longrightarrow> j = k) \<and>
     (\<forall>k < length pcs. pcOk (consumers s) (pcs ! k)) \<and>
     (\<forall>j < length pcs. \<forall>k < length pcs. \<forall>p q c ch. pcs ! j = Awaiting p c ch \<and> pcs ! k = Awaiting q c ch \<longrightarrow> j = k) \<and>
     (\<forall>k < length pcs. valid (flightPath (pcs ! k))))"

lemma flyingD:
  assumes "flying (s, pcs)"
  shows "fmlookup (pending s) p = Some c \<longleftrightarrow> (\<exists>k < length pcs. pcs ! k = Owning p c)"
    and "k < length pcs \<Longrightarrow> flightNo (pcs ! k) = Some c \<Longrightarrow> c < length (consumers s)"
    and "k < length pcs \<Longrightarrow> flightNo (pcs ! k) = Some c \<Longrightarrow> \<exists>j < length pcs. ownsFlight (pcs ! j) \<and>
      flightNo (pcs ! j) = Some c \<and> flightPath (pcs ! j) = flightPath (pcs ! k)"
    and "j < length pcs \<Longrightarrow> k < length pcs \<Longrightarrow> ownsFlight (pcs ! j) \<Longrightarrow> ownsFlight (pcs ! k) \<Longrightarrow>
      flightNo (pcs ! j) = flightNo (pcs ! k) \<Longrightarrow> j = k"
    and "k < length pcs \<Longrightarrow> pcOk (consumers s) (pcs ! k)"
    and "j < length pcs \<Longrightarrow> k < length pcs \<Longrightarrow> pcs ! j = Awaiting p c ch \<Longrightarrow> pcs ! k = Awaiting q c ch \<Longrightarrow> j = k"
    and "k < length pcs \<Longrightarrow> valid (flightPath (pcs ! k))"
  using assms unfolding flying_def split_conv by metis+

text \<open>A handler moves from one place of its flight to another: owners stay owners.\<close>

lemma flying_move:
  assumes "flying (s, pcs)" and "i < length pcs" and "flightNo (pcs ! i) = Some c" and "flightNo pc = Some c"
    and "flightPath pc = flightPath (pcs ! i)" and "ownsFlight pc = ownsFlight (pcs ! i)"
    and "length (consumers s') = length (consumers s)"
    and "\<And>p d. fmlookup (pending s') p = Some d \<longleftrightarrow> (\<exists>k < length pcs. pcs[i := pc] ! k = Owning p d)"
    and "\<And>k. k < length pcs \<Longrightarrow> pcOk (consumers s') (pcs[i := pc] ! k)"
    and "\<And>k p q d ch. k < length pcs \<Longrightarrow> pc = Awaiting p d ch \<Longrightarrow> pcs ! k = Awaiting q d ch \<Longrightarrow> k = i"
  shows "flying (s', pcs[i := pc])"
proof -
  have no: "flightNo (pcs[i := pc] ! k) = flightNo (pcs ! k)" and path: "flightPath (pcs[i := pc] ! k) = flightPath (pcs ! k)"
    and own: "ownsFlight (pcs[i := pc] ! k) = ownsFlight (pcs ! k)" for k
    using assms(2-6) by (cases "k = i"; simp)+
  show ?thesis
    unfolding flying_def split_conv length_list_update no path own
  proof (intro conjI allI impI)
    fix j k p q d ch
    assume jk: "j < length pcs" "k < length pcs" "pcs[i := pc] ! j = Awaiting p d ch \<and> pcs[i := pc] ! k = Awaiting q d ch"
    consider "j \<noteq> i" "k \<noteq> i" | "j = i" "k \<noteq> i" | "j \<noteq> i" "k = i" | "j = k" by blast
    then show "j = k"
    proof cases
      case 1
      then show ?thesis using flyingD(6)[OF assms(1) jk(1,2), of p d ch q] jk(3) by simp
    next
      case 2
      then have "pc = Awaiting p d ch" "pcs ! k = Awaiting q d ch" using jk(3) assms(2) by simp_all
      then show ?thesis using assms(10)[OF jk(2)] 2 by blast
    next
      case 3
      then have "pc = Awaiting q d ch" "pcs ! j = Awaiting p d ch" using jk(3) assms(2) by simp_all
      then show ?thesis using assms(10)[OF jk(1)] 3 by blast
    qed
  qed (use assms(7-9) flyingD[OF assms(1)] in simp_all)
qed

lemma mc_inv_unique: "mc_inv {r} b \<Longrightarrow> mc_inv {r'} b \<Longrightarrow> r = r'" "mc_inv {r} b \<Longrightarrow> \<not> mc_inv {} b"
  by (auto simp: mc_inv_def)

lemma pcOk_subscribe:
  assumes "pcOk cs pc" and "c < length cs"
  shows "pcOk (cs[c := fst (AddSub (cs ! c))]) pc"
proof -
  have "mc_inv R (cs[c := fst (AddSub (cs ! c))] ! d)" if "mc_inv R (cs ! d)" for R d
    using that AddSub_inv[OF that] assms(2) by (simp add: nth_list_update)
  moreover have "length (chans (cs ! d)) \<le> length (chans (cs[c := fst (AddSub (cs ! c))] ! d))" for d
    using assms(2) by (simp add: nth_list_update AddSub_def Let_def)
  ultimately show ?thesis using assms(1) by (auto simp: pcOk_def split: FlightPc.splits intro: less_le_trans)
qed

lemma pcOk_submit:
  assumes "pcOk cs pc" and "c < length cs" and "mc_inv {} (cs ! c)" and "length (chans b) = length (chans (cs ! c))"
    and "ownsFlight pc \<Longrightarrow> flightNo pc \<noteq> Some c"
  shows "pcOk (cs[c := b]) pc"
proof (cases pc)
  case (Got p d r)
  then have "d \<noteq> c" using assms(1,3) mc_inv_unique(2)[of r "cs ! c"] by (auto simp: pcOk_def)
  then show ?thesis using assms(1) Got by (simp add: pcOk_def)
qed (use assms in \<open>auto simp: pcOk_def nth_list_update\<close>)

lemma owning_update:
  assumes "i < length pcs" and "pcs ! i \<noteq> Owning q d"
  shows "(\<exists>k < length pcs. pcs[i := pc] ! k = Owning q d) \<longleftrightarrow> pc = Owning q d \<or> (\<exists>k < length pcs. pcs ! k = Owning q d)"
  using assms by (metis nth_list_update_eq nth_list_update_neq)

text \<open>The five kinds of steps.\<close>

lemma ask_flying:
  assumes "flying (s, pcs)" and "i < length pcs" and "pcs ! i = Asking p"
  shows "\<exists>s' c loaded. lookup p s = (s', c, loaded) \<and> flying (s', pcs[i := if loaded then Joining p c else Owning p c])"
proof (cases "fmlookup (pending s) p")
  case None
  let ?c = "length (consumers s)" and ?pcs = "pcs[i := Owning p (length (consumers s))]"
  obtain s' where s': "lookup p s = (s', ?c, False)" "pending s' = fmupd p ?c (pending s)"
    "consumers s' = consumers s @ [NewMultiConsumer]" using lookup_first[OF None] by blast
  have new: "mc_inv {} (NewMultiConsumer :: 't MultiConsumer)" by (simp add: mc_inv_def NewMultiConsumer_def)
  have old: "d < ?c" if "k < length pcs" "flightNo (pcs ! k) = Some d" for k d using flyingD(2)[OF assms(1) that] .
  have ok: "pcOk (consumers s') (pcs ! k)" if "k < length pcs" for k
    using flyingD(5)[OF assms(1) that] old[OF that]
    by (auto simp: pcOk_def s'(3) nth_append split: FlightPc.splits)
  have "flying (s', ?pcs)"
    unfolding flying_def split_conv length_list_update
  proof (intro conjI allI impI)
    fix q d
    show "fmlookup (pending s') q = Some d \<longleftrightarrow> (\<exists>k < length pcs. ?pcs ! k = Owning q d)"
      using flyingD(1)[OF assms(1), of q d] owning_update[OF assms(2), of q d "Owning p ?c"] assms(3) None s'(2) by auto
  next
    fix k d assume k: "k < length pcs" "flightNo (?pcs ! k) = Some d"
    show "d < length (consumers s')"
      using k assms(2) old[of k d] s'(3) by (cases "k = i") auto
    show "\<exists>j < length pcs. ownsFlight (?pcs ! j) \<and> flightNo (?pcs ! j) = Some d \<and> flightPath (?pcs ! j) = flightPath (?pcs ! k)"
    proof (cases "k = i")
      case True
      then show ?thesis using k assms(2) by (intro exI[of _ i]) simp
    next
      case False
      then obtain j where j: "j < length pcs" "ownsFlight (pcs ! j)" "flightNo (pcs ! j) = Some d"
        "flightPath (pcs ! j) = flightPath (pcs ! k)" using flyingD(3)[OF assms(1) k(1), of d] k(2) by auto
      moreover have "j \<noteq> i" using j(2) assms(3) by auto
      ultimately show ?thesis using False by (intro exI[of _ j]) simp
    qed
  next
    fix j k assume jk: "j < length pcs" "k < length pcs"
      "ownsFlight (?pcs ! j) \<and> ownsFlight (?pcs ! k) \<and> flightNo (?pcs ! j) = flightNo (?pcs ! k)"
    then show "j = k"
      using flyingD(4)[OF assms(1) jk(1,2)] old[OF jk(1), of ?c] old[OF jk(2), of ?c] assms(2)
      by (cases "j = i"; cases "k = i") auto
  next
    fix k assume "k < length pcs"
    then show "pcOk (consumers s') (?pcs ! k)"
      using ok assms(2) new by (cases "k = i") (simp_all add: pcOk_def s'(3))
  next
    fix j k q q' d ch
    assume jk: "j < length pcs" "k < length pcs" "?pcs ! j = Awaiting q d ch \<and> ?pcs ! k = Awaiting q' d ch"
    then show "j = k" using flyingD(6)[OF assms(1) jk(1,2)] assms(2) by (cases "j = i"; cases "k = i") auto
  next
    fix k assume "k < length pcs"
    then show "valid (flightPath (?pcs ! k))"
      using flyingD(7)[OF assms(1), of k] assms(2,3) by (cases "k = i") simp_all
  qed
  with s'(1) show ?thesis by (intro exI[of _ s'] exI[of _ ?c] exI[of _ False]) simp
next
  case (Some c)
  then obtain k where k: "k < length pcs" "pcs ! k = Owning p c" using flyingD(1)[OF assms(1), of p c] by blast
  have c: "c < length (consumers s)" using flyingD(2)[OF assms(1) k(1)] k(2) by simp
  have ki: "k \<noteq> i" using k assms(3) by auto
  let ?pcs = "pcs[i := Joining p c]"
  have own: "ownsFlight (?pcs ! j) = ownsFlight (pcs ! j)" for j using assms(2,3) by (cases "j = i") simp_all
  have path: "flightPath (?pcs ! j) = flightPath (pcs ! j)" for j using assms(2,3) by (cases "j = i") simp_all
  have no: "ownsFlight (pcs ! j) \<Longrightarrow> flightNo (?pcs ! j) = flightNo (pcs ! j)" for j using assms(2,3) by (cases "j = i") simp_all
  have "flying (s, ?pcs)"
    unfolding flying_def split_conv length_list_update own path
  proof (intro conjI allI impI)
    fix q d
    show "fmlookup (pending s) q = Some d \<longleftrightarrow> (\<exists>k < length pcs. ?pcs ! k = Owning q d)"
      using flyingD(1)[OF assms(1), of q d] owning_update[OF assms(2), of q d "Joining p c"] assms(3) by simp
  next
    fix m d assume m: "m < length pcs" "flightNo (?pcs ! m) = Some d"
    show "d < length (consumers s)" using flyingD(2)[OF assms(1) m(1), of d] m assms(2) c by (cases "m = i") simp_all
    show "\<exists>j < length pcs. ownsFlight (pcs ! j) \<and> flightNo (?pcs ! j) = Some d \<and> flightPath (pcs ! j) = flightPath (pcs ! m)"
    proof (cases "m = i")
      case True
      then show ?thesis using m assms(2,3) k ki by (intro exI[of _ k]) simp
    next
      case False
      then show ?thesis using flyingD(3)[OF assms(1) m(1), of d] m(2) no by auto
    qed
  next
    fix j m assume "j < length pcs" "m < length pcs"
      "ownsFlight (pcs ! j) \<and> ownsFlight (pcs ! m) \<and> flightNo (?pcs ! j) = flightNo (?pcs ! m)"
    then show "j = m" using flyingD(4)[OF assms(1), of j m] no by auto
  next
    fix m assume "m < length pcs"
    then show "pcOk (consumers s) (?pcs ! m)"
      using flyingD(5)[OF assms(1)] assms(2) by (cases "m = i") (simp_all add: pcOk_def)
  next
    fix j m q q' d ch
    assume jm: "j < length pcs" "m < length pcs" "?pcs ! j = Awaiting q d ch \<and> ?pcs ! m = Awaiting q' d ch"
    then show "j = m" using flyingD(6)[OF assms(1) jm(1,2)] assms(2) by (cases "j = i"; cases "m = i") auto
  qed (use flyingD(7)[OF assms(1)] in simp)
  with lookup_again[OF Some] show ?thesis by (intro exI[of _ s] exI[of _ c] exI[of _ True]) simp
qed

lemma join_flying:
  assumes "flying (s, pcs)" and "i < length pcs" and "pcs ! i = Joining p c"
  shows "\<exists>s' ch. subscribe c s = (s', ch) \<and> flying (s', pcs[i := Awaiting p c ch])"
proof -
  let ?ch = "snd (AddSub (consumers s ! c))"
  obtain s' where s': "subscribe c s = (s', ?ch)" "pending s' = pending s"
    "consumers s' = (consumers s)[c := fst (AddSub (consumers s ! c))]" using subscribe_adds by blast
  have c: "c < length (consumers s)" using flyingD(2)[OF assms(1,2)] assms(3) by simp
  have ch: "?ch = length (chans (consumers s ! c))" by (simp add: AddSub_def Let_def)
  have "flying (s', pcs[i := Awaiting p c ?ch])"
  proof (rule flying_move[OF assms(1,2)])
    show "fmlookup (pending s') q = Some d \<longleftrightarrow> (\<exists>k < length pcs. pcs[i := Awaiting p c ?ch] ! k = Owning q d)" for q d
      using flyingD(1)[OF assms(1), of q d] owning_update[OF assms(2), of q d "Awaiting p c ?ch"] assms(3) s'(2) by simp
    show "pcOk (consumers s') (pcs[i := Awaiting p c ?ch] ! k)" if "k < length pcs" for k
      using pcOk_subscribe[OF flyingD(5)[OF assms(1) that] c] assms(2) c s'(3)
      by (cases "k = i") (simp_all add: pcOk_def AddSub_def Let_def)
    show "k = i" if "k < length pcs" "Awaiting p c ?ch = Awaiting q d x" "pcs ! k = Awaiting q' d x" for k q q' d x
      using flyingD(5)[OF assms(1) that(1)] that(2,3) ch by (auto simp: pcOk_def)
  qed (simp_all add: assms(3) s'(3))
  with s'(1) show ?thesis by blast
qed

lemma leave_flying:
  assumes "flying (s, pcs)" and "i < length pcs" and "pcs ! i = Owning p c"
  shows "\<exists>s'. leave r p s = Done s' \<and> flying (s', pcs[i := Left p c r])"
proof -
  have "valid p" using flyingD(7)[OF assms(1,2)] assms(3) by simp
  then obtain s' where s': "leave r p s = Done s'" "pending s' = fmdrop p (pending s)" "consumers s' = consumers s"
    using leave_drops by blast
  have pc: "fmlookup (pending s) p = Some c" using flyingD(1)[OF assms(1), of p c] assms(2,3) by blast
  have "flying (s', pcs[i := Left p c r])"
  proof (rule flying_move[OF assms(1,2)])
    fix q d
    show "fmlookup (pending s') q = Some d \<longleftrightarrow> (\<exists>k < length pcs. pcs[i := Left p c r] ! k = Owning q d)"
    proof (cases "q = p")
      case True
      have "\<not> (pcs[i := Left p c r] ! k = Owning p d \<and> k < length pcs)" for k
      proof
        assume k: "pcs[i := Left p c r] ! k = Owning p d \<and> k < length pcs"
        then have "k \<noteq> i" "pcs ! k = Owning p d" using assms(2) by (cases "k = i"; simp)+
        moreover from this k have "d = c" using flyingD(1)[OF assms(1), of p d] pc by (metis option.inject)
        ultimately show False using flyingD(4)[OF assms(1), of k i] k assms(2,3) by simp
      qed
      then show ?thesis using True s'(2) by auto
    next
      case False
      then show ?thesis
        using flyingD(1)[OF assms(1), of q d] owning_update[OF assms(2), of q d "Left p c r"] assms(3) s'(2) by simp
    qed
  next
    show "pcOk (consumers s') (pcs[i := Left p c r] ! k)" if "k < length pcs" for k
      using flyingD(5)[OF assms(1) that] assms(2,3) s'(3) by (cases "k = i") (simp_all add: pcOk_def)
  qed (simp_all add: assms(3) s'(3))
  with s'(1) show ?thesis by blast
qed

lemma submit_flying:
  assumes "flying (s, pcs)" and "i < length pcs" and "pcs ! i = Left p c r"
  shows "\<exists>s'. submit c r s = Done s' \<and> flying (s', pcs[i := Submitted p c r])"
proof -
  have c: "c < length (consumers s)" using flyingD(2)[OF assms(1,2)] assms(3) by simp
  have e: "mc_inv {} (consumers s ! c)" using flyingD(5)[OF assms(1,2)] assms(3) by (simp add: pcOk_def)
  obtain b where b: "SubmitResult r (consumers s ! c) = Done b" "mc_inv {r} b"
    "length (chans b) = length (chans (consumers s ! c))" using SubmitResult_inv[OF e] by blast
  obtain s' where s': "submit c r s = Done s'" "pending s' = pending s" "consumers s' = (consumers s)[c := b]"
    using submit_stores[OF b(1)] by blast
  have "flying (s', pcs[i := Submitted p c r])"
  proof (rule flying_move[OF assms(1,2)])
    show "fmlookup (pending s') q = Some d \<longleftrightarrow> (\<exists>k < length pcs. pcs[i := Submitted p c r] ! k = Owning q d)" for q d
      using flyingD(1)[OF assms(1), of q d] owning_update[OF assms(2), of q d "Submitted p c r"] assms(3) s'(2) by simp
    show "pcOk (consumers s') (pcs[i := Submitted p c r] ! k)" if "k < length pcs" for k
    proof (cases "k = i")
      case True
      then show ?thesis using assms(2) s'(3) b(2) c by (simp add: pcOk_def)
    next
      case False
      have "flightNo (pcs ! k) \<noteq> Some c" if "ownsFlight (pcs ! k)"
        using flyingD(4)[OF assms(1) \<open>k < length pcs\<close> assms(2) that] assms(3) False by auto
      then show ?thesis
        using pcOk_submit[OF flyingD(5)[OF assms(1) \<open>k < length pcs\<close>] c e b(3)] False s'(3) by simp
    qed
  qed (simp_all add: assms(3) s'(3))
  with s'(1) show ?thesis by blast
qed

text \<open>What is in the channel of a waiting handler: the result of the owner if there is one.\<close>

lemma awaited_chan:
  assumes "flying (s, pcs)" and "i < length pcs" and "pcs ! i = Awaiting p c ch"
  shows "\<exists>k < length pcs. (pcs ! k = Owning p c \<or> (\<exists>r. pcs ! k = Left p c r)) \<and> chans (consumers s ! c) ! ch = waitingChan \<or>
    (\<exists>r. pcs ! k = Submitted p c r \<and> chans (consumers s ! c) ! ch = answeredChan r)"
proof -
  have "ch < length (chans (consumers s ! c))" using flyingD(5)[OF assms(1,2)] assms(3) by (simp add: pcOk_def)
  then have ch: "chans (consumers s ! c) ! ch \<in> set (chans (consumers s ! c))" by simp
  obtain k where k: "k < length pcs" "ownsFlight (pcs ! k)" "flightNo (pcs ! k) = Some c" "flightPath (pcs ! k) = p"
    using flyingD(3)[OF assms(1,2), of c] assms(3) by auto
  then show ?thesis
    using flyingD(5)[OF assms(1) k(1)] ch by (intro exI[of _ k]) (cases "pcs ! k"; auto simp: pcOk_def mc_inv_def)
qed

lemma get_flying:
  assumes "flying (s, pcs)" and "i < length pcs" and "pcs ! i = Awaiting p c ch"
    and "buf (chans (consumers s ! c) ! ch) = x # xs"
  shows "flying (s, pcs[i := Got p c x])"
proof -
  obtain k where k: "k < length pcs" "pcs ! k = Submitted p c x"
    using awaited_chan[OF assms(1-3)] assms(4) by auto
  show ?thesis
  proof (rule flying_move[OF assms(1,2)])
    show "fmlookup (pending s) q = Some d \<longleftrightarrow> (\<exists>k < length pcs. pcs[i := Got p c x] ! k = Owning q d)" for q d
      using flyingD(1)[OF assms(1), of q d] owning_update[OF assms(2), of q d "Got p c x"] assms(3) by simp
    show "pcOk (consumers s) (pcs[i := Got p c x] ! m)" if "m < length pcs" for m
      using flyingD(5)[OF assms(1) that] flyingD(5)[OF assms(1) k(1)] k(2) assms(2)
      by (cases "m = i") (simp_all add: pcOk_def)
  qed (simp_all add: assms(3))
qed

lemma flightStep_flying:
  assumes "flying (s, pcs)" and "flightStep i r (s, pcs) = Some e"
  shows "\<exists>s' pc. e = Done (s', pcs[i := pc]) \<and> flying (s', pcs[i := pc]) \<and> flightPath pc = flightPath (pcs ! i)"
proof -
  have i: "i < length pcs" using assms(2) by (auto simp: flightStep_def split: if_splits)
  show ?thesis
  proof (cases "pcs ! i")
    case (Asking p)
    obtain s' c loaded where a: "lookup p s = (s', c, loaded)"
      "flying (s', pcs[i := if loaded then Joining p c else Owning p c])" using ask_flying[OF assms(1) i Asking] by blast
    then have "e = Done (s', pcs[i := if loaded then Joining p c else Owning p c])"
      using assms(2) i Asking by (simp add: flightStep_def)
    with a(2) Asking show ?thesis
      by (intro exI[of _ s'] exI[of _ "if loaded then Joining p c else Owning p c"]) simp
  next
    case (Joining p c)
    obtain s' ch where a: "subscribe c s = (s', ch)" "flying (s', pcs[i := Awaiting p c ch])"
      using join_flying[OF assms(1) i Joining] by blast
    then show ?thesis using assms(2) i Joining
      by (intro exI[of _ s'] exI[of _ "Awaiting p c ch"]) (simp add: flightStep_def)
  next
    case (Owning p c)
    obtain s' where a: "leave r p s = Done s'" "flying (s', pcs[i := Left p c r])"
      using leave_flying[OF assms(1) i Owning] by blast
    then show ?thesis using assms(2) i Owning by (intro exI[of _ s'] exI[of _ "Left p c r"]) (simp add: flightStep_def)
  next
    case (Left p c x)
    obtain s' where a: "submit c x s = Done s'" "flying (s', pcs[i := Submitted p c x])"
      using submit_flying[OF assms(1) i Left] by blast
    then show ?thesis using assms(2) i Left by (intro exI[of _ s'] exI[of _ "Submitted p c x"]) (simp add: flightStep_def)
  next
    case (Awaiting p c ch)
    then obtain x xs where x: "buf (chans (consumers s ! c) ! ch) = x # xs" "e = Done (s, pcs[i := Got p c x])"
      using assms(2) i by (auto simp: flightStep_def split: list.splits)
    then show ?thesis using get_flying[OF assms(1) i Awaiting] Awaiting
      by (intro exI[of _ s] exI[of _ "Got p c x"]) simp
  qed (use assms(2) i in \<open>simp_all add: flightStep_def\<close>)
qed

lemma flightRun_flying:
  assumes "flying (s, pcs)"
  shows "\<exists>s' pcs'. flightRun sched (s, pcs) = Done (s', pcs') \<and> flying (s', pcs') \<and>
    map flightPath pcs' = map flightPath pcs"
  using assms
proof (induction sched arbitrary: s pcs)
  case (Cons ir sched)
  obtain i r where ir: "ir = (i, r)" by fastforce
  show ?case
  proof (cases "flightStep i r (s, pcs)")
    case None
    then show ?thesis using Cons ir by simp
  next
    case (Some e)
    obtain s1 pc where s1: "e = Done (s1, pcs[i := pc])" "flying (s1, pcs[i := pc])" "flightPath pc = flightPath (pcs ! i)"
      using flightStep_flying[OF Cons.prems Some] by blast
    have "map flightPath (pcs[i := pc]) = map flightPath pcs"
      using s1(3) by (metis list_update_id map_update)
    then show ?thesis using Cons.IH[OF s1(2)] Some s1(1) ir by simp
  qed
qed simp

text \<open>When nobody can move, everybody has a result.\<close>

lemma flight_complete:
  assumes "flying (s, pcs)" and "\<And>i r. flightStep i r (s, pcs) = None" and "i < length pcs"
  shows "\<exists>c r. pcs ! i = Submitted (flightPath (pcs ! i)) c r \<or> pcs ! i = Got (flightPath (pcs ! i)) c r"
proof -
  have moves: "(\<exists>p c r. pcs ! k = Submitted p c r) \<or> (\<exists>p c r. pcs ! k = Got p c r) \<or>
      (\<exists>p c ch. pcs ! k = Awaiting p c ch \<and> buf (chans (consumers s ! c) ! ch) = [])" if "k < length pcs" for k
    using assms(2)[of k undefined] that
    by (cases "pcs ! k") (auto simp: flightStep_def split: prod.splits list.splits)
  have "\<not> (\<exists>p c ch. pcs ! i = Awaiting p c ch \<and> buf (chans (consumers s ! c) ! ch) = [])"
  proof (safe)
    fix p c ch assume a: "pcs ! i = Awaiting p c ch" "buf (chans (consumers s ! c) ! ch) = []"
    obtain k where "k < length pcs" "pcs ! k = Owning p c \<or> (\<exists>r. pcs ! k = Left p c r)"
      using awaited_chan[OF assms(1,3) a(1)] a(2) by auto
    then show False using moves[of k] by auto
  qed
  then show ?thesis using moves[OF assms(3)] by auto
qed

lemma owner_unique:
  assumes "flying (s, pcs)" and "i < length pcs" and "j < length pcs" and "pcs ! i = Owning p c" and "pcs ! j = Owning p d"
  shows "i = j"
proof -
  have "c = d" using flyingD(1)[OF assms(1), of p c] flyingD(1)[OF assms(1), of p d] assms(2-5) by (metis option.inject)
  then show ?thesis using flyingD(4)[OF assms(1-3)] assms(4,5) by simp
qed

lemma submitted_reaches:
  assumes "flying (s, pcs)" and "i < length pcs" and "k < length pcs" and "pcs ! i = Awaiting p c ch"
    and "pcs ! k = Submitted q c r"
  shows "p = q \<and> chans (consumers s ! c) ! ch = answeredChan r"
proof -
  obtain j where j: "j < length pcs" "ownsFlight (pcs ! j)" "flightNo (pcs ! j) = Some c"
    "(pcs ! j = Owning p c \<or> (\<exists>r. pcs ! j = Left p c r)) \<or>
     (\<exists>r. pcs ! j = Submitted p c r \<and> chans (consumers s ! c) ! ch = answeredChan r)"
    using awaited_chan[OF assms(1,2,4)] by fastforce
  then have "j = k" using flyingD(4)[OF assms(1) j(1) assms(3)] assms(5) by simp
  with j(4) assms(5) show ?thesis by auto
qed

lemma flight_answers_everyone:
  assumes "\<And>p. p \<in> set ps \<Longrightarrow> valid p" and "pending s = fmempty" and "consumers s = []"
  shows "\<exists>s' pcs. flightRun sched (s, map Asking ps) = Done (s', pcs) \<and> flying (s', pcs) \<and> map flightPath pcs = ps"
proof -
  have "flying (s, map Asking ps)" using assms by (auto simp: flying_def pcOk_def)
  from flightRun_flying[OF this, of sched] show ?thesis by (simp add: o_def)
qed

text \<open>The result a handler got is that of the one owner of its flight.\<close>

lemma got_owner:
  assumes "flying (s, pcs)" and "i < length pcs" and "pcs ! i = Got p c r"
  shows "\<exists>!k. k < length pcs \<and> pcs ! k = Submitted p c r"
proof -
  obtain k where k: "k < length pcs" "ownsFlight (pcs ! k)" "flightNo (pcs ! k) = Some c" "flightPath (pcs ! k) = p"
    using flyingD(3)[OF assms(1,2), of c] assms(3) by auto
  have "mc_inv {r} (consumers s ! c)" using flyingD(5)[OF assms(1,2)] assms(3) by (simp add: pcOk_def)
  then have "pcs ! k = Submitted p c r"
    using flyingD(5)[OF assms(1) k(1)] k by (cases "pcs ! k") (auto simp: pcOk_def dest: mc_inv_unique)
  then show ?thesis using k(1) flyingD(4)[OF assms(1)] by (intro ex1I[of _ k]) auto
qed

end

section \<open>The two instances\<close>

interpretation dl: single_flight downloads dlConsumers loadOrStoreDownload subscribeDownload "\<lambda>r. DownloadsDelete"
    submitDownload "\<lambda>p. p \<noteq> []"
  by unfold_locales
    (auto simp: loadOrStoreDownload_def subscribeDownload_def DownloadsDelete_def submitDownload_def Let_def
      case_prod_unfold)

interpretation st: single_flight startingInstances startConsumers loadOrStoreStarting subscribeStarting
    "\<lambda>r p is. Done (leaveStarting now shutdownAfter rt r p is)" submitStart "\<lambda>p. True"
  by unfold_locales
    (auto simp: loadOrStoreStarting_def subscribeStarting_def leaveStarting_def submitStart_def RemoveStartingInstance_def
      Submit_def Let_def case_prod_unfold split: option.splits)

section \<open>Properties\<close>

text \<open>
  C37: A function that many requests need at once is downloaded by one of them, and the others get its
  result. For any requests \<open>ps\<close> and every schedule of their accesses to the map and to the consumers, no
  access panics or blocks. At no time do two requests own the download of the same path. What a request
  got is what the one owner of its flight submitted; as soon as the owner has submitted, the result is in
  the channel of everybody who waits, also of those who found the flight in the map before the owner
  took it off and subscribe only afterwards. When nobody can move any more, everybody has submitted or got a result.
\<close>

theorem download_flight_answers_everyone:
  assumes "[] \<notin> set ps"
  shows "\<exists>m pcs. dl.flightRun sched (NewDownloadsSyncMap, map Asking ps) = Done (m, pcs) \<and> map flightPath pcs = ps \<and>
    (\<forall>i < length ps. \<forall>j < length ps. \<forall>p c d. pcs ! i = Owning p c \<and> pcs ! j = Owning p d \<longrightarrow> i = j) \<and>
    (\<forall>i < length ps. \<forall>p c r. pcs ! i = Got p c r \<longrightarrow> (\<exists>!k. k < length ps \<and> pcs ! k = Submitted p c r)) \<and>
    (\<forall>i < length ps. \<forall>k < length ps. \<forall>p q c ch r. pcs ! i = Awaiting p c ch \<and> pcs ! k = Submitted q c r \<longrightarrow>
      p = q \<and> chans (dlConsumers m ! c) ! ch = \<lparr>buf = [r], closed = True\<rparr>) \<and>
    ((\<forall>i r. dl.flightStep i r (m, pcs) = None) \<longrightarrow>
      (\<forall>i < length ps. \<exists>c r. pcs ! i = Submitted (ps ! i) c r \<or> pcs ! i = Got (ps ! i) c r))"
proof -
  obtain m pcs where run: "dl.flightRun sched (NewDownloadsSyncMap, map Asking ps) = Done (m, pcs)"
    and f: "dl.flying (m, pcs)" and paths: "map flightPath pcs = ps"
    using dl.flight_answers_everyone[of ps NewDownloadsSyncMap sched] assms by (auto simp: NewDownloadsSyncMap_def)
  have len: "length ps = length pcs" using paths by auto
  have own: "i = j" if "i < length pcs" "j < length pcs" "pcs ! i = Owning p c" "pcs ! j = Owning p d" for i j p c d
    by (rule dl.owner_unique[OF f that])
  have late: "p = q \<and> chans (dlConsumers m ! c) ! ch = \<lparr>buf = [r], closed = True\<rparr>"
    if "i < length pcs" "k < length pcs" "pcs ! i = Awaiting p c ch" "pcs ! k = Submitted q c r" for i k p q c ch r
    by (rule dl.submitted_reaches[OF f that])
  have complete: "\<exists>c r. pcs ! i = Submitted (ps ! i) c r \<or> pcs ! i = Got (ps ! i) c r"
    if "\<forall>i r. dl.flightStep i r (m, pcs) = None" "i < length pcs" for i
    using dl.flight_complete[OF f _ that(2)] that paths by (metis nth_map)
  show ?thesis
    unfolding len
  proof (intro exI[of _ m] exI[of _ pcs] conjI allI impI)
    fix i k p q c ch r assume "i < length pcs" "k < length pcs" "pcs ! i = Awaiting p c ch \<and> pcs ! k = Submitted q c r"
    then show "p = q" "chans (dlConsumers m ! c) ! ch = \<lparr>buf = [r], closed = True\<rparr>" using late by blast+
  qed (use run paths own complete dl.got_owner[OF f] in \<open>blast+\<close>)
qed

text \<open>The second request finds the flight, but subscribes after the owner is done.\<close>

definition lateSchedule :: "(nat \<times> DownloadResult) list" where
  "lateSchedule = map (\<lambda>i. (i, \<lparr>drPath = ''/f'', drErr = None\<rparr>)) [0, 1, 0, 0, 1, 1]"

lemma lateSchedule_run:
  "\<exists>m. dl.flightRun lateSchedule (NewDownloadsSyncMap, map Asking [''/f'', ''/f'']) =
     Done (m, [Submitted ''/f'' 0 \<lparr>drPath = ''/f'', drErr = None\<rparr>, Got ''/f'' 0 \<lparr>drPath = ''/f'', drErr = None\<rparr>])"
  by (simp add: lateSchedule_def dl.flightStep_def loadOrStoreDownload_def subscribeDownload_def AddSub_def
      DownloadsDelete_def submitDownload_def SubmitResult_def NewDownloadsSyncMap_def NewMultiConsumer_def)

theorem download_flight_answers_everyone_witness:
  "\<exists>m pcs. dl.flightRun lateSchedule (NewDownloadsSyncMap, map Asking [''/f'', ''/f'']) = Done (m, pcs) \<and>
     pcs ! 1 = Got ''/f'' 0 \<lparr>drPath = ''/f'', drErr = None\<rparr> \<and>
     (\<exists>!k. k < 2 \<and> pcs ! k = Submitted ''/f'' 0 \<lparr>drPath = ''/f'', drErr = None\<rparr>)"
proof -
  obtain m pcs where run: "dl.flightRun lateSchedule (NewDownloadsSyncMap, map Asking [''/f'', ''/f'']) = Done (m, pcs)"
    and got: "\<forall>i < length [''/f'', ''/f'']. \<forall>p c r. pcs ! i = Got p c r \<longrightarrow>
      (\<exists>!k. k < length [''/f'', ''/f''] \<and> pcs ! k = Submitted p c r)"
    using download_flight_answers_everyone[of "[''/f'', ''/f'']" lateSchedule] by auto
  have "pcs ! 1 = Got ''/f'' 0 \<lparr>drPath = ''/f'', drErr = None\<rparr>" using lateSchedule_run run by auto
  moreover from this have "\<exists>!k. k < 2 \<and> pcs ! k = Submitted ''/f'' 0 \<lparr>drPath = ''/f'', drErr = None\<rparr>"
    using got[rule_format, of 1] by (simp add: numeral_2_eq_2)
  ultimately show ?thesis using run by blast
qed

text \<open>
  The same for the start of an instance: all requests that wait while a binary is being started get
  the id, or the error, of that one start.
\<close>

lemma start_flight_answers_everyone:
  "\<exists>s pcs. st.flightRun now sa rt sched (NewInstanceStates :: ('q, 'rt) InstancesStates, map Asking ps) = Done (s, pcs) \<and> map flightPath pcs = ps \<and>
    (\<forall>i < length pcs. \<forall>p c r. pcs ! i = Got p c r \<longrightarrow> (\<exists>!k. k < length pcs \<and> pcs ! k = Submitted p c r)) \<and>
    ((\<forall>i r. st.flightStep now sa rt i r (s, pcs) = None) \<longrightarrow>
      (\<forall>i < length pcs. \<exists>c r. pcs ! i = Submitted (ps ! i) c r \<or> pcs ! i = Got (ps ! i) c r))"
proof -
  obtain s pcs where run: "st.flightRun now sa rt sched (NewInstanceStates :: ('q, 'rt) InstancesStates, map Asking ps) = Done (s, pcs)"
    and f: "st.flying (s, pcs)" and paths: "map flightPath pcs = ps"
    using st.flight_answers_everyone[of ps NewInstanceStates now sa rt sched] by (auto simp: NewInstanceStates_def)
  have "\<exists>c r. pcs ! i = Submitted (ps ! i) c r \<or> pcs ! i = Got (ps ! i) c r"
    if "\<forall>i r. st.flightStep now sa rt i r (s, pcs) = None" "i < length pcs" for i
    using st.flight_complete[OF f _ that(2)] that paths by (metis nth_map)
  then show ?thesis
    using run paths st.got_owner[OF f] by (intro exI[of _ s] exI[of _ pcs] conjI) auto
qed

end
