(* ===== verification/RunnerRuntime.thy ===== *)
theory RunnerRuntime
  imports ServerContext RunnerInstances
begin

text \<open>
  The native runtime of a runner (\<open>pkg/runner/runtime.go\<close>): starting the binary of a function as a
  process, waiting until it answers, invoking it and stopping it.

  The world of a runtime is the processes and connections it has open. A process is its path, its
  environment and whether it ends when it is interrupted; waiting for one that does not blocks for
  good, since \<open>WaitDelay\<close> only starts to count when the process has ended. The error of a timed out wait
  lists the errors of the attempts; the model keeps its format only. What the operating system and
  the guest answer during a start is the record \<open>StartEnv\<close>: the port, the errors of the attempts to
  start the binary, the error of the client, the answers of the heartbeats with their durations in
  milliseconds, whether the process ends on an interrupt, and the time at which the context ends.
  Time is counted in milliseconds from the start of the wait; when two events of a \<open>select\<close> fall on the same millisecond the context wins over the
  timer and the timer over the pause.
\<close>

section \<open>State\<close>

record RtWorld =
  processes :: "(nat, string \<times> string \<times> bool) fmap"
  connections :: "(nat, string) fmap"
  nextHandle :: nat

record StartEnv =
  freePort :: "int res"
  startErrs :: "goerr list"
  clientErr :: "goerr option"
  heartbeat :: "nat \<Rightarrow> goerr option \<times> nat"
  ctxDoneAt :: "nat option"
  obeysInterrupt :: bool

record nativeRuntime =
  cmd :: "nat option"
  rtAddr :: string
  conn :: "nat option"

definition NativeRuntimeType :: string where
  "NativeRuntimeType = ''native''"

definition DetermineFuncRuntime :: nativeRuntime where
  "DetermineFuncRuntime = \<lparr>cmd = None, rtAddr = [], conn = None\<rparr>"

definition Type :: "nativeRuntime \<Rightarrow> string" where
  "Type n = NativeRuntimeType"

section \<open>Starting the binary\<close>

definition MaxStartRetries :: nat where
  "MaxStartRetries = 10"

definition ETXTBSY :: goerr where
  "ETXTBSY = ErrExternal ''text file busy''"

definition GuestAddrEnvVar :: string where
  "GuestAddrEnvVar = ''GUEST_ADDR''"

definition spawn :: "string \<Rightarrow> string \<Rightarrow> bool \<Rightarrow> RtWorld \<Rightarrow> RtWorld \<times> nat" where
  "spawn path env obeys w =
     (w\<lparr>processes := fmupd (nextHandle w) (path, env, obeys) (processes w), nextHandle := nextHandle w + 1\<rparr>, nextHandle w)"

text \<open>An attempt takes the next error of the script; when it is used up the binary starts. The result
  is the process, the number of retries, and the error.\<close>

function startWithRetryLoop ::
  "string \<Rightarrow> string \<Rightarrow> bool \<Rightarrow> goerr list \<Rightarrow> nat \<Rightarrow> RtWorld \<Rightarrow> RtWorld \<times> nat \<times> nat res" where
  "startWithRetryLoop path instanceAddr obeys errs attempts0 w =
     (let attempts = attempts0 + 1
      in case errs of
           [] \<Rightarrow> (let (w', p) = spawn path (GuestAddrEnvVar @ ''='' @ instanceAddr) obeys w in (w', attempts - 1, Inr p))
         | err # rest \<Rightarrow>
             (if \<not> errors_Is err ETXTBSY
              then (w, attempts - 1, Inl (wrapf ''retry failed with not ETXTBSY error: %w'' [] err))
              else if MaxStartRetries \<le> attempts
              then (w, attempts - 1, Inl (wrapf ''starting cmd failed multiple times: %w'' [] err))
              else startWithRetryLoop path instanceAddr obeys rest attempts w))"
  by pat_completeness auto
termination by (relation "measure (\<lambda>(_, _, _, _, a, _). MaxStartRetries - a)") auto

declare startWithRetryLoop.simps [simp del]

definition startWithRetry :: "string \<Rightarrow> string \<Rightarrow> bool \<Rightarrow> goerr list \<Rightarrow> RtWorld \<Rightarrow> RtWorld \<times> nat \<times> nat res" where
  "startWithRetry path instanceAddr obeys errs w = startWithRetryLoop path instanceAddr obeys errs 0 w"

section \<open>Waiting for the guest\<close>

definition HeartbeatTimeout :: nat where
  "HeartbeatTimeout = 5000"

text \<open>The result is the time it took, the number of retries and the error.\<close>

function waitForHeartbeatLoop ::
  "(nat \<Rightarrow> goerr option \<times> nat) \<Rightarrow> nat option \<Rightarrow> nat \<Rightarrow> nat \<Rightarrow> nat \<times> nat \<times> goerr option" where
  "waitForHeartbeatLoop hb done attempts0 t0 =
     (let attempts = attempts0 + 1; (err, took) = hb attempts; t = t0 + took
      in case err of
           None \<Rightarrow> (t, attempts - 1, None)
         | Some e \<Rightarrow>
             (let timer = max HeartbeatTimeout t; wake = t + attempts * 10
              in if (case done of None \<Rightarrow> False | Some d \<Rightarrow> max d t \<le> min timer wake)
                 then (max (the done) t, attempts - 1, Some ErrContext)
                 else if timer \<le> wake
                 then (timer, attempts - 1, Some (Errorf ''heartbeat didn't succed, errors: %+v'' [] None))
                 else waitForHeartbeatLoop hb done attempts wake))"
  by pat_completeness auto
termination
  by (relation "measure (\<lambda>(_, _, _, t). HeartbeatTimeout - t)") (auto simp: max_def split: if_splits)

declare waitForHeartbeatLoop.simps [simp del]

definition waitForHeartbeat :: "(nat \<Rightarrow> goerr option \<times> nat) \<Rightarrow> nat option \<Rightarrow> nat \<times> nat \<times> goerr option" where
  "waitForHeartbeat hb done = waitForHeartbeatLoop hb done 0 0"

section \<open>The runtime\<close>

text \<open>\<open>closeCmd\<close> interrupts the process and waits for it; errors are only logged.\<close>

definition closeCmd :: "nat option \<Rightarrow> RtWorld \<Rightarrow> RtWorld effect" where
  "closeCmd c w =
     (case c of
        None \<Rightarrow> PanicWith ''caller send nil cmd''
      | Some p \<Rightarrow>
          (case fmlookup (processes w) p of
             Some (_, _, False) \<Rightarrow> Blocked
           | _ \<Rightarrow> Done (w\<lparr>processes := fmdrop p (processes w)\<rparr>)))"

definition closeConn :: "nat option \<Rightarrow> RtWorld \<Rightarrow> RtWorld effect" where
  "closeConn c w =
     (case c of
        None \<Rightarrow> PanicWith ''invalid memory address or nil pointer dereference''
      | Some h \<Rightarrow> Done (w\<lparr>connections := fmdrop h (connections w)\<rparr>))"

definition dial :: "string \<Rightarrow> RtWorld \<Rightarrow> RtWorld \<times> nat" where
  "dial addr w =
     (w\<lparr>connections := fmupd (nextHandle w) addr (connections w), nextHandle := nextHandle w + 1\<rparr>, nextHandle w)"

definition modInstanceStartMeta :: "(InstanceStartMeta \<Rightarrow> InstanceStartMeta) \<Rightarrow> 'e Ctx \<Rightarrow> 'e Ctx" where
  "modInstanceStartMeta f ctx = ctx\<lparr>instanceStartSlot := slotMod f (instanceStartSlot ctx)\<rparr>"

text \<open>\<open>startTook\<close> is what the deferred function records on every way out.\<close>

definition Start ::
  "StartEnv \<Rightarrow> int \<Rightarrow> string \<Rightarrow> nativeRuntime \<Rightarrow> 'e Ctx \<Rightarrow> RtWorld \<Rightarrow>
   ('e Ctx \<times> nativeRuntime \<times> RtWorld \<times> goerr option) effect" where
  "Start env startTook path n ctx w =
     (if GetInstanceStartMeta ctx = None then PanicWith ''meta was nil''
      else let timed = modInstanceStartMeta (isStartTook_update (\<lambda>_. startTook))
       in case freePort env of
            Inl err \<Rightarrow> Done (timed ctx, n, w, Some (wrapf ''failed to acquire random free port: %w'' [] err))
          | Inr port \<Rightarrow>
              (let instanceAddr = ''127.0.0.1:'' @ strconv_FormatInt port;
                   ctx1 = modInstanceStartMeta (isInstanceAddr_update (\<lambda>_. instanceAddr)) ctx;
                   (w1, retries, started) = startWithRetry path instanceAddr (obeysInterrupt env) (startErrs env) w;
                   ctx2 = modInstanceStartMeta (isStartRetries_update (\<lambda>_. int retries)) ctx1
               in case started of
                    Inl err \<Rightarrow> Done (timed ctx2, n, w1, Some (wrapf ''failed to start the binary: %w'' [] err))
                  | Inr instanceCmd \<Rightarrow>
                      (case clientErr env of
                         Some err \<Rightarrow>
                           Done (timed ctx2, n, w1,
                             Some (wrapf ''failed to initialize instance at addr=%q client: %w'' [instanceAddr] err))
                       | None \<Rightarrow>
                           (let (w2, c) = dial instanceAddr w1;
                                (took, hbRetries, hbErr) = waitForHeartbeat (heartbeat env) (ctxDoneAt env);
                                ctx3 = modInstanceStartMeta (\<lambda>m. m\<lparr>isHeartbeatTook := int took * 1000000,
                                         isHeartbeatRetries := int hbRetries\<rparr>) ctx2
                            in case hbErr of
                                 Some err \<Rightarrow>
                                   (case closeConn (Some c) w2 of
                                      PanicWith msg \<Rightarrow> PanicWith msg
                                    | Blocked \<Rightarrow> Blocked
                                    | Done w3 \<Rightarrow>
                                        (case closeCmd (Some instanceCmd) w3 of
                                           PanicWith msg \<Rightarrow> PanicWith msg
                                         | Blocked \<Rightarrow> Blocked
                                         | Done w4 \<Rightarrow>
                                             Done (timed ctx3, n, w4,
                                               Some (wrapf ''instance binary %q at addr %q Heartbeat failed: %w''
                                                      [path, instanceAddr] err))))
                               | None \<Rightarrow>
                                   Done (timed ctx3,
                                     n\<lparr>cmd := Some instanceCmd, rtAddr := instanceAddr, conn := Some c\<rparr>, w2, None)))))"

definition Stop :: "nativeRuntime \<Rightarrow> RtWorld \<Rightarrow> RtWorld effect" where
  "Stop n w = 
     (case closeConn (conn n) w of
        PanicWith msg \<Rightarrow> PanicWith msg
      | Blocked \<Rightarrow> Blocked
      | Done w1 \<Rightarrow> closeCmd (cmd n) w1)"

text \<open>The guest at the other end of the connection is a parameter.\<close>

definition Invoke :: "(nat \<Rightarrow> 'req \<Rightarrow> 'resp res) \<Rightarrow> nativeRuntime \<Rightarrow> 'req \<Rightarrow> 'resp res" where
  "Invoke guest n req = guest (the (conn n)) req"

section \<open>Retries\<close>

definition busyPrefix :: "goerr list \<Rightarrow> nat" where
  "busyPrefix errs = length (takeWhile (\<lambda>e. errors_Is e ETXTBSY) errs)"

lemma startWithRetryLoop_exact:
  assumes "k < MaxStartRetries"
  shows "startWithRetryLoop path instanceAddr obeys errs k w =
    (if MaxStartRetries \<le> k + busyPrefix errs
     then (w, MaxStartRetries - 1,
       Inl (wrapf ''starting cmd failed multiple times: %w'' [] (errs ! (MaxStartRetries - 1 - k))))
     else if busyPrefix errs < length errs
     then (w, k + busyPrefix errs,
       Inl (wrapf ''retry failed with not ETXTBSY error: %w'' [] (errs ! busyPrefix errs)))
     else let (w', p) = spawn path (GuestAddrEnvVar @ ''='' @ instanceAddr) obeys w
       in (w', k + busyPrefix errs, Inr p))"
  using assms
proof (induction errs arbitrary: k)
  case Nil
  then show ?case
    by (subst startWithRetryLoop.simps) (simp add: busyPrefix_def Let_def split: prod.splits)
next
  case (Cons e errs)
  show ?case
  proof (cases "errors_Is e ETXTBSY \<and> Suc k < MaxStartRetries")
    case True
    moreover have "(e # errs) ! (MaxStartRetries - 1 - k) = errs ! (MaxStartRetries - 1 - Suc k)"
      using True by (simp add: nth_Cons' Suc_diff_Suc)
    ultimately show ?thesis
      using Cons.IH[of "Suc k"] by (subst startWithRetryLoop.simps) (simp add: busyPrefix_def Let_def)
  next
    case False
    then show ?thesis
      using Cons.prems by (subst startWithRetryLoop.simps) (auto simp: busyPrefix_def Let_def)
  qed
qed

text \<open>
  Starting the binary. Exactly the errors 'text file busy' are retried: the process starts when
  fewer than ten of them come first, any other error ends the attempts at once, and the tenth busy
  error is final. The number of retries reported is the number of busy errors that were absorbed.
  Nothing is started in the failing cases.
\<close>

lemma startWithRetry_exact:
  "startWithRetry path instanceAddr obeys errs w =
    (if 10 \<le> busyPrefix errs
     then (w, 9, Inl (wrapf ''starting cmd failed multiple times: %w'' [] (errs ! 9)))
     else if busyPrefix errs < length errs
     then (w, busyPrefix errs,
       Inl (wrapf ''retry failed with not ETXTBSY error: %w'' [] (errs ! busyPrefix errs)))
     else (fst (spawn path (''GUEST_ADDR='' @ instanceAddr) obeys w), busyPrefix errs,
       Inr (snd (spawn path (''GUEST_ADDR='' @ instanceAddr) obeys w))))"
  using startWithRetryLoop_exact[of 0 path instanceAddr obeys errs w]
  by (simp add: startWithRetry_def MaxStartRetries_def GuestAddrEnvVar_def case_prod_unfold Let_def)

section \<open>The wait for the first heartbeat\<close>

text \<open>Attempt \<open>n + 1\<close> starts at \<open>5 \<cdot> n \<cdot> (n + 1)\<close> milliseconds or later, and before the timeout.\<close>

definition waitStart :: "nat \<Rightarrow> nat \<Rightarrow> bool" where
  "waitStart n t \<longleftrightarrow> 5 * n * (n + 1) \<le> t \<and> t < HeartbeatTimeout"

lemma waitStart_bound:
  assumes "waitStart n t"
  shows "n \<le> 31"
proof (rule ccontr)
  assume "\<not> n \<le> 31"
  then have "32 * 33 \<le> n * (n + 1)" by (intro mult_le_mono) auto
  then show False using assms by (simp add: waitStart_def HeartbeatTimeout_def)
qed

lemma waitForHeartbeatLoop_ok:
  assumes "waitStart n t0" and "\<forall>k\<in>{1..n}. fst (hb k) \<noteq> None"
    and "waitForHeartbeatLoop hb done n t0 = (t, retries, err)"
  shows "retries \<le> 31 \<and> (\<forall>k\<in>{1..retries}. fst (hb k) \<noteq> None) \<and>
    (err = None \<longleftrightarrow> fst (hb (Suc retries)) = None) \<and>
    (\<forall>d. (\<forall>k. snd (hb k) \<le> d) \<longrightarrow> t \<le> HeartbeatTimeout + d)"
  using assms
proof (induction hb "done" n t0 rule: waitForHeartbeatLoop.induct)
  case (1 hb dn n t0)
  obtain e took where hb: "hb (n + 1) = (e, took)" by fastforce
  have n: "n \<le> 31" using waitStart_bound "1.prems"(1) .
  have took: "\<forall>d. (\<forall>k. snd (hb k) \<le> d) \<longrightarrow> took \<le> d" using hb by (metis snd_conv)
  have t0: "t0 < HeartbeatTimeout" using "1.prems"(1) by (simp add: waitStart_def)
  define wake where "wake = t0 + took + (n + 1) * 10"
  show ?case
  proof (cases "\<exists>e'. e = Some e' \<and> \<not> (case dn of None \<Rightarrow> False | Some d \<Rightarrow>
        max d (t0 + took) \<le> min (max HeartbeatTimeout (t0 + took)) wake) \<and>
        \<not> max HeartbeatTimeout (t0 + took) \<le> wake")
    case True
    then obtain e' where e': "e = Some e'" by blast
    have "waitStart (n + 1) wake"
      using True "1.prems"(1) by (auto simp: waitStart_def wake_def algebra_simps)
    moreover have "\<forall>k\<in>{1..n + 1}. fst (hb k) \<noteq> None"
      using "1.prems"(2) hb True by (auto simp: atLeastAtMostSuc_conv)
    moreover have "waitForHeartbeatLoop hb dn (n + 1) wake = (t, retries, err)"
      using "1.prems"(3) True hb
      by (subst (asm) waitForHeartbeatLoop.simps) (auto simp: Let_def wake_def max_def split: if_splits option.splits)
    ultimately show ?thesis
      using "1.IH"[OF refl refl hb[symmetric] refl e' refl wake_def] True by blast
  next
    case False
    then have "retries = n \<and> (err = None \<longleftrightarrow> e = None) \<and> t \<le> max HeartbeatTimeout (t0 + took)"
      using "1.prems"(3) hb t0
      by (subst (asm) waitForHeartbeatLoop.simps)
         (auto simp: Let_def wake_def split: if_splits option.splits)
    moreover have "max HeartbeatTimeout (t0 + took) \<le> HeartbeatTimeout + d" if "\<forall>k. snd (hb k) \<le> d" for d
    proof -
      have "took \<le> d" using took that by blast
      then show ?thesis using t0 by simp
    qed
    ultimately show ?thesis using "1.prems"(2) hb n by (metis Suc_eq_plus1 fst_conv le_trans)
  qed
qed

text \<open>
  C39: The wait for a started instance ends. There are at most 32 heartbeats (the pauses grow by ten
  milliseconds each and have to fit into the five seconds); the wait succeeds exactly when the last
  heartbeat that was sent was answered, all before it having failed; and when no heartbeat takes longer
  than \<open>d\<close> milliseconds the wait takes at most five seconds and \<open>d\<close>.
\<close>

theorem waitForHeartbeat_bounded:
  assumes "waitForHeartbeat hb done = (t, retries, err)"
  shows "retries \<le> 31 \<and> (\<forall>k\<in>{1..retries}. fst (hb k) \<noteq> None) \<and>
    (err = None \<longleftrightarrow> fst (hb (Suc retries)) = None) \<and>
    (\<forall>d. (\<forall>k. snd (hb k) \<le> d) \<longrightarrow> t \<le> HeartbeatTimeout + d)"
  using waitForHeartbeatLoop_ok[of 0 0 hb "done" t retries err] assms
  by (simp add: waitForHeartbeat_def waitStart_def HeartbeatTimeout_def)

theorem waitForHeartbeat_bounded_witness:
  "waitForHeartbeat (\<lambda>k. if k = 3 then (None, 1) else (Some ErrContext, 2)) None = (35, 2, None) \<and> (2::nat) \<le> 31"
proof -
  have *: "waitForHeartbeat (\<lambda>k. if k = 3 then (None, 1) else (Some ErrContext, 2)) None = (35, 2, None)"
    unfolding waitForHeartbeat_def
    by (subst waitForHeartbeatLoop.simps, simp add: HeartbeatTimeout_def Let_def)
       (subst waitForHeartbeatLoop.simps, simp add: HeartbeatTimeout_def Let_def,
        subst waitForHeartbeatLoop.simps, simp add: HeartbeatTimeout_def Let_def)
  show ?thesis using * waitForHeartbeat_bounded[OF *] by blast
qed

section \<open>Processes and connections\<close>

definition rt_inv :: "RtWorld \<Rightarrow> bool" where
  "rt_inv w \<longleftrightarrow> fBall (fmdom (processes w)) (\<lambda>h. h < nextHandle w) \<and>
    fBall (fmdom (connections w)) (\<lambda>h. h < nextHandle w)"

lemma rt_inv_fresh:
  assumes "rt_inv w" and "nextHandle w \<le> h"
  shows "fmlookup (processes w) h = None" "fmlookup (connections w) h = None"
proof -
  have "h |\<notin>| fmdom (processes w)" "h |\<notin>| fmdom (connections w)"
    using assms by (fastforce simp: rt_inv_def)+
  then show "fmlookup (processes w) h = None" "fmlookup (connections w) h = None"
    by (simp_all add: fmdom_notD)
qed

lemma fmdrop_fmupd_fresh:
  assumes "fmlookup m h = None"
  shows "fmdrop h (fmupd h v m) = m"
  using assms by (intro fmap_ext) auto

definition same_resources :: "RtWorld \<Rightarrow> RtWorld \<Rightarrow> bool" where
  "same_resources w w' \<longleftrightarrow> processes w' = processes w \<and> connections w' = connections w"

definition startable :: "StartEnv \<Rightarrow> bool" where
  "startable env \<longleftrightarrow> (\<exists>port. freePort env = Inr port) \<and> busyPrefix (startErrs env) < 10 \<and>
    busyPrefix (startErrs env) = length (startErrs env)"

text \<open>The world after the process was started and its client created.\<close>

definition instanceAddrOf :: "StartEnv \<Rightarrow> string" where
  "instanceAddrOf env = (case freePort env of Inl _ \<Rightarrow> [] | Inr port \<Rightarrow> ''127.0.0.1:'' @ strconv_FormatInt port)"

definition spawned :: "StartEnv \<Rightarrow> string \<Rightarrow> RtWorld \<Rightarrow> RtWorld" where
  "spawned env path w = fst (spawn path (''GUEST_ADDR='' @ instanceAddrOf env) (obeysInterrupt env) w)"

definition dialed :: "StartEnv \<Rightarrow> string \<Rightarrow> RtWorld \<Rightarrow> RtWorld" where
  "dialed env path w = fst (dial (instanceAddrOf env) (spawned env path w))"

lemma busyPrefix_le: "busyPrefix errs \<le> length errs"
  by (simp add: busyPrefix_def length_takeWhile_le)

lemma spawned_simps [simp]:
  "processes (spawned env path w) =
     fmupd (nextHandle w) (path, ''GUEST_ADDR='' @ instanceAddrOf env, obeysInterrupt env) (processes w)"
  "connections (spawned env path w) = connections w"
  "nextHandle (spawned env path w) = Suc (nextHandle w)"
  by (simp_all add: spawned_def spawn_def)

lemma dialed_simps [simp]:
  "processes (dialed env path w) = processes (spawned env path w)"
  "connections (dialed env path w) = fmupd (Suc (nextHandle w)) (instanceAddrOf env) (connections w)"
  "nextHandle (dialed env path w) = Suc (Suc (nextHandle w))"
  by (simp_all add: dialed_def dial_def)

lemma startWithRetry_Inl:
  assumes "\<not> startable env" and "freePort env = Inr port"
  obtains r e where "startWithRetry path a obeys (startErrs env) w = (w, r, Inl e)"
  using assms busyPrefix_le[of "startErrs env"] that
  unfolding startWithRetry_exact startable_def by (metis Inr_inject le_neq_implies_less not_le)

lemma startWithRetry_Inr:
  assumes "startable env" and "freePort env = Inr port"
  shows "startWithRetry path (''127.0.0.1:'' @ strconv_FormatInt port) (obeysInterrupt env) (startErrs env) w =
    (spawned env path w, length (startErrs env), Inr (nextHandle w))"
  using assms unfolding startWithRetry_exact startable_def
  by (simp add: spawned_def instanceAddrOf_def) (simp add: spawn_def)

lemma dial_spawned:
  assumes "freePort env = Inr port"
  shows "dial (''127.0.0.1:'' @ strconv_FormatInt port) (spawned env path w) = (dialed env path w, Suc (nextHandle w))"
  using assms unfolding dialed_def instanceAddrOf_def by (simp add: dial_def)

lemma Start_unstartable:
  assumes "Start env took path n ctx w = Done (ctx', n', w', err)" and "\<not> startable env"
  shows "err \<noteq> None \<and> n' = n \<and> w' = w"
proof (cases "freePort env")
  case (Inl e)
  then show ?thesis using assms(1) by (auto simp: Start_def Let_def split: if_splits)
next
  case (Inr port)
  obtain r e where "startWithRetry path (''127.0.0.1:'' @ strconv_FormatInt port) (obeysInterrupt env)
      (startErrs env) w = (w, r, Inl e)"
    using startWithRetry_Inl[OF assms(2) Inr] .
  then show ?thesis using assms(1) Inr by (auto simp: Start_def Let_def split: if_splits)
qed

lemma Start_noClient:
  assumes "Start env took path n ctx w = Done (ctx', n', w', err)" and "startable env" and "clientErr env = Some e"
  shows "err \<noteq> None \<and> n' = n \<and> w' = spawned env path w"
proof -
  obtain port where "freePort env = Inr port" using assms(2) by (auto simp: startable_def)
  then show ?thesis
    using assms startWithRetry_Inr[OF assms(2)] by (auto simp: Start_def Let_def split: if_splits)
qed

lemma Start_up:
  assumes "rt_inv w" and "Start env took path n ctx w = Done (ctx', n', w', err)"
    and "startable env" and "clientErr env = None"
  shows "(case err of
      None \<Rightarrow> n' = n\<lparr>cmd := Some (nextHandle w), rtAddr := instanceAddrOf env, conn := Some (Suc (nextHandle w))\<rparr> \<and>
        w' = dialed env path w
    | Some e \<Rightarrow> n' = n \<and> same_resources w w')"
proof -
  note fresh = rt_inv_fresh[OF assms(1)]
  obtain port where port: "freePort env = Inr port" using assms(3) by (auto simp: startable_def)
  have a: "instanceAddrOf env = ''127.0.0.1:'' @ strconv_FormatInt port"
    using port by (simp add: instanceAddrOf_def)
  obtain t r hbErr where hb: "waitForHeartbeat (heartbeat env) (ctxDoneAt env) = (t, r, hbErr)"
    by (cases "waitForHeartbeat (heartbeat env) (ctxDoneAt env)") auto
  show ?thesis
  proof (cases hbErr)
    case None
    then show ?thesis
      using assms(2,4) port startWithRetry_Inr[OF assms(3) port] dial_spawned[OF port] hb
      by (auto simp: Start_def Let_def a split: if_splits)
  next
    case (Some e)
    then show ?thesis
      using assms(2,4) port startWithRetry_Inr[OF assms(3) port] dial_spawned[OF port] hb fresh
      by (auto simp: Start_def Let_def closeConn_def closeCmd_def same_resources_def
          fmdrop_fmupd_fresh split: if_splits bool.splits)
  qed
qed

text \<open>
  C38: A started instance owns one process and one connection, and \<open>Stop\<close> gives both back: after a
  successful \<open>Start\<close> of a binary that ends when it is interrupted, \<open>Stop\<close> returns and the processes and
  connections of the runner are those from before \<open>Start\<close>. The running process is the binary, started with
  the address that the runtime dials. A \<open>Start\<close> that fails gives back everything as well, except when the
  client could not be created: then the process it started is left running.
\<close>

theorem Start_Stop_balanced:
  assumes "rt_inv w" and "Start env took path n ctx w = Done (ctx', n', w', err)"
  shows "case err of
     None \<Rightarrow> rt_inv w' \<and> cmd n' \<noteq> None \<and> conn n' \<noteq> None \<and>
       fmlookup (processes w') (the (cmd n')) = Some (path, ''GUEST_ADDR='' @ rtAddr n', obeysInterrupt env) \<and>
       fmlookup (connections w') (the (conn n')) = Some (rtAddr n') \<and>
       (obeysInterrupt env \<longrightarrow> (\<exists>w''. Stop n' w' = Done w'' \<and> same_resources w w''))
   | Some e \<Rightarrow> n' = n \<and>
       (if startable env \<and> clientErr env \<noteq> None
        then fmlookup (processes w') (nextHandle w) =
            Some (path, ''GUEST_ADDR='' @ instanceAddrOf env, obeysInterrupt env) \<and>
          fmlookup (processes w) (nextHandle w) = None
        else same_resources w w')"
proof (cases "startable env \<and> clientErr env = None")
  case True
  note fresh = rt_inv_fresh[OF assms(1)]
  show ?thesis
    using Start_up[OF assms] True fresh assms(1)
    by (auto simp: Stop_def closeConn_def closeCmd_def same_resources_def fmdrop_fmupd_fresh rt_inv_def
        split: option.splits)
next
  case False
  then show ?thesis
    using Start_unstartable[OF assms(2)] Start_noClient[OF assms(2)] rt_inv_fresh[OF assms(1)]
    by (cases "startable env") (auto simp: same_resources_def split: option.splits)
qed

definition example_start_env :: StartEnv where
  "example_start_env =
     \<lparr>freePort = Inr 4000, startErrs = [ETXTBSY], clientErr = None, heartbeat = (\<lambda>_. (None, 3)),
      ctxDoneAt = None, obeysInterrupt = True\<rparr>"

definition zeroInstanceStartMeta :: InstanceStartMeta where
  "zeroInstanceStartMeta =
     \<lparr>isFunctionPath = [], isInstanceID = [], isRuntimeType = [], isInstanceAddr = [], isStartTook = 0,
      isReusedAssigned = False, isStartRetries = 0, isHeartbeatRetries = 0, isHeartbeatTook = 0\<rparr>"

definition example_start_ctx :: "unit Ctx" where
  "example_start_ctx = emptyCtx\<lparr>instanceStartSlot := Holder (Some zeroInstanceStartMeta)\<rparr>"

definition empty_world :: RtWorld where
  "empty_world = \<lparr>processes = fmempty, connections = fmempty, nextHandle = 0\<rparr>"

theorem Start_Stop_balanced_witness:
  "\<exists>ctx' n' w' w''. Start example_start_env 7 ''/srv/f'' DetermineFuncRuntime example_start_ctx empty_world =
       Done (ctx', n', w', None) \<and> Stop n' w' = Done w'' \<and> same_resources empty_world w''"
proof -
  have inv: "rt_inv empty_world" by (simp add: rt_inv_def empty_world_def)
  have hb: "waitForHeartbeat (\<lambda>_. (None, 3)) None = (3, 0, None)"
    unfolding waitForHeartbeat_def by (subst waitForHeartbeatLoop.simps) (simp add: Let_def)
  have meta: "GetInstanceStartMeta example_start_ctx \<noteq> None"
    by (simp add: GetInstanceStartMeta_def example_start_ctx_def)
  obtain ctx' n' w' where run: "Start example_start_env 7 ''/srv/f'' DetermineFuncRuntime example_start_ctx
      empty_world = Done (ctx', n', w', None)"
    using meta
    by (simp add: Start_def Let_def startWithRetry_exact busyPrefix_def example_start_env_def ETXTBSY_def
        hb case_prod_unfold)
  show ?thesis
    using Start_Stop_balanced[OF inv run] run by (auto simp: example_start_env_def)
qed

end
