(* ===== verification/RunnerServer.thy ===== *)
theory RunnerServer
  imports RunnerRuntime RunnerFlights CommanderHandlers
begin

text \<open>
  The gRPC server of a runner (\<open>pkg/runner/grpc.go\<close>) without the invocations, which \<open>RunnerWorker\<close>
  models: downloading a function, preparing an instance, heartbeats and the registration.

  A handler runs beside the handlers of other requests. Where it waits for something slow, the download
  and the start of the binary, the other handlers get a turn: \<open>duringDownload\<close> and \<open>duringStart\<close> are what
  they do to the state of the server meanwhile. Where it waits for the result of another handler, that
  result is a parameter: \<open>awaitedDownload\<close> (\<open>None\<close> when the context ends first) and \<open>awaitedStart\<close>. What
  the commander answers, the random strings of temporary files, the new UUID and the measured durations
  are parameters as well. Metrics and logs are not modelled.
\<close>

section \<open>State\<close>

record 'q runnerGrpcServer =
  runnerId :: int
  instances :: "('q, nativeRuntime) InstancesStates"
  dlMap :: DownloadsSyncMap
  downloadsStorageRoot :: string
  shutdownAfter :: int
  instanceGracePeriod :: int
  rfs :: FS
  world :: RtWorld

record DownloadResponse =
  StatusCode :: int
  respHeader :: "(string, string) fmap"
  respBody :: "bytes \<times> goerr option"

record 'q PrepareEnv =
  client :: "string \<Rightarrow> DownloadResponse res"
  rands :: "string list"
  downloadTook :: int
  duringDownload :: "'q runnerGrpcServer \<Rightarrow> 'q runnerGrpcServer"
  awaitedDownload :: "DownloadResult option"
  newV7 :: "string res"
  startEnv :: StartEnv
  runtimeStartTook :: int
  startTook :: int
  startedAt :: int
  duringStart :: "'q runnerGrpcServer \<Rightarrow> 'q runnerGrpcServer"
  awaitedStart :: StartInstanceResult
  meanwhileDownloads :: "DownloadsSyncMap \<Rightarrow> DownloadsSyncMap"
  meanwhileStarts :: "('q, nativeRuntime) InstancesStates \<Rightarrow> ('q, nativeRuntime) InstancesStates"

section \<open>Creating the server\<close>

text \<open>The three errors are those of the two clients and of the metrics.\<close>

definition newRunnerGrpcServer ::
  "goerr option \<Rightarrow> goerr option \<Rightarrow> goerr option \<Rightarrow> string \<Rightarrow> int \<Rightarrow> int \<Rightarrow> FS \<Rightarrow>
   (FS \<times> 'q runnerGrpcServer res) outcome" where
  "newRunnerGrpcServer httpErr grpcErr metricsErr funcStorageRoot instanceShutdownAfter' grace fs =
     (case CreateDirIfNotExists funcStorageRoot fs of
        Panics msg \<Rightarrow> Panics msg
      | Returns (fs1, Some err) \<Rightarrow> Returns (fs1, Inl (wrapf ''creating storage root %q failed: %w'' [funcStorageRoot] err))
      | Returns (fs1, None) \<Rightarrow>
          Returns (fs1,
            case httpErr of
              Some err \<Rightarrow> Inl (wrapf ''creating commander http client failed: %w'' [] err)
            | None \<Rightarrow>
                (case grpcErr of
                   Some err \<Rightarrow> Inl (wrapf ''failed to initialize grpc commander client: %w'' [] err)
                 | None \<Rightarrow>
                     (case metricsErr of
                        Some err \<Rightarrow> Inl (wrapf ''failed to initialize runner metrics: %w'' [] err)
                      | None \<Rightarrow>
                          Inr \<lparr>runnerId = 0, instances = NewInstanceStates, dlMap = NewDownloadsSyncMap,
                               downloadsStorageRoot = funcStorageRoot, shutdownAfter = instanceShutdownAfter',
                               instanceGracePeriod = grace, rfs = fs1,
                               world = \<lparr>processes = fmempty, connections = fmempty, nextHandle = 0\<rparr>\<rparr>))))"

definition registerWithCommander ::
  "(string \<Rightarrow> int res) \<Rightarrow> string \<Rightarrow> 'q runnerGrpcServer \<Rightarrow> 'q runnerGrpcServer \<times> goerr option" where
  "registerWithCommander RegisterRunner addr r =
     (case RegisterRunner addr of
        Inl err \<Rightarrow> (r, Some (wrapf ''registration with commander failed: %w'' [] err))
      | Inr i \<Rightarrow> (r\<lparr>runnerId := i\<rparr>, None))"

text \<open>\<open>collect\<close> is what the collector of the system metrics returns.\<close>

definition runnerHeartbeat ::
  "int \<Rightarrow> (64 word \<times> uint64) res \<Rightarrow> 'q runnerGrpcServer \<Rightarrow> HeartbeatResponse res" where
  "runnerHeartbeat now collect r =
     (let depths = RunnerInstances.QueueDepths now (instanceGracePeriod r) (instances r)
      in case collect of
           Inl err \<Rightarrow> Inl (wrapf ''failed to collect metrics: %w'' [] err)
         | Inr (cpu, mem) \<Rightarrow>
             Inr \<lparr>QueueDepths = depths, hbCpuPercent = cpu, hbUnusedMemoryBytes = mem\<rparr>)"

section \<open>Downloading a function\<close>

definition pathOnRunner :: "string \<Rightarrow> string \<Rightarrow> string" where
  "pathOnRunner root path = filepath_Join [root, path]"

definition funcFileExists :: "string \<Rightarrow> FS \<Rightarrow> FS \<times> bool res" where
  "funcFileExists path fs =
     (case os_Stat path fs of
        (fs1, Inl err) \<Rightarrow> (fs1, if errors_Is err ErrNotExist then Inr False else Inl err)
      | (fs1, Inr DirNode) \<Rightarrow> (fs1, Inl (ErrExternal ''path is a directory''))
      | (fs1, Inr (File _)) \<Rightarrow> (fs1, Inr True))"

definition headerGet :: "(string, string) fmap \<Rightarrow> string \<Rightarrow> string" where
  "headerGet h k = (case fmlookup h k of None \<Rightarrow> [] | Some v \<Rightarrow> v)"

definition modDownloadMeta :: "(DownloadMeta \<Rightarrow> DownloadMeta) \<Rightarrow> 'e Ctx \<Rightarrow> 'e Ctx" where
  "modDownloadMeta f ctx = ctx\<lparr>downloadSlot := slotMod f (downloadSlot ctx)\<rparr>"

text \<open>From the temporary file to its final name: the bytes written, or the error after the temporary
  file was deleted.\<close>

definition fillTemp :: "string \<Rightarrow> string \<Rightarrow> string \<Rightarrow> bytes \<times> goerr option \<Rightarrow> FS \<Rightarrow> FS \<times> nat res" where
  "fillTemp functionId tmp funcPath' body' fs =
     (case io_Copy tmp body' fs of
        (fs1, _, Some err) \<Rightarrow>
          (DeleteFile tmp fs1,
           Inl (wrapf ''failed copy bytes of to temp function file %q for function '%s': %w'' [tmp, functionId] err))
      | (fs1, bytesWritten, None) \<Rightarrow>
          (case file_Close fs1 of
             (fs2, Some err) \<Rightarrow>
               (DeleteFile tmp fs2,
                Inl (wrapf ''failed to close temp function file %q for function '%s': %w'' [tmp, functionId] err))
           | (fs2, None) \<Rightarrow>
               (case os_Chmod tmp fs2 of
                  (fs3, Some err) \<Rightarrow>
                    (DeleteFile tmp fs3,
                     Inl (wrapf ''failed to change perms on temp function file %q for function '%s': %w'' [tmp, functionId] err))
                | (fs3, None) \<Rightarrow>
                    (case os_Rename tmp funcPath' fs3 of
                       (fs4, Some err) \<Rightarrow>
                         (DeleteFile tmp fs4,
                          Inl (wrapf ''failed to rename temp function file %q to its original name %q: %w'' [tmp, funcPath'] err))
                     | (fs4, None) \<Rightarrow> (fs4, Inr bytesWritten)))))"

definition storeFunction ::
  "string list \<Rightarrow> string \<Rightarrow> string \<Rightarrow> string \<Rightarrow> bytes \<times> goerr option \<Rightarrow> FS \<Rightarrow> FS \<times> nat res" where
  "storeFunction rands' functionId funcPath' responseFuncName body' fs =
     (let funcDir = filepath_Dir funcPath'
      in case os_MkdirAll funcDir fs of
           (fs1, Some err) \<Rightarrow>
             (fs1, Inl (wrapf ''failed to create the dir %q path of downloaded function '%s': %w'' [funcPath', functionId] err))
         | (fs1, None) \<Rightarrow>
             (case os_CreateTemp rands' funcDir (responseFuncName @ ''-*'') fs1 of
                (fs2, Inl err) \<Rightarrow>
                  (fs2, Inl (wrapf ''failed to create temp download file in dir %q for function '%s': %w'' [funcDir, functionId] err))
              | (fs2, Inr tmp) \<Rightarrow> fillTemp functionId tmp funcPath' body' fs2))"

text \<open>The result is the path, the number of bytes, the duration and the error.\<close>

definition downloadFunction ::
  "'q PrepareEnv \<Rightarrow> string \<Rightarrow> string \<Rightarrow> 'e Ctx \<Rightarrow> FS \<Rightarrow>
   ('e Ctx \<times> FS \<times> string \<times> nat \<times> int \<times> goerr option) effect" where
  "downloadFunction env root functionId ctx fs =
     (case client env functionId of
        Inl err \<Rightarrow> Done (ctx, fs, [], 0, 0, Some (wrapf ''download function id '%s' failed: %w'' [functionId] err))
      | Inr resp \<Rightarrow>
          (if StatusCode resp = 404
           then Done (ctx, fs, [], 0, 0,
                  Some (Errorf ''download failed, function with id '%s' wasn't found'' [functionId] None))
           else if StatusCode resp = 500
           then Done (ctx, fs, [], 0, 0, Some (Errorf ''download failed, commander errored'' [] None))
           else
             (let responseFuncPath = headerGet (respHeader resp) DownloadHeaderFunctionPath;
                  responseFuncName = headerGet (respHeader resp) DownloadHeaderFunctionFilename
              in assertE (GetDownloadMeta ctx \<noteq> None) ''meta was nil''
                  (let ctx1 = modDownloadMeta (\<lambda>m. m\<lparr>dlSourcePath := responseFuncPath,
                                dlSourceFilename := responseFuncName\<rparr>) ctx;
                       funcPath' = pathOnRunner root (filepath_Join [responseFuncPath, responseFuncName])
                   in case storeFunction (rands env) functionId funcPath' responseFuncName (respBody resp) fs of
                        (fs1, Inl err) \<Rightarrow> Done (ctx1, fs1, [], 0, 0, Some err)
                      | (fs1, Inr n) \<Rightarrow> Done (ctx1, fs1, funcPath', n, downloadTook env, None)))))"

section \<open>Starting an instance\<close>

definition uuidNil :: string where
  "uuidNil = ''00000000-0000-0000-0000-000000000000''"

definition startInstance ::
  "'q PrepareEnv \<Rightarrow> string \<Rightarrow> 'e Ctx \<Rightarrow> 'q runnerGrpcServer \<Rightarrow>
   ('e Ctx \<times> 'q runnerGrpcServer \<times> string res) effect" where
  "startInstance env path ctx r =
     (case newV7 env of
        Inl err \<Rightarrow> Done (ctx, r, Inl (wrapf ''failed to construct uuid v7: %w'' [] err))
      | Inr instanceId \<Rightarrow>
          (let ctx1 = SetInstanceStartMeta
                 (zeroInstanceStartMeta\<lparr>isFunctionPath := path, isInstanceID := instanceId\<rparr>) ctx;
               (is1, ticket) = IsStartingOrStartIt path (instances r);
               r1 = r\<lparr>instances := is1\<rparr>;
               timed = modInstanceStartMeta (isStartTook_update (\<lambda>_. startTook env))
           in case ticket of
                Waiter c ch \<Rightarrow>
                  (case siErr (awaitedStart env) of
                     Some err \<Rightarrow> Done (ctx1, r1, Inl (wrapf ''starting instance for %q errored: %w'' [path] err))
                   | None \<Rightarrow>
                       assertE (siInstanceId (awaitedStart env) \<noteq> uuidNil) ''instance id was nil''
                        (Done (modInstanceStartMeta (\<lambda>m. m\<lparr>isInstanceID := siInstanceId (awaitedStart env),
                                 isReusedAssigned := True, isStartTook := startTook env\<rparr>) ctx1, r1,
                               Inr (siInstanceId (awaitedStart env)))))
              | Owner c \<Rightarrow>
                  bindE (Start (startEnv env) (runtimeStartTook env) path DetermineFuncRuntime
                          (modInstanceStartMeta (isRuntimeType_update (\<lambda>_. Type DetermineFuncRuntime)) ctx1) (world r1))
                   (\<lambda>(ctx2, rt, w, started).
                      let r2 = duringStart env (r1\<lparr>world := w\<rparr>)
                      in case started of
                           Some err \<Rightarrow>
                             bindE (finishStart (meanwhileStarts env) (startedAt env) (shutdownAfter r2) rt path c
                                     \<lparr>siInstanceId = uuidNil, siErr = Some err\<rparr> (instances r2))
                              (\<lambda>is. Done (timed ctx2, r2\<lparr>instances := is\<rparr>,
                                      Inl (wrapf ''failed to start the instance: %w'' [] err)))
                         | None \<Rightarrow>
                             bindE (finishStart (meanwhileStarts env) (startedAt env) (shutdownAfter r2) rt path c
                                     \<lparr>siInstanceId = instanceId, siErr = None\<rparr> (instances r2))
                              (\<lambda>is. Done (timed ctx2, r2\<lparr>instances := is\<rparr>, Inr instanceId)))))"

section \<open>Preparing an instance\<close>

record PrepareInstanceResponse =
  piInstanceId :: string
  piDownloaded :: bool

definition zeroDownloadMeta :: DownloadMeta where
  "zeroDownloadMeta =
     \<lparr>dlFunctionID = [], dlDownloaded = False, dlDownloadPath = [], dlStoredPath = [], dlBytesWritten = 0,
      dlDownloadTook = 0, dlReusedFromFS = False, dlReusedInFlight = False, dlSourcePath = [], dlSourceFilename = []\<rparr>"

text \<open>The end of each branch: the start of the instance and the response.\<close>

definition startAndRespond ::
  "'q PrepareEnv \<Rightarrow> string \<Rightarrow> bool \<Rightarrow> string \<Rightarrow> 'e Ctx \<Rightarrow> 'q runnerGrpcServer \<Rightarrow>
   ('e Ctx \<times> 'q runnerGrpcServer \<times> PrepareInstanceResponse res) effect" where
  "startAndRespond env failure downloaded path ctx r =
     bindE (startInstance env path ctx r)
      (\<lambda>(ctx1, r1, started).
         Done (ctx1, r1,
           case started of
             Inl err \<Rightarrow> Inl (wrapf failure [] err)
           | Inr instanceId \<Rightarrow> Inr \<lparr>piInstanceId = instanceId, piDownloaded = downloaded\<rparr>))"

definition PrepareFunctionInstance ::
  "'q PrepareEnv \<Rightarrow> string \<Rightarrow> string \<Rightarrow> 'e Ctx \<Rightarrow> 'q runnerGrpcServer \<Rightarrow>
   ('e Ctx \<times> 'q runnerGrpcServer \<times> PrepareInstanceResponse res) effect" where
  "PrepareFunctionInstance env functionId functionPath ctx r =
     (let path = pathOnRunner (downloadsStorageRoot r) functionPath;
          ctx1 = SetDownloadMeta (zeroDownloadMeta\<lparr>dlFunctionID := functionId, dlDownloadPath := functionPath\<rparr>) ctx;
          (fs1, exists) = funcFileExists path (rfs r);
          r1 = r\<lparr>rfs := fs1\<rparr>
      in case exists of
           Inl err \<Rightarrow> Done (ctx1, r1, Inl (wrapf ''function path existence check fail: %w'' [] err))
         | Inr True \<Rightarrow>
             startAndRespond env ''starting instance failed: %w'' False path
               (modDownloadMeta (\<lambda>m. m\<lparr>dlReusedFromFS := True, dlStoredPath := path\<rparr>) ctx1) r1
         | Inr False \<Rightarrow>
             (let (m, ticket) = IsDownloadedOrStartDownload (meanwhileDownloads env) path (dlMap r1);
                  r2 = r1\<lparr>dlMap := m\<rparr>
              in case ticket of
                   Waiter c ch \<Rightarrow>
                     (let ctx2 = modDownloadMeta (dlReusedInFlight_update (\<lambda>_. True)) ctx1
                      in case awaitedDownload env of
                           None \<Rightarrow> Done (ctx2, r2, Inl ErrContext)
                         | Some res \<Rightarrow>
                             (case drErr res of
                                Some err \<Rightarrow> Done (ctx2, r2, Inl (wrapf ''download result errored: %w'' [] err))
                              | None \<Rightarrow>
                                  startAndRespond env ''starting instance downloaded by other failed: %w'' False (drPath res)
                                    (modDownloadMeta (dlStoredPath_update (\<lambda>_. drPath res)) ctx2) r2))
                 | Owner c \<Rightarrow>
                     bindE (downloadFunction env (downloadsStorageRoot r2) functionId ctx1 (rfs r2))
                      (\<lambda>(ctx2, fs2, funcFilePath, bytesWritten, took, derr).
                         let r3 = duringDownload env (r2\<lparr>rfs := fs2\<rparr>)
                         in bindE (finishDownload (meanwhileDownloads env) path c \<lparr>drPath = funcFilePath, drErr = derr\<rparr> (dlMap r3))
                              (\<lambda>m4.
                                 let r4 = r3\<lparr>dlMap := m4\<rparr>
                                 in case derr of
                                      Some err \<Rightarrow> Done (ctx2, r4, Inl (wrapf ''download errored: %w'' [] err))
                                    | None \<Rightarrow>
                                        startAndRespond env ''starting downloaded instance failed: %w'' True funcFilePath
                                          (modDownloadMeta (\<lambda>m. m\<lparr>dlDownloaded := True, dlStoredPath := funcFilePath,
                                             dlBytesWritten := int bytesWritten, dlDownloadTook := took\<rparr>) ctx2) r4))))"

section \<open>Laws of the download\<close>

lemma popFault_faults: "faults (popFault fs) = tl (faults fs)"
  by (simp add: popFault_def)

text \<open>The temporary file stays behind only when the call that removes it fails.\<close>

definition lastCallFailed :: "FS \<Rightarrow> FS \<Rightarrow> bool" where
  "lastCallFailed fs fs' \<longleftrightarrow> (\<exists>pre e n. faults fs = pre @ Fault e n # faults fs')"

lemma lastCallFailed_pop: "lastCallFailed (popFault fs) fs' \<Longrightarrow> lastCallFailed fs fs'"
  unfolding lastCallFailed_def popFault_faults
  by (metis append_Cons list.sel(3) append_is_Nil_conv list.distinct(1) list.exhaust_sel tl_Nil)

lemma DeleteFile_gone:
  assumes "fmlookup (nodes fs) (filepath_Clean p) = Some (File bs)"
  shows "fmlookup (nodes (DeleteFile p fs)) (filepath_Clean p) = None \<or> lastCallFailed fs (DeleteFile p fs)"
  using assms
  by (auto simp: DeleteFile_def os_Remove_def Let_def nextFault_def lastCallFailed_def popFault_def
      split: list.splits OsFault.splits intro: exI[of _ "[]"])

lemma lastCallFailed_faults: "faults fs = faults fs1 \<Longrightarrow> lastCallFailed fs1 fs' \<Longrightarrow> lastCallFailed fs fs'"
  by (simp add: lastCallFailed_def)

lemma faults_appendFile [simp]: "faults (appendFile p bs fs) = faults fs"
  by (auto simp: appendFile_def putFile_def split: option.splits Node.splits)

lemma io_Copy_lookup:
  assumes "io_Copy file reader fs = (fs1, n, err)" and "fmlookup (nodes fs) (filepath_Clean file) = Some (File [])"
  shows "\<exists>k. nodes fs1 = fmupd (filepath_Clean file) (File (take k (fst reader))) (nodes fs)"
    and "faults fs1 = tl (faults fs)"
    and "err = None \<Longrightarrow> nodes fs1 = fmupd (filepath_Clean file) (File (fst reader)) (nodes fs) \<and>
      n = length (fst reader) \<and> snd reader = None"
proof -
  show "\<exists>k. nodes fs1 = fmupd (filepath_Clean file) (File (take k (fst reader))) (nodes fs)"
    using assms by (auto simp: io_Copy_def Let_def appendFile_def intro: exI[of _ "length (fst reader)"] split: OsFault.splits)
  show "faults fs1 = tl (faults fs)"
    using assms by (auto simp: io_Copy_def Let_def popFault_def split: OsFault.splits)
  show "err = None \<Longrightarrow> nodes fs1 = fmupd (filepath_Clean file) (File (fst reader)) (nodes fs) \<and>
      n = length (fst reader) \<and> snd reader = None"
    using assms by (auto simp: io_Copy_def Let_def appendFile_def split: OsFault.splits)
qed

lemma lastCallFailed_drop:
  assumes "faults fs1 = drop k (faults fs)" and "lastCallFailed fs1 fs'"
  shows "lastCallFailed fs fs'"
  using assms unfolding lastCallFailed_def by (metis append.assoc append_take_drop_id)

text \<open>Giving up with the temporary file \<open>tmp\<close> half written: nothing else changes.\<close>

definition gaveUp :: "string \<Rightarrow> FS \<Rightarrow> FS \<Rightarrow> bool" where
  "gaveUp t fs fs' \<longleftrightarrow> (\<forall>q. q \<noteq> t \<longrightarrow> fmlookup (nodes fs') q = fmlookup (nodes fs) q) \<and>
     (fmlookup (nodes fs') t = None \<or> lastCallFailed fs fs')"

lemma DeleteFile_gaveUp:
  assumes "nodes fs1 = fmupd (filepath_Clean tmp) (File bs) (nodes fs)" and "faults fs1 = drop k (faults fs)"
  shows "gaveUp (filepath_Clean tmp) fs (DeleteFile tmp fs1)"
  using DeleteFile_gone[of fs1 tmp bs] lastCallFailed_drop[OF assms(2)] assms(1)
  by (auto simp: gaveUp_def DeleteFile_frame)

lemma os_Rename_file:
  assumes "os_Rename old new fs = (fs', err)" and "fmlookup (nodes fs) (filepath_Clean old) = Some (File bs)"
  shows "faults fs' = tl (faults fs)"
    and "err = None \<Longrightarrow> nodes fs' = fmupd (filepath_Clean new) (File bs) (fmdrop (filepath_Clean old) (nodes fs))"
    and "err \<noteq> None \<Longrightarrow> nodes fs' = nodes fs"
  using assms by (auto simp: os_Rename_def Let_def popFault_def split: OsFault.splits if_splits)

lemma fillTemp_spec:
  assumes "fillTemp functionId tmp path reader fs = (fs', res)"
    and "fmlookup (nodes fs) (filepath_Clean tmp) = Some (File [])"
  shows "case res of
     Inr n \<Rightarrow> n = length (fst reader) \<and> snd reader = None \<and>
       nodes fs' = fmupd (filepath_Clean path) (File (fst reader)) (fmdrop (filepath_Clean tmp) (nodes fs))
   | Inl e \<Rightarrow> gaveUp (filepath_Clean tmp) fs fs'"
proof -
  let ?t = "filepath_Clean tmp"
  obtain fs1 n err where copy: "io_Copy tmp reader fs = (fs1, n, err)" by (cases "io_Copy tmp reader fs") auto
  note c = io_Copy_lookup[OF copy assms(2)]
  obtain bs where bs: "nodes fs1 = fmupd ?t (File bs) (nodes fs)" using c(1) by blast
  note cleanup = DeleteFile_gaveUp[of _ tmp bs fs]
  show ?thesis
  proof (cases err)
    case (Some e)
    then show ?thesis using assms(1) copy cleanup[OF bs, of 1] c(2) by (auto simp: fillTemp_def drop_Suc)
  next
    case None
    obtain fs2 err2 where close: "file_Close fs1 = (fs2, err2)" by (cases "file_Close fs1") auto
    then have 2: "nodes fs2 = nodes fs1" "faults fs2 = drop 2 (faults fs)"
      using c(2) by (auto simp: file_Close_def popFault_def drop_Suc numeral_2_eq_2)
    obtain fs3 err3 where chmod: "os_Chmod tmp fs2 = (fs3, err3)" by (cases "os_Chmod tmp fs2") auto
    then have 3: "nodes fs3 = nodes fs1" "faults fs3 = drop 3 (faults fs)"
      using 2 by (auto simp: os_Chmod_def popFault_def drop_Suc numeral_3_eq_3 numeral_2_eq_2 tl_drop)
    obtain fs4 err4 where ren: "os_Rename tmp path fs3 = (fs4, err4)" by (cases "os_Rename tmp path fs3") auto
    have "fmlookup (nodes fs3) ?t = Some (File bs)" using 3 bs by simp
    note r = os_Rename_file[OF ren this]
    have 4: "faults fs4 = drop 4 (faults fs)" using r(1) 3 by (simp add: tl_drop flip: drop_Suc)
    show ?thesis
    proof (cases "err2 = None \<and> err3 = None \<and> err4 = None")
      case True
      have "bs = fst reader" using c(3)[OF None] bs by (metis fmupd_lookup Node.inject option.inject)
      then show ?thesis
        using assms(1) True None copy close chmod ren r(2) 3 c(3)[OF None] by (auto simp: fillTemp_def fmdrop_fmupd)
    next
      case False
      then show ?thesis
        using assms(1) None copy close chmod ren r(3) 2 3 4 bs
          cleanup[of fs2 2] cleanup[of fs3 3] cleanup[of fs4 4]
        by (auto simp: fillTemp_def split: option.splits)
    qed
  qed
qed

lemma find_SomeD: "find P xs = Some x \<Longrightarrow> x \<in> set xs \<and> P x"
  by (auto simp: find_Some_iff)

lemma os_CreateTemp_spec:
  assumes "os_CreateTemp rs dir pattern fs = (fs', res)"
  shows "case res of
     Inl e \<Rightarrow> nodes fs' = nodes fs
   | Inr tmp \<Rightarrow> faults fs' = tl (faults fs) \<and>
       (\<exists>r \<in> set rs. tmp = tempName dir pattern r) \<and> fmlookup (nodes fs) (filepath_Clean tmp) = None \<and>
       nodes fs' = fmupd (filepath_Clean tmp) (File []) (nodes fs)"
  using assms
  by (auto simp: os_CreateTemp_def Let_def popFault_def putFile_def dest!: find_SomeD
      split: if_splits OsFault.splits option.splits)

lemma os_MkdirAll_faults: "os_MkdirAll path fs = (fs', err) \<Longrightarrow> faults fs' = tl (faults fs)"
proof -
  have "faults (fold mkdir ps fs) = faults fs" for ps fs
    by (induction ps arbitrary: fs) (auto simp: mkdir_def)
  then show "os_MkdirAll path fs = (fs', err) \<Longrightarrow> faults fs' = tl (faults fs)"
    by (auto simp: os_MkdirAll_def Let_def popFault_def split: OsFault.splits if_splits)
qed

text \<open>Only new directories, besides what \<open>keep\<close> allows.\<close>

definition onlyNewDirs :: "(string \<Rightarrow> bool) \<Rightarrow> FS \<Rightarrow> FS \<Rightarrow> bool" where
  "onlyNewDirs other fs fs' \<longleftrightarrow> (\<forall>q. fmlookup (nodes fs') q = fmlookup (nodes fs) q \<or>
     fmlookup (nodes fs) q = None \<and> fmlookup (nodes fs') q = Some DirNode \<or> other q)"

lemma onlyNewDirs_mono: "onlyNewDirs (\<lambda>_. False) fs fs' \<Longrightarrow> onlyNewDirs other fs fs'"
  by (auto simp: onlyNewDirs_def)

lemma onlyNewDirs_nodes: "nodes fs2 = nodes fs1 \<Longrightarrow> onlyNewDirs other fs fs2 = onlyNewDirs other fs fs1"
  by (simp add: onlyNewDirs_def)

text \<open>One more path may differ.\<close>

lemma onlyNewDirs_but_temp:
  assumes "onlyNewDirs (\<lambda>_. False) fs fs1" and "\<forall>q. q \<noteq> t \<longrightarrow> fmlookup (nodes fs') q = fmlookup (nodes fs1) q"
    and "fmlookup (nodes fs) t = None" and "fmlookup (nodes fs') t = None \<or> other t"
  shows "onlyNewDirs other fs fs'"
  unfolding onlyNewDirs_def
proof (rule allI)
  fix q
  show "fmlookup (nodes fs') q = fmlookup (nodes fs) q \<or>
      fmlookup (nodes fs) q = None \<and> fmlookup (nodes fs') q = Some DirNode \<or> other q"
    using assms unfolding onlyNewDirs_def by (cases "q = t") metis+
qed

definition tempPath :: "string \<Rightarrow> string \<Rightarrow> string \<Rightarrow> string" where
  "tempPath d name r = filepath_Join [d, name @ ''-'' @ r]"

lemma tempPath_neq:
  assumes "plain_name name" and "slash \<notin> set r"
  shows "tempPath d name r \<noteq> filepath_Join [d, name]"
proof
  assume eq: "tempPath d name r = filepath_Join [d, name]"
  have "plain_name (name @ ''-'' @ r)" using assms by (auto simp: plain_name_def slash_def append_eq_Cons_conv)
  from Base_Join[OF this, of d] Base_Join[OF assms(1), of d] eq show False by (simp add: tempPath_def)
qed

lemma storeFunction_spec:
  assumes "storeFunction rs functionId (filepath_Join [d, name]) name reader fs = (fs', res)"
    and "plain_name name" and "\<forall>r \<in> set rs. slash \<notin> set r"
  defines "p \<equiv> filepath_Join [d, name]"
  shows "case res of
     Inr n \<Rightarrow> n = length (fst reader) \<and> snd reader = None \<and>
       fmlookup (nodes fs') p = Some (File (fst reader)) \<and> onlyNewDirs (\<lambda>q. q = p) fs fs'
   | Inl e \<Rightarrow> fmlookup (nodes fs') p = fmlookup (nodes fs) p \<and>
       onlyNewDirs (\<lambda>q. fmlookup (nodes fs) q = None \<and> (\<exists>r \<in> set rs. q = tempPath d name r) \<and> lastCallFailed fs fs') fs fs'"
proof -
  have dir: "filepath_Dir p = filepath_Clean d" using Dir_Join[OF assms(2)] by (simp add: p_def)
  have clean: "filepath_Clean p = p" using Clean_Join[OF assms(2)] by (simp add: p_def)
  obtain fs1 err1 where mk: "os_MkdirAll (filepath_Clean d) fs = (fs1, err1)"
    by (cases "os_MkdirAll (filepath_Clean d) fs") auto
  have 1: "onlyNewDirs (\<lambda>_. False) fs fs1" "fmlookup (nodes fs1) p = fmlookup (nodes fs) p"
    using MkdirAll_frame[OF mk] file_not_dirPrefix[OF assms(2), of d] unfolding onlyNewDirs_def p_def by blast+
  show ?thesis
  proof (cases err1)
    case (Some e)
    then show ?thesis
      using assms(1) mk 1 dir onlyNewDirs_mono[OF 1(1)] by (auto simp: storeFunction_def Let_def p_def)
  next
    case None
    obtain fs2 res2 where ct: "os_CreateTemp rs (filepath_Clean d) (name @ ''-*'') fs1 = (fs2, res2)"
      by (cases "os_CreateTemp rs (filepath_Clean d) (name @ ''-*'') fs1") auto
    note c = os_CreateTemp_spec[OF ct]
    show ?thesis
    proof (cases res2)
      case (Inl e)
      then show ?thesis
        using assms(1) mk ct c 1 dir None onlyNewDirs_mono[OF 1(1)]
          onlyNewDirs_nodes[of fs2 fs1]
        by (auto simp: storeFunction_def Let_def p_def)
    next
      case (Inr tmp)
      let ?t = "filepath_Clean tmp"
      obtain r where r: "r \<in> set rs" "?t = tempPath d name r"
        using c Inr tempName_path[OF assms(2)] assms(3) by (auto simp: tempPath_def)
      have t: "?t \<noteq> p" using tempPath_neq[OF assms(2)] r assms(3) by (auto simp: p_def)
      have fill: "fillTemp functionId tmp p reader fs2 = (fs', res)"
        using assms(1) mk ct Inr None dir by (auto simp: storeFunction_def Let_def p_def)
      have f: "faults fs2 = drop 2 (faults fs)"
        using c Inr os_MkdirAll_faults[OF mk] by (simp add: drop_Suc numeral_2_eq_2)
      have n: "nodes fs2 = fmupd ?t (File []) (nodes fs1)" "fmlookup (nodes fs1) ?t = None" using c Inr by auto
      then have look: "fmlookup (nodes fs2) ?t = Some (File [])" by simp
      note s = fillTemp_spec[OF fill look]
      show ?thesis
      proof (cases res)
        case res: (Inl e)
        have g: "\<forall>q. q \<noteq> ?t \<longrightarrow> fmlookup (nodes fs') q = fmlookup (nodes fs1) q"
          "fmlookup (nodes fs') ?t = None \<or> lastCallFailed fs fs'"
          using s res n lastCallFailed_drop[OF f] by (auto simp: gaveUp_def)
        have tn: "fmlookup (nodes fs) ?t = None" using 1(1) n(2) by (auto simp: onlyNewDirs_def) (metis option.distinct(1))
        have "onlyNewDirs (\<lambda>q. fmlookup (nodes fs) q = None \<and> (\<exists>r \<in> set rs. q = tempPath d name r) \<and>
            lastCallFailed fs fs') fs fs'"
          using g(2) tn r by (intro onlyNewDirs_but_temp[OF 1(1) g(1) tn]) blast
        moreover have "fmlookup (nodes fs') p = fmlookup (nodes fs) p" using g(1) t 1(2) by metis
        ultimately show ?thesis using res by simp
      next
        case res: (Inr n')
        have "fmlookup (nodes fs') q = fmlookup (nodes fs1) q" if "q \<noteq> p" for q
          using s res that n t clean by (auto simp: fmlookup_drop)
        then show ?thesis using s res 1 clean unfolding onlyNewDirs_def by auto
      qed
    qed
  qed
qed

section \<open>Properties\<close>

lemma download_atomic_spec:
  assumes "downloadFunction env root functionId ctx fs = Done (ctx', fs', path, n, took, err)"
    and "client env functionId = Inr resp"
    and "name = headerGet (respHeader resp) DownloadHeaderFunctionFilename" and "plain_name name"
    and "\<forall>r \<in> set (rands env). slash \<notin> set r"
    and "p = pathOnRunner root (filepath_Join [headerGet (respHeader resp) DownloadHeaderFunctionPath, name])"
  shows "case err of
     None \<Rightarrow> path = p \<and> n = length (fst (respBody resp)) \<and> snd (respBody resp) = None \<and>
       fmlookup (nodes fs') p = Some (File (fst (respBody resp))) \<and> onlyNewDirs (\<lambda>q. q = p) fs fs'
   | Some e \<Rightarrow> path = [] \<and> fmlookup (nodes fs') p = fmlookup (nodes fs) p \<and>
       onlyNewDirs (\<lambda>q. fmlookup (nodes fs) q = None \<and> filepath_Dir q = filepath_Dir p \<and> lastCallFailed fs fs') fs fs'"
proof (cases "StatusCode resp = 404 \<or> StatusCode resp = 500")
  case True
  then show ?thesis using assms(1,2) by (auto simp: downloadFunction_def onlyNewDirs_def)
next
  case False
  obtain d where d: "p = filepath_Join [d, name]"
    using Join_Join[OF assms(4), of root] assms(6) unfolding pathOnRunner_def by metis
  obtain fs1 res where store: "storeFunction (rands env) functionId p name (respBody resp) fs = (fs1, res)"
    by (cases "storeFunction (rands env) functionId p name (respBody resp) fs") auto
  note s = storeFunction_spec[OF store[unfolded d] assms(4,5), folded d]
  have run: "fs' = fs1" "case res of Inl e \<Rightarrow> path = [] \<and> err = Some e | Inr m \<Rightarrow> path = p \<and> n = m \<and> err = None"
    using assms(1,2) False store assms(3,6)
    by (auto simp: downloadFunction_def Let_def assertE_def split: if_splits sum.splits)
  have dir: "filepath_Dir q = filepath_Dir p" if "q = tempPath d name r" "r \<in> set (rands env)" for q r
  proof -
    have "plain_name (name @ ''-'' @ r)"
      using assms(4,5) that(2) by (auto simp: plain_name_def slash_def append_eq_Cons_conv)
    then show ?thesis using that(1) Dir_Join assms(4) by (simp add: tempPath_def d)
  qed
  show ?thesis
  proof (cases res)
    case (Inl e)
    have "onlyNewDirs (\<lambda>q. fmlookup (nodes fs) q = None \<and> filepath_Dir q = filepath_Dir p \<and> lastCallFailed fs fs') fs fs'"
      using s Inl run(1) dir unfolding onlyNewDirs_def by simp metis
    then show ?thesis using s Inl run by simp
  next
    case (Inr m)
    then show ?thesis using s run by simp
  qed
qed

text \<open>
  C7: A download is atomic. When it succeeds, the function's file has exactly the bytes of the response,
  the reader of which has ended without an error, and nothing else changed but directories that were
  created on the way. When it fails, the function's file is what it was before, even if the disk or the
  network failed half way; a temporary file is left behind only when the call that removes it failed
  itself.
\<close>

theorem download_atomic:
  assumes "downloadFunction env root functionId ctx fs = Done (ctx', fs', path, n, took, err)"
    and "client env functionId = Inr resp"
    and "name = headerGet (respHeader resp) DownloadHeaderFunctionFilename" and "plain_name name"
    and "\<forall>r \<in> set (rands env). slash \<notin> set r"
    and "p = pathOnRunner root (filepath_Join [headerGet (respHeader resp) DownloadHeaderFunctionPath, name])"
  shows "case err of
     None \<Rightarrow> path = p \<and> n = length (fst (respBody resp)) \<and> snd (respBody resp) = None \<and>
       fmlookup (nodes fs') p = Some (File (fst (respBody resp))) \<and> onlyNewDirs (\<lambda>q. q = p) fs fs'
   | Some e \<Rightarrow> path = [] \<and> fmlookup (nodes fs') p = fmlookup (nodes fs) p \<and>
       onlyNewDirs (\<lambda>q. fmlookup (nodes fs) q = None \<and> filepath_Dir q = filepath_Dir p \<and> lastCallFailed fs fs') fs fs'"
  by (rule download_atomic_spec[OF assms])

definition example_response :: DownloadResponse where
  "example_response =
     \<lparr>StatusCode = 200,
      respHeader = fmupd DownloadHeaderFunctionPath ''/srv'' (fmupd DownloadHeaderFunctionFilename ''f-07'' fmempty),
      respBody = ([1, 2], None)\<rparr>"

definition example_prepare_env :: "unit PrepareEnv" where
  "example_prepare_env =
     \<lparr>client = (\<lambda>_. Inr example_response), rands = [''31''], downloadTook = 5, duringDownload = (\<lambda>r. r),
      awaitedDownload = None, newV7 = Inr ''0190-7'', startEnv = example_start_env, runtimeStartTook = 4,
      startTook = 4, startedAt = 100, duringStart = (\<lambda>r. r),
      awaitedStart = \<lparr>siInstanceId = [], siErr = None\<rparr>, meanwhileDownloads = (\<lambda>m. m), meanwhileStarts = (\<lambda>s. s)\<rparr>"

definition example_download_ctx :: "unit Ctx" where
  "example_download_ctx = emptyCtx\<lparr>downloadSlot := Holder (Some zeroDownloadMeta), instanceStartSlot := Holder None\<rparr>"

definition empty_disk :: FS where
  "empty_disk = \<lparr>nodes = fmempty, faults = []\<rparr>"

theorem download_atomic_witness:
  "\<exists>ctx' fs' took. downloadFunction example_prepare_env ''/run'' ''1'' example_download_ctx empty_disk =
      Done (ctx', fs', ''/run/srv/f-07'', 2, took, None) \<and>
    fmlookup (nodes fs') ''/run/srv/f-07'' = Some (File [1, 2])"
proof -
  have run: "(case downloadFunction example_prepare_env ''/run'' ''1'' example_download_ctx empty_disk of
      Done (_, _, path, n, took, err) \<Rightarrow> path = ''/run/srv/f-07'' \<and> n = 2 \<and> err = None
    | _ \<Rightarrow> False)" by code_simp
  then obtain ctx' fs' took where d: "downloadFunction example_prepare_env ''/run'' ''1'' example_download_ctx
      empty_disk = Done (ctx', fs', ''/run/srv/f-07'', 2, took, None)"
    by (auto split: effect.splits prod.splits)
  have c: "client example_prepare_env ''1'' = Inr example_response" by (simp add: example_prepare_env_def)
  have name: "''f-07'' = headerGet (respHeader example_response) DownloadHeaderFunctionFilename"
    and p: "''/run/srv/f-07'' = pathOnRunner ''/run''
      (filepath_Join [headerGet (respHeader example_response) DownloadHeaderFunctionPath, ''f-07''])"
    and pl: "plain_name ''f-07''" and r: "\<forall>r \<in> set (rands example_prepare_env). slash \<notin> set r"
    by code_simp+
  show ?thesis
    using download_atomic[OF d c name pl r p] d by (simp add: example_response_def)
qed

section \<open>Preparing\<close>

text \<open>The other handlers leave the files alone, apart from their own temporary files, and the settings.\<close>

definition calm :: "'q PrepareEnv \<Rightarrow> bool" where
  "calm env \<longleftrightarrow>
     (\<forall>r. rfs (duringDownload env r) = rfs r \<and> downloadsStorageRoot (duringDownload env r) = downloadsStorageRoot r) \<and>
     (\<forall>r. rfs (duringStart env r) = rfs r \<and> downloadsStorageRoot (duringStart env r) = downloadsStorageRoot r)"

lemma startInstance_files:
  assumes "startInstance env path ctx r = Done (ctx', r', res)" and "calm env"
  shows "rfs r' = rfs r \<and> downloadsStorageRoot r' = downloadsStorageRoot r"
  using assms
  by (auto simp: startInstance_def Let_def calm_def bindE_def assertE_def
      split: sum.splits prod.splits Ticket.splits option.splits effect.splits if_splits)

lemma startAndRespond_files:
  assumes "startAndRespond env failure dl path ctx r = Done (ctx', r', res)" and "calm env"
  shows "rfs r' = rfs r \<and> downloadsStorageRoot r' = downloadsStorageRoot r \<and>
    (\<forall>resp. res = Inr resp \<longrightarrow> piDownloaded resp = dl)"
proof (cases "startInstance env path ctx r")
  case (Done y)
  then show ?thesis
    using assms startInstance_files[OF _ assms(2), of path ctx r]
    by (cases y) (auto simp: startAndRespond_def split: sum.splits)
qed (use assms in \<open>simp_all add: startAndRespond_def\<close>)

text \<open>A file that is there is used: the commander is not asked.\<close>

lemma prepare_existing:
  assumes "faults (rfs r) = []" and "filepath_Clean path = path"
    and "path = pathOnRunner (downloadsStorageRoot r) functionPath"
    and "fmlookup (nodes (rfs r)) path = Some (File bs)"
  shows "PrepareFunctionInstance env functionId functionPath ctx r =
    startAndRespond env ''starting instance failed: %w'' False path
      (modDownloadMeta (\<lambda>m. m\<lparr>dlReusedFromFS := True, dlStoredPath := path\<rparr>)
        (SetDownloadMeta (zeroDownloadMeta\<lparr>dlFunctionID := functionId, dlDownloadPath := functionPath\<rparr>) ctx)) r"
proof -
  have "funcFileExists path (rfs r) = (rfs r, Inr True)"
    using assms(1,2,4) by (simp add: funcFileExists_def os_Stat_def Let_def nextFault_def popFault_def)
  then show ?thesis using assms(3) by (simp add: PrepareFunctionInstance_def Let_def)
qed

lemma prepare_downloaded:
  fixes ctx :: "'e Ctx"
  assumes "PrepareFunctionInstance env functionId functionPath ctx r = Done (ctx', r', Inr resp)"
    and "piDownloaded resp" and "calm env"
  obtains ctx1 ctx2 :: "'e Ctx" and fs1 fs2 path n took where
    "downloadFunction env (downloadsStorageRoot r) functionId ctx1 fs1 = Done (ctx2, fs2, path, n, took, None)"
    and "fs1 = fst (funcFileExists (pathOnRunner (downloadsStorageRoot r) functionPath) (rfs r))"
    and "rfs r' = fs2" and "downloadsStorageRoot r' = downloadsStorageRoot r"
proof -
  let ?path = "pathOnRunner (downloadsStorageRoot r) functionPath"
  have sr: "d \<and> rfs r' = rfs s \<and> downloadsStorageRoot r' = downloadsStorageRoot s"
    if "startAndRespond env f d q c s = Done (ctx', r', Inr resp)" for f d q c s
    using startAndRespond_files[OF that assms(3)] assms(2) by blast
  have no: "startAndRespond env f False q c s \<noteq> Done (ctx', r', Inr resp)" for f q c s using sr by blast
  obtain fs1 ex where fe: "funcFileExists ?path (rfs r) = (fs1, ex)" by fastforce
  obtain m t where ask: "IsDownloadedOrStartDownload (meanwhileDownloads env) ?path (dlMap r) = (m, t)" by fastforce
  have ex: "ex = Inr False"
    using assms(1) fe by (auto simp: PrepareFunctionInstance_def Let_def no split: sum.splits bool.splits prod.splits)
  note run = assms(1)[unfolded PrepareFunctionInstance_def Let_def fe ex split_conv sum.case bool.case]
  obtain c where t: "t = Owner c"
    using run ask by (cases t) (auto simp: no split: option.splits)
  let ?ctx = "SetDownloadMeta (zeroDownloadMeta\<lparr>dlFunctionID := functionId, dlDownloadPath := functionPath\<rparr>) ctx"
  obtain ctx2 fs2 path n took derr where
    d: "downloadFunction env (downloadsStorageRoot r) functionId ?ctx fs1 = Done (ctx2, fs2, path, n, took, derr)"
    using run ask t by (cases "downloadFunction env (downloadsStorageRoot r) functionId ?ctx fs1") auto
  let ?r = "duringDownload env (r\<lparr>rfs := fs1, dlMap := m, rfs := fs2\<rparr>)"
  obtain m4 where "finishDownload (meanwhileDownloads env) ?path c \<lparr>drPath = path, drErr = derr\<rparr> (dlMap ?r) = Done m4"
    using run ask t d
    by (cases "finishDownload (meanwhileDownloads env) ?path c \<lparr>drPath = path, drErr = derr\<rparr> (dlMap ?r)") (auto simp: Let_def)
  then have "derr = None \<and> rfs r' = rfs ?r \<and> downloadsStorageRoot r' = downloadsStorageRoot ?r"
    using run ask t d by (auto simp: Let_def dest!: sr split: option.splits)
  then have "derr = None" "rfs r' = fs2" "downloadsStorageRoot r' = downloadsStorageRoot r"
    using assms(3) by (simp_all add: calm_def)
  then show thesis using that[OF d[unfolded \<open>derr = None\<close>]] fe by simp
qed

text \<open>
  C10: A function is downloaded once. After a prepare call that downloaded it, with the commander sending
  the file name the function is known by, the file holds the bytes the commander sent; and whatever a
  later prepare call for the same function meets, it does not ask the commander (its outcome is the same
  for every commander), it does not report a download, and it leaves the file as it is.
\<close>

theorem prepare_downloads_once:
  fixes ctx :: "'e Ctx" and ctx2 :: "'e2 Ctx"
  assumes "PrepareFunctionInstance env functionId functionPath ctx r = Done (ctx', r', Inr resp)"
    and "piDownloaded resp" and "calm env" and "faults (rfs r') = []"
    and "client env functionId = Inr dresp"
    and "name = headerGet (respHeader dresp) DownloadHeaderFunctionFilename" and "plain_name name"
    and "\<forall>x \<in> set (rands env). slash \<notin> set x"
    and "path = pathOnRunner (downloadsStorageRoot r) functionPath"
    and "path = pathOnRunner (downloadsStorageRoot r)
      (filepath_Join [headerGet (respHeader dresp) DownloadHeaderFunctionPath, name])"
  shows "fmlookup (nodes (rfs r')) path = Some (File (fst (respBody dresp))) \<and>
    PrepareFunctionInstance (env2\<lparr>client := c\<rparr>) functionId functionPath ctx2 r' =
      PrepareFunctionInstance env2 functionId functionPath ctx2 r' \<and>
    (\<forall>ctx3 r3 resp3. calm env2 \<and>
      PrepareFunctionInstance env2 functionId functionPath ctx2 r' = Done (ctx3, r3, Inr resp3) \<longrightarrow>
        \<not> piDownloaded resp3 \<and> rfs r3 = rfs r')"
proof -
  obtain c1 c2 fs1 fs2 q n took where
    d: "downloadFunction env (downloadsStorageRoot r) functionId (c1 :: 'e Ctx) fs1 = Done (c2, fs2, q, n, took, None)"
    and rfs: "rfs r' = fs2" and root: "downloadsStorageRoot r' = downloadsStorageRoot r"
    using prepare_downloaded[OF assms(1-3)] by metis
  have f: "fmlookup (nodes (rfs r')) path = Some (File (fst (respBody dresp)))"
    using download_atomic_spec[OF d assms(5-8,10)] rfs by simp
  have clean: "filepath_Clean path = path"
    using Join_Join[OF assms(7)] Clean_Join[OF assms(7)] assms(10) unfolding pathOnRunner_def by metis
  note ex = prepare_existing[OF assms(4) clean _ f, unfolded root, OF assms(9)]
  let ?e = "env2\<lparr>client := c\<rparr>"
  have fields: "newV7 ?e = newV7 env2" "startEnv ?e = startEnv env2" "runtimeStartTook ?e = runtimeStartTook env2"
    "startTook ?e = startTook env2" "startedAt ?e = startedAt env2" "duringStart ?e = duringStart env2"
    "awaitedStart ?e = awaitedStart env2" "meanwhileStarts ?e = meanwhileStarts env2" by simp_all
  have "startInstance (env2\<lparr>client := c\<rparr>) p x s = startInstance env2 p x s" for p s and x :: "'e2 Ctx"
    unfolding startInstance_def fields ..
  then have same: "PrepareFunctionInstance (env2\<lparr>client := c\<rparr>) functionId functionPath ctx2 r' =
      PrepareFunctionInstance env2 functionId functionPath ctx2 r'"
    unfolding ex by (simp add: startAndRespond_def)
  show ?thesis using f same startAndRespond_files unfolding ex by blast
qed

definition example_runner :: "unit runnerGrpcServer" where
  "example_runner =
     \<lparr>runnerId = 1, instances = NewInstanceStates, dlMap = NewDownloadsSyncMap, downloadsStorageRoot = ''/run'',
      shutdownAfter = 60, instanceGracePeriod = 5, rfs = empty_disk, world = empty_world\<rparr>"

lemma example_prepare:
  "case PrepareFunctionInstance example_prepare_env ''1'' ''/srv/f-07'' example_download_ctx example_runner of
     Done (_, r', Inr resp) \<Rightarrow> piDownloaded resp \<and> faults (rfs r') = [] \<and> piInstanceId resp = ''0190-7''
   | _ \<Rightarrow> False"
  by code_simp

theorem prepare_downloads_once_witness:
  "\<exists>ctx' r' resp. PrepareFunctionInstance example_prepare_env ''1'' ''/srv/f-07'' example_download_ctx example_runner =
      Done (ctx', r', Inr resp) \<and>
    fmlookup (nodes (rfs r')) ''/run/srv/f-07'' = Some (File [1, 2])"
proof -
  obtain ctx' r' resp where p: "PrepareFunctionInstance example_prepare_env ''1'' ''/srv/f-07''
      example_download_ctx example_runner = Done (ctx', r', Inr resp)"
    and resp: "piDownloaded resp" "faults (rfs r') = []"
    using example_prepare by (auto split: effect.splits prod.splits sum.splits)
  have c: "calm example_prepare_env" "client example_prepare_env ''1'' = Inr example_response"
    by (simp_all add: calm_def example_prepare_env_def)
  have name: "''f-07'' = headerGet (respHeader example_response) DownloadHeaderFunctionFilename"
    and q: "''/run/srv/f-07'' = pathOnRunner (downloadsStorageRoot example_runner)
      (filepath_Join [headerGet (respHeader example_response) DownloadHeaderFunctionPath, ''f-07''])"
    and p': "''/run/srv/f-07'' = pathOnRunner (downloadsStorageRoot example_runner) ''/srv/f-07''"
    and pl: "plain_name ''f-07''" and r: "\<forall>r \<in> set (rands example_prepare_env). slash \<notin> set r"
    by code_simp+
  have "fmlookup (nodes (rfs r')) ''/run/srv/f-07'' = Some (File (fst (respBody example_response)))"
    using prepare_downloads_once[OF p resp(1) c(1) resp(2) c(2) name pl r p' q] by blast
  then show ?thesis using p by (auto simp: example_response_def)
qed

end
