(* ===== verification/Guest.thy ===== *)
theory Guest
  imports ServerContext
begin

text \<open>
  The SDK that a function is linked with (\<open>pkg/guest/entrypoint.go\<close>): the life of the guest process and
  the gRPC handler around the author's function. The function is a parameter; it returns a response that
  may be nil, and an error.
\<close>

record GuestRequest =
  gMethod :: string
  gPath :: string
  gHeaders :: "(string, string) fmap"
  gBody :: bytes

record GuestResponse =
  gStatusCode :: int
  gRespHeaders :: "(string, string) fmap"
  gRespBody :: bytes

type_synonym FunctionHandler = "GuestRequest \<Rightarrow> GuestResponse option \<times> goerr option"

section \<open>The process\<close>

text \<open>How the server ends: by a signal, by an error of \<open>Serve\<close>, or because it was stopped.\<close>

datatype GuestEvent = Signalled | ServeFailed goerr | ServeEnded

definition start ::
  "FunctionHandler option \<Rightarrow> string \<Rightarrow> (string \<Rightarrow> goerr option) \<Rightarrow> GuestEvent \<Rightarrow> goerr option" where
  "start f addr listen ev =
     (if f = None then Some (Errorf ''function handler is nil'' [] None)
      else if addr = [] then Some (Errorf ''no addr configured'' [] None)
      else case listen addr of
             Some err \<Rightarrow> Some (wrapf ''failed to listen on addr %q: %w'' [addr] err)
           | None \<Rightarrow>
               (case ev of
                  Signalled \<Rightarrow> None
                | ServeFailed err \<Rightarrow> Some (wrapf ''grpc server failed to serve: %w'' [] err)
                | ServeEnded \<Rightarrow> None))"

text \<open>\<open>Start\<close> ends the process with exit code one on an error and returns otherwise.\<close>

definition guestExitCode ::
  "FunctionHandler option \<Rightarrow> string \<Rightarrow> (string \<Rightarrow> goerr option) \<Rightarrow> GuestEvent \<Rightarrow> int" where
  "guestExitCode f addr listen ev = (case start f addr listen ev of Some _ \<Rightarrow> 1 | None \<Rightarrow> 0)"

section \<open>The handler\<close>

definition guestHeartbeat :: "unit res" where
  "guestHeartbeat = Inr ()"

definition NilResponseErrorMsg :: string where
  "NilResponseErrorMsg = ''response was nil''"

definition zeroGuestInvokeMeta :: GuestInvokeMeta where
  "zeroGuestInvokeMeta =
     \<lparr>giMethod = [], giPath = [], giRequestBodyBytes = 0, giHeadersCount = 0, giInvocationTook = 0,
      giResponseStatusCode = 0, giResponseBodyBytes = 0\<rparr>"

definition modGuestInvokeMeta :: "(GuestInvokeMeta \<Rightarrow> GuestInvokeMeta) \<Rightarrow> 'e Ctx \<Rightarrow> 'e Ctx" where
  "modGuestInvokeMeta f ctx = ctx\<lparr>guestInvokeSlot := slotMod f (guestInvokeSlot ctx)\<rparr>"

text \<open>\<open>took\<close> is what the deferred function records on every way out.\<close>

definition InvokeFunction ::
  "FunctionHandler \<Rightarrow> int \<Rightarrow> GuestRequest option \<Rightarrow> 'e Ctx \<Rightarrow> 'e Ctx \<times> GuestResponse res" where
  "InvokeFunction f took req ctx =
     (let ctx0 = SetGuestInvokeMeta zeroGuestInvokeMeta ctx;
          timed = modGuestInvokeMeta (giInvocationTook_update (\<lambda>_. took))
      in case req of
           None \<Rightarrow> (timed ctx0, Inl (ErrStatus ''InvalidArgument'' (Lit ''request is required'')))
         | Some r \<Rightarrow>
             (let ctx1 = modGuestInvokeMeta (\<lambda>m. m\<lparr>giMethod := gMethod r, giPath := gPath r,
                           giRequestBodyBytes := int (length (gBody r)),
                           giHeadersCount := int (fcard (fmdom (gHeaders r)))\<rparr>) ctx0
              in case f r of
                   (_, Some err) \<Rightarrow> (timed ctx1, Inl (ErrStatus ''Internal'' (ErrText err)))
                 | (None, None) \<Rightarrow> (timed ctx1, Inl (ErrStatus ''Internal'' (Lit NilResponseErrorMsg)))
                 | (Some resp, None) \<Rightarrow>
                     (timed (modGuestInvokeMeta (\<lambda>m. m\<lparr>giResponseStatusCode := gStatusCode resp,
                               giResponseBodyBytes := int (length (gRespBody resp))\<rparr>) ctx1), Inr resp)))"

section \<open>Laws\<close>

text \<open>The handler succeeds exactly when the function returns a response without an error, and then
  passes the response through.\<close>

lemma InvokeFunction_ok:
  "snd (InvokeFunction f took (Some r) ctx) = Inr resp \<longleftrightarrow> f r = (Some resp, None)"
  by (cases "f r"; cases "fst (f r)"; cases "snd (f r)") (auto simp: InvokeFunction_def Let_def)

text \<open>The holder is filled on every way out, with the size of the request and the status that was returned.\<close>

lemma InvokeFunction_meta:
  assumes "guestInvokeSlot ctx = Holder x" and "InvokeFunction f took (Some r) ctx = (ctx', res)"
  shows "\<exists>m. GetGuestInvokeMeta ctx' = Some m \<and> giInvocationTook m = took \<and> giMethod m = gMethod r \<and>
    giRequestBodyBytes m = int (length (gBody r)) \<and>
    giResponseStatusCode m = (case res of Inl _ \<Rightarrow> 0 | Inr resp \<Rightarrow> gStatusCode resp)"
  using assms
  by (cases "f r"; cases "fst (f r)"; cases "snd (f r)")
     (auto simp: InvokeFunction_def Let_def SetGuestInvokeMeta_def modGuestInvokeMeta_def GetGuestInvokeMeta_def
       zeroGuestInvokeMeta_def)

end
