(* ===== verification/RunnerWorker.thy ===== *)
theory RunnerWorker
  imports ServerContext Guest RunnerFlights
begin

text \<open>
  Invoking an instance (\<open>pkg/runner/grpc.go\<close>: \<open>InvokeFunctionInstance\<close>, \<open>instanceWorker\<close>,
  \<open>shutdownAfterTime\<close>; \<open>pkg/runner/instances.go\<close>: \<open>InstanceState\<close>, \<open>AddToQueue\<close>, \<open>StopInstance\<close>).

  The first section is the handler as one request sees it, with its metas; the answer of the worker is a
  parameter. The second is the interleaving of everything that touches one instance: the handlers of any
  number of requests, the workers they start, and the goroutine that shuts the instance down. One step
  is one statement that touches shared state; a label says which goroutine moves and, where the program
  does not determine it, how a \<open>select\<close> chooses and what the guest answers. A panic in any goroutine ends
  the process: \<open>crash\<close>.
\<close>

section \<open>The handler\<close>

record InvokeInstanceRequest =
  irInstanceId :: string
  irMethod :: string
  irPath :: string
  irHeaders :: "(string, string) fmap"
  irBody :: bytes

record InvocationRequest =
  qMethod :: string
  qPath :: string
  qHeaders :: "(string, string) fmap"
  qBody :: bytes

text \<open>What is in the queue: the request and the channel of its result, which is a number.\<close>

record invocation =
  invReq :: InvocationRequest
  invCh :: nat

record InvokeInstanceResponse =
  iiStatusCode :: int
  iiHeaders :: "(string, string) fmap"
  iiBody :: bytes

record InvocationResult =
  rResp :: "InvokeInstanceResponse option"
  rErr :: "goerr option"
  queueWaitTook :: int
  guestInvokeTook :: int

definition modInvokeMeta :: "(InvokeMeta \<Rightarrow> InvokeMeta) \<Rightarrow> 'e Ctx \<Rightarrow> 'e Ctx" where
  "modInvokeMeta f ctx = ctx\<lparr>invokeSlot := slotMod f (invokeSlot ctx)\<rparr>"

definition zeroInvokeMeta :: InvokeMeta where
  "zeroInvokeMeta =
     \<lparr>ivInstanceID = [], ivFunctionPath = [], ivMethod = [], ivPath = [], ivRequestBodyBytes = 0, ivHeadersCount = 0,
      ivWorkerAlreadyRunning = False, ivStartedWorker = False, ivQueueDepthAtEnqueue = 0, ivInvocationTook = 0,
      ivQueueWaitTook = 0, ivGuestInvokeTook = 0, ivResponseStatusCode = 0, ivResponseBodyBytes = 0\<rparr>"

text \<open>What the handler returns after the \<open>select\<close>. A result without a response and without an error is
  not sent by the worker, but the handler copes with it.\<close>

definition answerInvocation ::
  "int \<Rightarrow> InvocationResult option \<Rightarrow> 'e Ctx \<Rightarrow> 'e Ctx \<times> InvokeInstanceResponse option \<times> goerr option" where
  "answerInvocation took awaited ctx =
     (let ctx1 = modInvokeMeta (ivInvocationTook_update (\<lambda>_. took)) ctx
      in case awaited of
           None \<Rightarrow> (ctx1, None, Some ErrContext)
         | Some res \<Rightarrow>
             (let ctx2 = modInvokeMeta (\<lambda>m. m\<lparr>ivQueueWaitTook := queueWaitTook res,
                           ivGuestInvokeTook := guestInvokeTook res\<rparr>) ctx1
              in case rErr res of
                   Some err \<Rightarrow> (ctx2, rResp res, Some err)
                 | None \<Rightarrow>
                     ((case rResp res of
                         None \<Rightarrow> ctx2
                       | Some resp \<Rightarrow> modInvokeMeta (\<lambda>m. m\<lparr>ivResponseStatusCode := iiStatusCode resp,
                                        ivResponseBodyBytes := int (length (iiBody resp))\<rparr>) ctx2),
                      rResp res, None)))"

text \<open>\<open>parse\<close> is \<open>uuid.Parse\<close>, \<open>ch\<close> the new channel of the request and \<open>await\<close> what arrives on it, given the
  instance with the request in its queue (\<open>None\<close> when the context ends first). Besides the response the
  result says whether a worker was started.\<close>

definition InvokeFunctionInstance ::
  "(string \<Rightarrow> string res) \<Rightarrow> int \<Rightarrow> int \<Rightarrow> nat \<Rightarrow> ((invocation, 'rt) instanceState \<Rightarrow> InvocationResult option) \<Rightarrow>
   InvokeInstanceRequest \<Rightarrow> 'e Ctx \<Rightarrow> (invocation, 'rt) InstancesStates \<Rightarrow>
   ('e Ctx \<times> (invocation, 'rt) InstancesStates \<times> bool \<times> InvokeInstanceResponse option \<times> goerr option) effect" where
  "InvokeFunctionInstance parse now took ch await req ctx is =
     (let ctx0 = SetInvokeMeta (zeroInvokeMeta\<lparr>ivInstanceID := irInstanceId req, ivMethod := irMethod req,
                   ivPath := irPath req, ivRequestBodyBytes := int (length (irBody req)),
                   ivHeadersCount := int (fcard (fmdom (irHeaders req)))\<rparr>) ctx;
          timed = modInvokeMeta (ivInvocationTook_update (\<lambda>_. took))
      in case parse (irInstanceId req) of
           Inl err \<Rightarrow> Done (timed ctx0, is, False, None, Some (wrapf ''invalid uuid instanceId: %w'' [] err))
         | Inr instanceId \<Rightarrow>
             (let invocationReq = \<lparr>qMethod = irMethod req, qPath = irPath req, qHeaders = irHeaders req, qBody = irBody req\<rparr>
              in case InstanceState instanceId is of
                   (is1, Inl err) \<Rightarrow>
                     Done (timed ctx0, is1, False, None, Some (wrapf ''invoking instance %q failed: %w'' [irInstanceId req] err))
                 | (is1, Inr isRunning) \<Rightarrow>
                     (case fmlookup (instanceStates is1) instanceId of
                        None \<Rightarrow> Done (timed ctx0, is1, False, None, Some ErrUnknownInstance)
                      | Some inst \<Rightarrow>
                          bindE (AddToQueue now \<lparr>invReq = invocationReq, invCh = ch\<rparr> inst)
                           (\<lambda>inst'.
                              let is2 = is1\<lparr>instanceStates := fmupd instanceId inst' (instanceStates is1)\<rparr>;
                                  ctx1 = modInvokeMeta (\<lambda>m. m\<lparr>ivWorkerAlreadyRunning := isRunning,
                                           ivStartedWorker := \<not> isRunning, ivFunctionPath := funcPath inst,
                                           ivQueueDepthAtEnqueue := int (length (queue inst'))\<rparr>) ctx0;
                                  (ctx2, resp, err) = answerInvocation took (await inst') ctx1
                              in Done (ctx2, is2, \<not> isRunning, resp, err)))))"

text \<open>What the worker hands to the guest, and what it makes of the answer.\<close>

definition toGuestRequest :: "InvocationRequest \<Rightarrow> GuestRequest" where
  "toGuestRequest q = \<lparr>gMethod = qMethod q, gPath = qPath q, gHeaders = qHeaders q, gBody = qBody q\<rparr>"

definition workerResult :: "int \<Rightarrow> int \<Rightarrow> GuestResponse res \<Rightarrow> InvocationResult" where
  "workerResult queueWait guestTook answer =
     (case answer of
        Inl err \<Rightarrow> \<lparr>rResp = None, rErr = Some err, queueWaitTook = queueWait, guestInvokeTook = guestTook\<rparr>
      | Inr resp \<Rightarrow>
          \<lparr>rResp = Some \<lparr>iiStatusCode = gStatusCode resp, iiHeaders = gRespHeaders resp, iiBody = gRespBody resp\<rparr>,
           rErr = None, queueWaitTook = queueWait, guestInvokeTook = guestTook\<rparr>)"

text \<open>
  The worker on a queue: it takes one invocation after the other, gives it to the guest and sends the
  result on the channel of the invocation. The result is what is sent on which channel.
\<close>

fun serveQueue :: "int \<Rightarrow> int \<Rightarrow> (GuestRequest \<Rightarrow> GuestResponse res) \<Rightarrow> invocation list \<Rightarrow> (nat \<times> InvocationResult) list" where
  "serveQueue queueWait guestTook guest [] = []"
| "serveQueue queueWait guestTook guest (i # rest) =
     (invCh i, workerResult queueWait guestTook (guest (toGuestRequest (invReq i)))) #
     serveQueue queueWait guestTook guest rest"

lemma serveQueue_fresh: "ch \<notin> invCh ` set q \<Longrightarrow> map_of (serveQueue w g f (q @ [i])) ch = map_of (serveQueue w g f [i]) ch"
  by (induction q) auto

section \<open>Everything that touches one instance\<close>

text \<open>The places of a handler between its accesses to shared state. The flag is \<open>isRunning\<close>.\<close>

datatype 'r CallPc =
    CInit
  | CFound
  | CGot bool
  | CAsserted bool
  | CReset bool
  | CSent bool
  | CWaiting
  | CDone 'r
  | CUnknown
  | CCancelled

datatype 'r WorkerPc = WSelecting | WInvoking nat | WSending nat 'r | WGone

datatype ShutPc = SWait | SFired | SStored | SCancelled | SQueueClosed | STimerStopped | SDeleted | SStopped

text \<open>Requests are numbers: the index of their handler. The three logs are the requests in the order in
  which they were put into the queue and handed to the guest, and the answers of the guest.\<close>

record ('r, 'rt) WS =
  wi :: "(nat, 'rt) instanceState"
  registered :: bool
  calls :: "'r CallPc list"
  workers :: "'r WorkerPc list"
  shut :: ShutPc
  crash :: "string option"
  sentLog :: "nat list"
  guestLog :: "nat list"
  resLog :: "(nat \<times> 'r) list"

datatype 'r Label =
    Call nat int
  | CtxDoneFor nat
  | Recv nat
  | IdleTimeout nat
  | SeeCancelled nat
  | GuestReturns nat 'r
  | Deliver nat
  | Shut

definition setCall :: "nat \<Rightarrow> 'r CallPc \<Rightarrow> ('r, 'rt) WS \<Rightarrow> ('r, 'rt) WS" where
  "setCall i pc s = s\<lparr>calls := (calls s)[i := pc]\<rparr>"

definition setWorker :: "nat \<Rightarrow> 'r WorkerPc \<Rightarrow> ('r, 'rt) WS \<Rightarrow> ('r, 'rt) WS" where
  "setWorker w pc s = s\<lparr>workers := (workers s)[w := pc]\<rparr>"

definition modInst :: "((nat, 'rt) instanceState \<Rightarrow> (nat, 'rt) instanceState) \<Rightarrow> ('r, 'rt) WS \<Rightarrow> ('r, 'rt) WS" where
  "modInst f s = s\<lparr>wi := f (wi s)\<rparr>"

definition callStep :: "nat \<Rightarrow> int \<Rightarrow> ('r, 'rt) WS \<Rightarrow> ('r, 'rt) WS option" where
  "callStep i now s =
     (if length (calls s) \<le> i then None
      else case calls s ! i of
        CInit \<Rightarrow> Some (setCall i (if registered s then CFound else CUnknown) s)
      | CFound \<Rightarrow>
          (if \<not> opened (wi s) then Some (setCall i (CGot False) (modInst (opened_update (\<lambda>_. True)) s))
           else Some (setCall i (CGot True) s))
      | CGot running \<Rightarrow>
          (if opened (wi s) then Some (setCall i (CAsserted running) s)
           else Some (s\<lparr>crash := Some ''adding request to already closed queue''\<rparr>))
      | CAsserted running \<Rightarrow>
          (case ResetTimer now (wi s) of
             Done inst \<Rightarrow> Some (setCall i (CReset running) (s\<lparr>wi := inst\<rparr>))
           | PanicWith msg \<Rightarrow> Some (s\<lparr>crash := Some msg\<rparr>)
           | Blocked \<Rightarrow> None)
      | CReset running \<Rightarrow>
          (if queueClosed (wi s) then Some (s\<lparr>crash := Some ''send on closed channel''\<rparr>)
           else if InvocationsQueueMaxLen \<le> length (queue (wi s)) then None
           else Some (setCall i (CSent running)
                  (modInst (queue_update (\<lambda>q. q @ [i])) s)\<lparr>sentLog := sentLog s @ [i]\<rparr>))
      | CSent running \<Rightarrow>
          Some (setCall i CWaiting (if running then s else s\<lparr>workers := workers s @ [WSelecting]\<rparr>))
      | _ \<Rightarrow> None)"

text \<open>After an answer the worker resets its idle timer and leaves when \<open>Reset\<close> reports that the timer was
  not running. A timer that expired during the call still has its value in the channel; \<open>Reset\<close> takes it
  out and reports true (since Go 1.23; \<open>go.mod\<close> asks for 1.26), so that branch is never taken.\<close>

definition workerStep :: "nat \<Rightarrow> 'r Label \<Rightarrow> ('r, 'rt) WS \<Rightarrow> ('r, 'rt) WS option" where
  "workerStep w l s =
     (if length (workers s) \<le> w then None
      else case (workers s ! w, l) of
        (WSelecting, SeeCancelled _) \<Rightarrow> (if workerCancelled (wi s) then Some (setWorker w WGone s) else None)
      | (WSelecting, IdleTimeout _) \<Rightarrow> Some (setWorker w WGone (modInst (opened_update (\<lambda>_. False)) s))
      | (WSelecting, Recv _) \<Rightarrow>
          (case queue (wi s) of
             i # rest \<Rightarrow>
               Some (setWorker w (WInvoking i) (modInst (queue_update (\<lambda>_. rest)) s)\<lparr>guestLog := guestLog s @ [i]\<rparr>)
           | [] \<Rightarrow>
               (if queueClosed (wi s) then Some (setWorker w WGone (modInst (opened_update (\<lambda>_. False)) s)) else None))
      | (WInvoking i, GuestReturns _ r) \<Rightarrow> Some (setWorker w (WSending i r) s\<lparr>resLog := resLog s @ [(i, r)]\<rparr>)
      | (WSending i r, Deliver _) \<Rightarrow>
          (if i < length (calls s) \<and> calls s ! i = CWaiting then Some (setWorker w WSelecting (setCall i (CDone r) s)) else None)
      | _ \<Rightarrow> None)"

definition shutStep :: "('r, 'rt) WS \<Rightarrow> ('r, 'rt) WS option" where
  "shutStep s =
     (case shut s of
        SWait \<Rightarrow>
          (if lastUsedTimer (wi s) = TimerPending
           then Some (modInst (lastUsedTimer_update (\<lambda>_. TimerReceived)) s\<lparr>shut := SFired\<rparr>) else None)
      | SFired \<Rightarrow> Some (modInst (opened_update (\<lambda>_. False)) s\<lparr>shut := SStored\<rparr>)
      | SStored \<Rightarrow> Some (modInst (workerCancelled_update (\<lambda>_. True)) s\<lparr>shut := SCancelled\<rparr>)
      | SCancelled \<Rightarrow>
          (if queueClosed (wi s) then Some (s\<lparr>crash := Some ''close of closed channel''\<rparr>)
           else Some (modInst (queueClosed_update (\<lambda>_. True)) s\<lparr>shut := SQueueClosed\<rparr>))
      | SQueueClosed \<Rightarrow> Some (modInst (lastUsedTimer_update (\<lambda>_. TimerStopped)) s\<lparr>shut := STimerStopped\<rparr>)
      | STimerStopped \<Rightarrow> Some (s\<lparr>registered := False, shut := SDeleted\<rparr>)
      | SDeleted \<Rightarrow> Some (modInst (runtimeStopped_update (\<lambda>_. True)) s\<lparr>shut := SStopped\<rparr>)
      | SStopped \<Rightarrow> None)"

definition wstep :: "'r Label \<Rightarrow> ('r, 'rt) WS \<Rightarrow> ('r, 'rt) WS option" where
  "wstep l s =
     (if crash s \<noteq> None then None
      else case l of
        Call i now \<Rightarrow> callStep i now s
      | CtxDoneFor i \<Rightarrow>
          (if i < length (calls s) \<and> calls s ! i = CWaiting then Some (setCall i CCancelled s) else None)
      | Shut \<Rightarrow> shutStep s
      | Recv w \<Rightarrow> workerStep w l s
      | IdleTimeout w \<Rightarrow> workerStep w l s
      | SeeCancelled w \<Rightarrow> workerStep w l s
      | GuestReturns w r \<Rightarrow> workerStep w l s
      | Deliver w \<Rightarrow> workerStep w l s)"

fun wrun :: "'r Label list \<Rightarrow> ('r, 'rt) WS \<Rightarrow> ('r, 'rt) WS option" where
  "wrun [] s = Some s"
| "wrun (l # ls) s = (case wstep l s of None \<Rightarrow> None | Some s' \<Rightarrow> wrun ls s')"

text \<open>A fresh instance as \<open>Submit\<close> makes it, and \<open>n\<close> requests on their way to it.\<close>

definition freshWS :: "nat \<Rightarrow> (nat, 'rt) instanceState \<Rightarrow> ('r, 'rt) WS" where
  "freshWS n inst =
     \<lparr>wi = inst, registered = True, calls = replicate n CInit, workers = [], shut = SWait, crash = None,
      sentLog = [], guestLog = [], resLog = []\<rparr>"

definition initWS :: "nat \<Rightarrow> ('r, 'rt) WS \<Rightarrow> bool" where
  "initWS n s \<longleftrightarrow> (\<exists>now path i sa rt is. s = freshWS n (snd (Submit now path i sa rt is)))"

inductive wreach :: "nat \<Rightarrow> ('r, 'rt) WS \<Rightarrow> bool" for n where
  start: "initWS n s \<Longrightarrow> wreach n s"
| step: "wreach n s \<Longrightarrow> wstep l s = Some t \<Longrightarrow> wreach n t"

section \<open>One worker at a time\<close>

text \<open>How many elements of a list satisfy a predicate.\<close>

definition cnt :: "('a \<Rightarrow> bool) \<Rightarrow> 'a list \<Rightarrow> int" where
  "cnt P xs = (\<Sum>x\<leftarrow>xs. of_bool (P x))"

lemma cnt_simps [simp]:
  "cnt P [] = 0" "cnt P (x # xs) = of_bool (P x) + cnt P xs" "cnt P (xs @ ys) = cnt P xs + cnt P ys"
  "cnt P (replicate n x) = of_bool (P x) * int n"
  by (simp_all add: cnt_def sum_list_replicate)

lemma cnt_nonneg [simp]: "0 \<le> cnt P xs"
  unfolding cnt_def by (rule sum_list_nonneg) auto

lemma cnt_update:
  assumes "i < length xs"
  shows "cnt P (xs[i := y]) = cnt P xs - of_bool (P (xs ! i)) + of_bool (P y)"
  using assms by (induction xs arbitrary: i) (auto split: nat.splits)

lemma cnt_pos:
  assumes "i < length xs" and "P (xs ! i)"
  shows "1 \<le> cnt P xs"
proof -
  have "cnt P (take i xs @ xs ! i # drop (Suc i) xs) = cnt P xs" using assms(1) by (simp flip: id_take_nth_drop)
  then have "cnt P xs = cnt P (take i xs) + 1 + cnt P (drop (Suc i) xs)" using assms(2) by simp
  then show ?thesis using cnt_nonneg[of P "take i xs"] cnt_nonneg[of P "drop (Suc i) xs"] by linarith
qed

text \<open>The right to start the worker: handlers that took it and have not yet reset the timer, those that
  have, and the workers.\<close>

fun early :: "'r CallPc \<Rightarrow> bool" where
  "early (CGot running) = (\<not> running)"
| "early (CAsserted running) = (\<not> running)"
| "early _ = False"

fun late :: "'r CallPc \<Rightarrow> bool" where
  "late (CReset running) = (\<not> running)"
| "late (CSent running) = (\<not> running)"
| "late _ = False"

fun alive :: "'r WorkerPc \<Rightarrow> bool" where
  "alive WGone = False"
| "alive _ = True"

definition tokens :: "('r, 'rt) WS \<Rightarrow> int" where
  "tokens s = cnt late (calls s) + cnt alive (workers s)"

definition shutOrder :: "ShutPc \<Rightarrow> nat" where
  "shutOrder p = (case p of SWait \<Rightarrow> 0 | SFired \<Rightarrow> 1 | SStored \<Rightarrow> 2 | SCancelled \<Rightarrow> 3 | SQueueClosed \<Rightarrow> 4
     | STimerStopped \<Rightarrow> 5 | SDeleted \<Rightarrow> 6 | SStopped \<Rightarrow> 7)"

definition token_inv :: "('r, 'rt) WS \<Rightarrow> bool" where
  "token_inv s \<longleftrightarrow>
     (lastUsedTimer (wi s) = TimerPending \<longleftrightarrow> shut s = SWait) \<and>
     (workerCancelled (wi s) \<longleftrightarrow> 3 \<le> shutOrder (shut s)) \<and>
     (queueClosed (wi s) \<longleftrightarrow> 4 \<le> shutOrder (shut s)) \<and>
     (registered s \<longleftrightarrow> shutOrder (shut s) < 6) \<and>
     (shut s = SWait \<longrightarrow> cnt early (calls s) + tokens s = of_bool (opened (wi s))) \<and>
     tokens s \<le> 1"

lemmas ws_defs = setCall_def setWorker_def modInst_def tokens_def

text \<open>What a step of a handler can be.\<close>

lemma callStep_cases [consumes 1, case_names lookup unknown swap join asserted reset send work await panic]:
  assumes "callStep i now s = Some t"
  obtains "i < length (calls s)" "calls s ! i = CInit" "registered s" "t = setCall i CFound s"
  | "i < length (calls s)" "calls s ! i = CInit" "\<not> registered s" "t = setCall i CUnknown s"
  | "i < length (calls s)" "calls s ! i = CFound" "\<not> opened (wi s)"
      "t = setCall i (CGot False) (modInst (opened_update (\<lambda>_. True)) s)"
  | "i < length (calls s)" "calls s ! i = CFound" "opened (wi s)" "t = setCall i (CGot True) s"
  | running where "i < length (calls s)" "calls s ! i = CGot running" "opened (wi s)" "t = setCall i (CAsserted running) s"
  | running where "i < length (calls s)" "calls s ! i = CAsserted running" "lastUsedTimer (wi s) = TimerPending"
      "t = setCall i (CReset running) (modInst (lastUsedTimerEnd_update (\<lambda>_. now + instanceShutdownAfter (wi s))) s)"
  | running where "i < length (calls s)" "calls s ! i = CReset running" "\<not> queueClosed (wi s)"
      "length (queue (wi s)) < InvocationsQueueMaxLen"
      "t = setCall i (CSent running) (modInst (queue_update (\<lambda>q. q @ [i])) s)\<lparr>sentLog := sentLog s @ [i]\<rparr>"
  | "i < length (calls s)" "calls s ! i = CSent False" "t = setCall i CWaiting (s\<lparr>workers := workers s @ [WSelecting]\<rparr>)"
  | "i < length (calls s)" "calls s ! i = CSent True" "t = setCall i CWaiting s"
  | msg where "t = s\<lparr>crash := Some msg\<rparr>"
proof -
  have i: "i < length (calls s)" using assms by (simp add: callStep_def split: if_splits)
  note run = assms[unfolded callStep_def, simplified i not_le if_not_P]
  show thesis
  proof (cases "calls s ! i")
    case (CAsserted running)
    show thesis
    proof (cases "lastUsedTimer (wi s) = TimerPending")
      case True
      then have "ResetTimer now (wi s) = Done (wi s\<lparr>lastUsedTimerEnd := now + instanceShutdownAfter (wi s)\<rparr>)"
        by (cases "wi s") (simp add: ResetTimer_def)
      then show thesis
        using that(6)[OF i CAsserted True] run CAsserted by (simp add: modInst_def)
    next
      case False
      then show thesis using that(10) run CAsserted by (auto simp: ResetTimer_def Let_def)
    qed
  next
    case (CSent running)
    then show thesis using that(8,9)[OF i] run by (cases running) auto
  qed (use that i run in \<open>auto split: if_splits\<close>)
qed

lemma callStep_token_inv:
  assumes "token_inv s" and "callStep i now s = Some t"
  shows "token_inv t"
  using assms(2)
proof (cases rule: callStep_cases)
  case swap
  have "0 \<le> cnt early (calls s)" "0 \<le> tokens s" by (simp_all add: tokens_def)
  then show ?thesis using assms(1) swap by (auto simp: token_inv_def ws_defs cnt_update)
next
  case (reset running)
  then have "shut s = SWait" using assms(1) by (simp add: token_inv_def)
  then show ?thesis
    using assms(1) reset cnt_nonneg[of early "calls s"] cnt_pos[OF reset(1), of early]
    by (cases "opened (wi s)"; cases running) (simp_all add: token_inv_def ws_defs cnt_update)
next
  case (asserted running)
  then show ?thesis using assms(1) by (cases running) (simp_all add: token_inv_def ws_defs cnt_update)
next
  case (send running)
  then show ?thesis using assms(1) by (cases running) (simp_all add: token_inv_def ws_defs cnt_update)
qed (use assms(1) in \<open>simp_all add: token_inv_def ws_defs cnt_update\<close>)

lemma workerStep_cases [consumes 1, case_names cancelled idle closed recv returns deliver]:
  assumes "workerStep w l s = Some t"
  obtains v where "w < length (workers s)" "workers s ! w = WSelecting" "l = SeeCancelled v" "workerCancelled (wi s)"
      "t = setWorker w WGone s"
  | v where "w < length (workers s)" "workers s ! w = WSelecting" "l = IdleTimeout v"
      "t = setWorker w WGone (modInst (opened_update (\<lambda>_. False)) s)"
  | v where "w < length (workers s)" "workers s ! w = WSelecting" "l = Recv v" "queue (wi s) = []" "queueClosed (wi s)"
      "t = setWorker w WGone (modInst (opened_update (\<lambda>_. False)) s)"
  | v i rest where "w < length (workers s)" "workers s ! w = WSelecting" "l = Recv v" "queue (wi s) = i # rest"
      "t = setWorker w (WInvoking i) (modInst (queue_update (\<lambda>_. rest)) s)\<lparr>guestLog := guestLog s @ [i]\<rparr>"
  | v i r where "w < length (workers s)" "workers s ! w = WInvoking i" "l = GuestReturns v r"
      "t = setWorker w (WSending i r) s\<lparr>resLog := resLog s @ [(i, r)]\<rparr>"
  | v i r where "w < length (workers s)" "workers s ! w = WSending i r" "l = Deliver v"
      "i < length (calls s)" "calls s ! i = CWaiting" "t = setWorker w WSelecting (setCall i (CDone r) s)"
proof -
  have w: "w < length (workers s)" using assms by (simp add: workerStep_def split: if_splits)
  note run = assms[unfolded workerStep_def, simplified w not_le if_not_P]
  show thesis
    by (cases "workers s ! w"; cases l) (use that w run in \<open>auto split: list.splits if_splits\<close>)
qed

lemma workerStep_token_inv:
  assumes "token_inv s" and "workerStep w l s = Some t"
  shows "token_inv t"
proof -
  have pos: "cnt alive (workers s) \<ge> 1" if "w < length (workers s)" "workers s ! w = WSelecting"
    using that cnt_pos[of w "workers s" alive] by simp
  show ?thesis
    using assms(2)
  proof (cases rule: workerStep_cases)
    case (idle v)
    then show ?thesis
      using assms(1) pos[OF idle(1,2)] cnt_nonneg[of early "calls s"] cnt_nonneg[of late "calls s"]
      by (cases "opened (wi s)") (auto simp: token_inv_def ws_defs cnt_update)
  next
    case (closed v)
    then have "shut s \<noteq> SWait" using assms(1) by (auto simp: token_inv_def shutOrder_def)
    then show ?thesis using assms(1) closed by (simp add: token_inv_def ws_defs cnt_update)
  next
    case (cancelled v)
    then have "shut s \<noteq> SWait" using assms(1) by (auto simp: token_inv_def shutOrder_def)
    then show ?thesis using assms(1) cancelled by (simp add: token_inv_def ws_defs cnt_update)
  qed (use assms(1) in \<open>simp_all add: token_inv_def ws_defs cnt_update\<close>)
qed

lemma shutStep_token_inv:
  assumes "token_inv s" and "shutStep s = Some t"
  shows "token_inv t"
  using assms by (auto simp: token_inv_def shutStep_def ws_defs shutOrder_def split: ShutPc.splits if_splits)

lemma wstep_token_inv:
  assumes "token_inv s" and "wstep l s = Some t"
  shows "token_inv t"
proof (cases l)
  case (CtxDoneFor i)
  then show ?thesis
    using assms by (auto simp: wstep_def token_inv_def ws_defs cnt_update split: if_splits)
qed (use assms callStep_token_inv workerStep_token_inv shutStep_token_inv in
    \<open>auto simp: wstep_def split: if_splits\<close>)

lemma initWS_token_inv: "initWS n s \<Longrightarrow> token_inv s"
  by (auto simp: initWS_def freshWS_def token_inv_def tokens_def Submit_def Let_def shutOrder_def)

lemma wreach_token_inv: "wreach n s \<Longrightarrow> token_inv s"
  by (induction rule: wreach.induct) (auto intro: initWS_token_inv wstep_token_inv)

lemma alive_unique:
  assumes "token_inv s" and "v < length (workers s)" and "w < length (workers s)"
    and "alive (workers s ! v)" and "alive (workers s ! w)"
  shows "v = w"
proof (rule ccontr)
  assume "v \<noteq> w"
  have "1 \<le> cnt alive ((workers s)[v := WGone])"
    using cnt_pos[of w "(workers s)[v := WGone]" alive] assms(2,3,5) \<open>v \<noteq> w\<close> by simp
  then have "2 \<le> cnt alive (workers s)" using cnt_update[OF assms(2), of alive WGone] assms(4) by simp
  moreover have "tokens s \<le> 1" using assms(1) by (simp add: token_inv_def)
  ultimately show False using cnt_nonneg[of late "calls s"] unfolding tokens_def by linarith
qed

text \<open>
  C5: At most one worker serves an instance at any moment, in every interleaving of any number of
  requests with the workers and with the shutdown of the instance; so the guest is never invoked twice at
  the same time.
\<close>

theorem one_worker:
  assumes "wreach n s" and "v < length (workers s)" and "w < length (workers s)"
    and "workers s ! v \<noteq> WGone" and "workers s ! w \<noteq> WGone"
  shows "v = w"
  using alive_unique[OF wreach_token_inv[OF assms(1)] assms(2,3)] assms(4,5) by (metis alive.elims(3))

section \<open>Order of the requests\<close>

fun passed :: "'r CallPc \<Rightarrow> bool" where
  "passed (CSent _) = True"
| "passed CWaiting = True"
| "passed (CDone _) = True"
| "passed CCancelled = True"
| "passed _ = False"

definition sent_ok :: "nat list \<Rightarrow> 'r CallPc list \<Rightarrow> bool" where
  "sent_ok xs cs \<longleftrightarrow> distinct xs \<and> (\<forall>i \<in> set xs. i < length cs \<and> passed (cs ! i))"

definition fifo_inv :: "('r, 'rt) WS \<Rightarrow> bool" where
  "fifo_inv s \<longleftrightarrow> sentLog s = guestLog s @ queue (wi s) \<and> sent_ok (guestLog s @ queue (wi s)) (calls s)"

lemma sent_ok_update: "sent_ok xs cs \<Longrightarrow> passed (cs ! i) \<longrightarrow> passed pc \<Longrightarrow> sent_ok xs (cs[i := pc])"
  unfolding sent_ok_def by (metis length_list_update nth_list_update_eq nth_list_update_neq)

lemma sent_ok_snoc:
  assumes "sent_ok xs cs" and "i < length cs" and "\<not> passed (cs ! i)" and "passed pc"
  shows "sent_ok (xs @ [i]) (cs[i := pc])"
  using assms sent_ok_update[of xs cs i pc] by (auto simp: sent_ok_def)

lemma fifo_setCall:
  assumes "fifo_inv s" and "passed (calls s ! i) \<longrightarrow> passed pc"
  shows "fifo_inv (setCall i pc s)"
  using assms by (simp add: fifo_inv_def setCall_def sent_ok_update)

lemma fifo_frame:
  assumes "fifo_inv s" and "queue (wi t) = queue (wi s)" and "calls t = calls s"
    and "sentLog t = sentLog s" and "guestLog t = guestLog s"
  shows "fifo_inv t"
  using assms by (simp add: fifo_inv_def)

lemma callStep_fifo:
  assumes "fifo_inv s" and "callStep i now s = Some t"
  shows "fifo_inv t"
  using assms(2)
proof (cases rule: callStep_cases)
  case (send running)
  then have "sent_ok ((guestLog s @ queue (wi s)) @ [i]) ((calls s)[i := CSent running])"
    using assms(1) by (intro sent_ok_snoc) (simp_all add: fifo_inv_def)
  with send assms(1) show ?thesis by (simp add: fifo_inv_def ws_defs)
next
  case work
  then have "fifo_inv (s\<lparr>workers := workers s @ [WSelecting]\<rparr>)" using assms(1) by (auto intro: fifo_frame)
  with work show ?thesis by (simp add: fifo_setCall)
qed (use assms(1) in \<open>auto intro!: fifo_setCall elim!: fifo_frame simp: modInst_def\<close>)

lemma workerStep_fifo:
  assumes "fifo_inv s" and "workerStep w l s = Some t"
  shows "fifo_inv t"
  using assms(2)
proof (cases rule: workerStep_cases)
  case (recv v i rest)
  with assms(1) show ?thesis by (simp add: fifo_inv_def ws_defs)
next
  case (deliver v i r)
  have "fifo_inv (setCall i (CDone r) s)" using assms(1) by (intro fifo_setCall) simp_all
  with deliver show ?thesis by (auto elim!: fifo_frame simp: setWorker_def)
qed (use assms(1) in \<open>auto elim!: fifo_frame simp: ws_defs\<close>)

lemma shutStep_fifo:
  assumes "fifo_inv s" and "shutStep s = Some t"
  shows "fifo_inv t"
  using assms by (auto elim!: fifo_frame simp: shutStep_def modInst_def split: ShutPc.splits if_splits)

lemma wstep_fifo:
  assumes "fifo_inv s" and "wstep l s = Some t"
  shows "fifo_inv t"
proof (cases l)
  case (CtxDoneFor i)
  then show ?thesis using assms by (auto simp: wstep_def intro!: fifo_setCall split: if_splits)
qed (use assms callStep_fifo workerStep_fifo shutStep_fifo in \<open>auto simp: wstep_def split: if_splits\<close>)

lemma initWS_fifo: "initWS n s \<Longrightarrow> fifo_inv s"
  by (auto simp: initWS_def freshWS_def fifo_inv_def sent_ok_def Submit_def Let_def)

lemma wreach_fifo: "wreach n s \<Longrightarrow> fifo_inv s"
  by (induction rule: wreach.induct) (auto intro: initWS_fifo wstep_fifo)

text \<open>Answers: every result that a worker holds or a handler returns is what the guest answered to it.\<close>

definition result_inv :: "('r, 'rt) WS \<Rightarrow> bool" where
  "result_inv s \<longleftrightarrow>
     (\<forall>i. WInvoking i \<in> set (workers s) \<longrightarrow> i \<in> set (guestLog s) \<and> (\<forall>r. (i, r) \<notin> set (resLog s))) \<and>
     (\<forall>i r. WSending i r \<in> set (workers s) \<longrightarrow> (i, r) \<in> set (resLog s)) \<and>
     (\<forall>x \<in> set (resLog s). fst x \<in> set (guestLog s)) \<and> distinct (map fst (resLog s)) \<and>
     (\<forall>i r. i < length (calls s) \<and> calls s ! i = CDone r \<longrightarrow> (i, r) \<in> set (resLog s))"

lemma result_frame:
  assumes "result_inv s" and "workers t = workers s" and "calls t = calls s"
    and "guestLog t = guestLog s" and "resLog t = resLog s"
  shows "result_inv t"
  using assms by (simp add: result_inv_def)

lemma result_setCall:
  assumes "result_inv s" and "\<forall>r. pc = CDone r \<longrightarrow> (i, r) \<in> set (resLog s)"
  shows "result_inv (setCall i pc s)"
  using assms by (simp add: result_inv_def setCall_def) (metis nth_list_update nth_list_update_neq)

lemma callStep_result:
  assumes "result_inv s" and "callStep i now s = Some t"
  shows "result_inv t"
  using assms(2)
proof (cases rule: callStep_cases)
  case work
  have "result_inv (s\<lparr>workers := workers s @ [WSelecting]\<rparr>)" using assms(1) by (simp add: result_inv_def)
  with work show ?thesis by (simp add: result_setCall)
next
  case (send running)
  have "result_inv (setCall i (CSent running) (modInst (queue_update (\<lambda>q. q @ [i])) s))"
    using assms(1) by (auto intro!: result_setCall elim!: result_frame simp: modInst_def)
  with send show ?thesis by (auto elim!: result_frame)
qed (use assms(1) in \<open>auto intro!: result_setCall elim!: result_frame simp: modInst_def\<close>)

lemma workerStep_result:
  assumes "result_inv s" and "token_inv s" and "fifo_inv s" and "workerStep w l s = Some t"
  shows "result_inv t"
proof -
  have upd: "x = pc \<or> x \<in> set (workers s)" if "x \<in> set ((workers s)[w := pc])" for x pc
    using that set_update_subset_insert by fastforce
  show ?thesis
    using assms(4)
  proof (cases rule: workerStep_cases)
    case (recv v i rest)
    have "i \<notin> set (guestLog s)" using assms(3) recv by (auto simp: fifo_inv_def sent_ok_def)
    with recv assms(1) show ?thesis by (fastforce simp: result_inv_def ws_defs dest!: upd)
  next
    case (returns v i r)
    have ni: "WInvoking i \<notin> set ((workers s)[w := WSending i r])"
    proof
      assume "WInvoking i \<in> set ((workers s)[w := WSending i r])"
      then obtain u where u: "u < length (workers s)" "u \<noteq> w" "workers s ! u = WInvoking i"
        unfolding in_set_conv_nth by (metis WorkerPc.distinct(7) length_list_update nth_list_update returns(1))
      with alive_unique[OF assms(2) u(1) returns(1)] returns(2) show False by simp
    qed
    have i: "i \<in> set (guestLog s)" "\<forall>r. (i, r) \<notin> set (resLog s)"
      using assms(1) returns(1,2) nth_mem unfolding result_inv_def by metis+
    have inv: "WInvoking j \<in> set (workers s) \<and> j \<noteq> i" if "WInvoking j \<in> set ((workers s)[w := WSending i r])" for j
      using ni upd[OF that] that by auto
    have "i \<notin> fst ` set (resLog s)" using i(2) by auto
    then show ?thesis using returns assms(1) i inv by (auto simp: result_inv_def ws_defs dest!: upd[of "WSending _ _"])
  next
    case (deliver v i r)
    then have "(i, r) \<in> set (resLog s)" using assms(1) nth_mem unfolding result_inv_def by metis
    with deliver assms(1) show ?thesis by (auto simp: result_inv_def ws_defs nth_list_update dest!: upd)
  qed (use assms(1) in \<open>auto simp: result_inv_def ws_defs dest!: upd\<close>)
qed

lemma shutStep_result: "result_inv s \<Longrightarrow> shutStep s = Some t \<Longrightarrow> result_inv t"
  by (auto elim!: result_frame simp: shutStep_def modInst_def split: ShutPc.splits if_splits)

lemma wstep_result:
  assumes "result_inv s" and "token_inv s" and "fifo_inv s" and "wstep l s = Some t"
  shows "result_inv t"
proof (cases l)
  case (CtxDoneFor i)
  then show ?thesis
    using assms(1,4) by (auto simp: wstep_def intro!: result_setCall split: if_splits)
qed (use assms callStep_result workerStep_result shutStep_result in \<open>auto simp: wstep_def split: if_splits\<close>)

lemma wreach_result: "wreach n s \<Longrightarrow> result_inv s"
proof (induction rule: wreach.induct)
  case (start s)
  then show ?case by (auto simp: initWS_def freshWS_def result_inv_def)
next
  case (step s l t)
  then show ?case by (blast intro: wstep_result dest: wreach_token_inv wreach_fifo)
qed

text \<open>
  C9: The guest gets the requests in the order in which they were put into the queue, each at most once,
  and a request that is answered gets the one answer that the guest gave to it, whatever else happens to
  the instance.
\<close>

theorem invocations_in_order:
  assumes "wreach n s"
  shows "(\<exists>rest. sentLog s = guestLog s @ rest) \<and> distinct (guestLog s) \<and> distinct (map fst (resLog s)) \<and>
    (\<forall>i r. i < length (calls s) \<and> calls s ! i = CDone r \<longrightarrow>
       i \<in> set (guestLog s) \<and> (i, r) \<in> set (resLog s))"
proof -
  have "i \<in> set (guestLog s)" if "(i, r) \<in> set (resLog s)" for i r
    using that wreach_result[OF assms] unfolding result_inv_def by force
  then show ?thesis
    using wreach_fifo[OF assms] wreach_result[OF assms] 
    unfolding fifo_inv_def sent_ok_def result_inv_def distinct_append by blast
qed

section \<open>Every request is answered\<close>

text \<open>While the idle timer of the worker does not fire, the instance is not shut down and no request is
  cancelled, the goroutines take these steps only.\<close>

fun calmLabel :: "'r Label \<Rightarrow> bool" where
  "calmLabel (Call _ _) = True"
| "calmLabel (Recv _) = True"
| "calmLabel (GuestReturns _ _) = True"
| "calmLabel (Deliver _) = True"
| "calmLabel _ = False"

fun callRank :: "'r CallPc \<Rightarrow> nat" where
  "callRank CInit = 9"
| "callRank CFound = 8"
| "callRank (CGot _) = 7"
| "callRank (CAsserted _) = 6"
| "callRank (CReset _) = 5"
| "callRank (CSent _) = 1"
| "callRank _ = 0"

fun workerRank :: "'r WorkerPc \<Rightarrow> nat" where
  "workerRank (WInvoking _) = 2"
| "workerRank (WSending _ _) = 1"
| "workerRank _ = 0"

definition workLeft :: "('r, 'rt) WS \<Rightarrow> nat" where
  "workLeft s = sum_list (map callRank (calls s)) + 3 * length (queue (wi s)) + sum_list (map workerRank (workers s))"

fun inFlight :: "'r CallPc \<Rightarrow> bool" where
  "inFlight (CSent _) = True"
| "inFlight CWaiting = True"
| "inFlight _ = False"

fun holds :: "nat \<Rightarrow> 'r WorkerPc \<Rightarrow> bool" where
  "holds i (WInvoking j) = (i = j)"
| "holds i (WSending j r) = (i = j)"
| "holds i _ = False"

fun begun :: "'r CallPc \<Rightarrow> bool" where
  "begun CInit = False"
| "begun CFound = False"
| "begun _ = True"

definition heldIn :: "nat \<Rightarrow> 'r WorkerPc list \<Rightarrow> bool" where
  "heldIn i ws \<longleftrightarrow> (\<exists>pc \<in> set ws. holds i pc)"

fun fine :: "bool \<Rightarrow> 'r CallPc \<Rightarrow> bool" where
  "fine op CUnknown = False"
| "fine op CCancelled = False"
| "fine op pc = (begun pc \<longrightarrow> op)"

text \<open>No request is lost: what is in flight is in the queue or in the hands of a worker.\<close>

definition linked :: "'r CallPc list \<Rightarrow> nat list \<Rightarrow> 'r WorkerPc list \<Rightarrow> bool \<Rightarrow> bool" where
  "linked cs q ws op \<longleftrightarrow>
     (\<forall>i < length cs. fine op (cs ! i) \<and> (inFlight (cs ! i) \<longrightarrow> i \<in> set q \<or> heldIn i ws)) \<and>
     (\<forall>i. heldIn i ws \<longrightarrow> i < length cs \<and> inFlight (cs ! i))"

lemma linkedI:
  assumes "\<And>i. i < length cs \<Longrightarrow> fine op (cs ! i)"
    and "\<And>i. i < length cs \<Longrightarrow> inFlight (cs ! i) \<Longrightarrow> i \<in> set q \<or> heldIn i ws"
    and "\<And>i. heldIn i ws \<Longrightarrow> i < length cs \<and> inFlight (cs ! i)"
  shows "linked cs q ws op"
  using assms unfolding linked_def by blast

lemma linkedD:
  assumes "linked cs q ws op"
  shows "i < length cs \<Longrightarrow> fine op (cs ! i)"
    and "i < length cs \<Longrightarrow> inFlight (cs ! i) \<Longrightarrow> i \<in> set q \<or> heldIn i ws"
    and "heldIn i ws \<Longrightarrow> i < length cs \<and> inFlight (cs ! i)"
  using assms unfolding linked_def by blast+

definition calm_inv :: "('r, 'rt) WS \<Rightarrow> bool" where
  "calm_inv s \<longleftrightarrow> shut s = SWait \<and> crash s = None \<and> token_inv s \<and> fifo_inv s \<and> result_inv s \<and>
     linked (calls s) (queue (wi s)) (workers s) (opened (wi s))"

lemma calm_flags:
  assumes "calm_inv s"
  shows "registered s" "\<not> queueClosed (wi s)" "\<not> workerCancelled (wi s)" "lastUsedTimer (wi s) = TimerPending"
    "crash s = None" "shut s = SWait"
  using assms by (auto simp: calm_inv_def token_inv_def shutOrder_def)

lemma sum_list_update_nat:
  fixes f :: "'a \<Rightarrow> nat"
  assumes "i < length xs"
  shows "sum_list (map f (xs[i := y])) + f (xs ! i) = sum_list (map f xs) + f y"
  using assms by (induction xs arbitrary: i) (auto split: nat.splits)

lemma calm_call_no_panic:
  assumes "calm_inv s" and "callStep i now s = Some t"
  shows "crash t = None"
proof -
  have i: "i < length (calls s)" using assms(2) by (simp add: callStep_def split: if_splits)
  have "fine (opened (wi s)) (calls s ! i)" using assms(1) i linkedD(1) unfolding calm_inv_def by blast
  then show ?thesis
    using assms(2) i calm_flags[OF assms(1)]
    by (cases "calls s ! i") (auto simp: callStep_def ws_defs ResetTimer_def Let_def split: if_splits)
qed

lemma calm_rank:
  assumes "calm_inv s" and "calmLabel l" and "wstep l s = Some t"
  shows "Suc (workLeft t) = workLeft s"
proof (cases l)
  case (Call i now)
  then have run: "callStep i now s = Some t" using assms(1,3) by (simp add: wstep_def calm_inv_def)
  have c: "crash t = None" by (rule calm_call_no_panic[OF assms(1) run])
  have reg: "registered s" using calm_flags[OF assms(1)] by simp
  have i: "i < length (calls s)" using run by (simp add: callStep_def split: if_splits)
  have upd: "sum_list (map callRank ((calls s)[i := pc])) = sum_list (map callRank (calls s)) + callRank pc - callRank (calls s ! i)"
    and le: "callRank (calls s ! i) \<le> sum_list (map callRank (calls s))" for pc
    using sum_list_update_nat[OF i, of callRank pc] elem_le_sum_list[of i "map callRank (calls s)"] i by simp_all
  from run show ?thesis
  proof (cases rule: callStep_cases)
    case (panic msg)
    with c show ?thesis by simp
  qed (use reg le in \<open>simp_all add: workLeft_def ws_defs upd\<close>)
next
  case (Recv w)
  then have "workerStep w l s = Some t" using assms(1,3) by (simp add: wstep_def calm_inv_def)
  then show ?thesis
  proof (cases rule: workerStep_cases)
    case (closed v)
    then show ?thesis using calm_flags[OF assms(1)] by simp
  next
    case (recv v i rest)
    then show ?thesis
      using sum_list_update_nat[OF recv(1), of workerRank "WInvoking i"] by (simp add: workLeft_def ws_defs)
  qed (use Recv in simp_all)
next
  case (GuestReturns w r)
  then have "workerStep w l s = Some t" using assms(1,3) by (simp add: wstep_def calm_inv_def)
  then show ?thesis
  proof (cases rule: workerStep_cases)
    case (returns v i r')
    then show ?thesis
      using sum_list_update_nat[OF returns(1), of workerRank "WSending i r'"] by (simp add: workLeft_def ws_defs)
  qed (use GuestReturns in simp_all)
next
  case (Deliver w)
  then have "workerStep w l s = Some t" using assms(1,3) by (simp add: wstep_def calm_inv_def)
  then show ?thesis
  proof (cases rule: workerStep_cases)
    case (deliver v i r)
    then show ?thesis
      using sum_list_update_nat[OF deliver(1), of workerRank WSelecting]
        sum_list_update_nat[OF deliver(4), of callRank "CDone r"] by (simp add: workLeft_def ws_defs)
  qed (use Deliver in simp_all)
qed (use assms(2) in simp_all)

text \<open>How the links change.\<close>

lemma linked_call:
  assumes "linked cs q ws op" and "inFlight (cs ! i) = inFlight pc" and "fine op pc"
  shows "linked (cs[i := pc]) q ws op"
proof (rule linkedI)
  fix j
  assume "j < length (cs[i := pc])"
  then show "fine op (cs[i := pc] ! j)" using linkedD(1)[OF assms(1), of j] assms(3) by (cases "i = j") simp_all
next
  fix j
  assume "j < length (cs[i := pc])" "inFlight (cs[i := pc] ! j)"
  then show "j \<in> set q \<or> heldIn j ws"
    using linkedD(2)[OF assms(1), of j] assms(2) by (cases "i = j") simp_all
next
  fix j
  assume "heldIn j ws"
  then show "j < length (cs[i := pc]) \<and> inFlight (cs[i := pc] ! j)"
    using linkedD(3)[OF assms(1), of j] assms(2) by (cases "i = j") simp_all
qed

lemma fine_opened: "fine op pc \<Longrightarrow> fine True pc"
  by (cases pc) simp_all

lemma linked_opened: "linked cs q ws op \<Longrightarrow> linked cs q ws True"
  using fine_opened unfolding linked_def by blast

lemma linked_send:
  assumes "linked cs q ws op" and "i < length cs" and "cs ! i = CReset b"
  shows "linked (cs[i := CSent b]) (q @ [i]) ws op"
proof -
  have op: "op" using linkedD(1)[OF assms(1,2)] assms(3) by simp
  have no: "\<not> heldIn i ws" using linkedD(3)[OF assms(1), of i] assms(3) by auto
  show ?thesis
  proof (rule linkedI)
    fix j
    assume j: "j < length (cs[i := CSent b])"
    then show "fine op (cs[i := CSent b] ! j)" using linkedD(1)[OF assms(1), of j] op by (cases "i = j") simp_all
    assume "inFlight (cs[i := CSent b] ! j)"
    then show "j \<in> set (q @ [i]) \<or> heldIn j ws"
      using j linkedD(2)[OF assms(1), of j] by (cases "i = j") simp_all
  next
    fix j
    assume h: "heldIn j ws"
    with no have "j \<noteq> i" by blast
    with h linkedD(3)[OF assms(1), of j] show "j < length (cs[i := CSent b]) \<and> inFlight (cs[i := CSent b] ! j)" by simp
  qed
qed

lemma linked_spawn: "linked cs q ws op \<Longrightarrow> linked cs q (ws @ [WSelecting]) op"
  by (simp add: linked_def heldIn_def)

text \<open>When \<open>w\<close> is the only worker that is alive, it holds everything that is held.\<close>

definition onlyAlive :: "nat \<Rightarrow> 'r WorkerPc list \<Rightarrow> bool" where
  "onlyAlive w ws \<longleftrightarrow> w < length ws \<and> (\<forall>u < length ws. alive (ws ! u) \<longrightarrow> u = w)"

lemma holds_alive: "holds i pc \<Longrightarrow> alive pc"
  by (cases pc) simp_all

lemma heldIn_only:
  assumes "onlyAlive w ws"
  shows "heldIn i ws \<longleftrightarrow> holds i (ws ! w)"
proof
  assume "heldIn i ws"
  then obtain u where "u < length ws" "holds i (ws ! u)" by (auto simp: heldIn_def in_set_conv_nth)
  then show "holds i (ws ! w)" using assms holds_alive[of i "ws ! u"] unfolding onlyAlive_def by blast
next
  assume "holds i (ws ! w)"
  then show "heldIn i ws" using assms nth_mem unfolding heldIn_def onlyAlive_def by blast
qed

lemma heldIn_update:
  assumes "onlyAlive w ws"
  shows "heldIn i (ws[w := pc]) \<longleftrightarrow> holds i pc"
proof -
  have "onlyAlive w (ws[w := pc])"
    unfolding onlyAlive_def
  proof (intro conjI allI impI)
    fix u
    assume "u < length (ws[w := pc])" "alive (ws[w := pc] ! u)"
    then show "u = w" using assms unfolding onlyAlive_def by (cases "u = w") simp_all
  qed (use assms in \<open>simp add: onlyAlive_def\<close>)
  from heldIn_only[OF this, of i] show ?thesis using assms by (simp add: onlyAlive_def)
qed

lemma linked_worker:
  assumes "linked cs q ws op" and "onlyAlive w ws"
    and "\<And>j. holds j pc \<Longrightarrow> j < length cs \<and> inFlight (cs ! j)"
    and "\<And>j. j \<in> set q \<or> holds j (ws ! w) \<Longrightarrow> j \<in> set q' \<or> holds j pc"
  shows "linked cs q' (ws[w := pc]) op"
  using assms(1,3,4) unfolding linked_def heldIn_update[OF assms(2)] heldIn_only[OF assms(2)] by blast

lemma linked_deliver:
  assumes "linked cs q ws op" and "onlyAlive w ws" and "ws ! w = WSending i r" and "i < length cs"
  shows "linked (cs[i := CDone r]) q (ws[w := WSelecting]) op"
proof (rule linkedI)
  have op: "op" using linkedD(1,3)[OF assms(1), of i] heldIn_only[OF assms(2), of i] assms(3)
    by (cases "cs ! i") simp_all
  fix j
  assume j: "j < length (cs[i := CDone r])"
  then show "fine op (cs[i := CDone r] ! j)" using linkedD(1)[OF assms(1), of j] op by (cases "i = j") simp_all
  assume "inFlight (cs[i := CDone r] ! j)"
  then show "j \<in> set q \<or> heldIn j (ws[w := WSelecting])"
    using j linkedD(2)[OF assms(1), of j] heldIn_only[OF assms(2), of j] assms(3)
    by (cases "i = j") simp_all
qed (simp add: heldIn_update[OF assms(2)])

lemma calm_queue_inFlight:
  assumes "calm_inv s" and "i \<in> set (queue (wi s))"
  shows "i < length (calls s) \<and> inFlight (calls s ! i)"
proof -
  have f: "distinct (guestLog s @ queue (wi s))" "i < length (calls s)" "passed (calls s ! i)"
    using assms by (auto simp: calm_inv_def fifo_inv_def sent_ok_def)
  have "calls s ! i \<noteq> CDone r" for r
  proof
    assume "calls s ! i = CDone r"
    then have "(i, r) \<in> set (resLog s)" using assms(1) f(2) unfolding calm_inv_def result_inv_def by blast
    then have "i \<in> set (guestLog s)" using assms(1) unfolding calm_inv_def result_inv_def by force
    with f(1) assms(2) show False by auto
  qed
  moreover have "fine (opened (wi s)) (calls s ! i)" using assms(1) f(2) linkedD(1) unfolding calm_inv_def by blast
  ultimately show ?thesis using f(2,3) by (cases "calls s ! i") auto
qed

lemma calm_call_linked:
  assumes "calm_inv s" and "callStep i now s = Some t"
  shows "shut t = SWait \<and> linked (calls t) (queue (wi t)) (workers t) (opened (wi t))"
proof -
  have l: "linked (calls s) (queue (wi s)) (workers s) (opened (wi s))" and w: "shut s = SWait"
    using assms(1) by (simp_all add: calm_inv_def)
  have c: "crash t = None" by (rule calm_call_no_panic[OF assms])
  from assms(2) show ?thesis
  proof (cases rule: callStep_cases)
    case unknown
    then show ?thesis using calm_flags(1)[OF assms(1)] by simp
  next
    case swap
    then show ?thesis using linked_opened[OF l] w by (simp add: ws_defs linked_call)
  next
    case (send running)
    then show ?thesis using linked_send[OF l send(1,2)] w by (simp add: ws_defs)
  next
    case work
    then show ?thesis
      using linkedD(1)[OF l work(1)] linked_spawn[OF l] w by (simp add: ws_defs linked_call)
  next
    case await
    then show ?thesis using linkedD(1)[OF l await(1)] l w by (simp add: ws_defs linked_call)
  next
    case (reset running)
    then show ?thesis using linkedD(1)[OF l reset(1)] l w by (simp add: ws_defs linked_call)
  qed (use c l w in \<open>simp_all add: ws_defs linked_call\<close>)
qed

lemma calm_onlyAlive:
  assumes "calm_inv s" and "w < length (workers s)" and "alive (workers s ! w)"
  shows "onlyAlive w (workers s)"
proof -
  have "token_inv s" using assms(1) by (simp add: calm_inv_def)
  then show ?thesis using alive_unique[OF _ _ assms(2) _ assms(3)] assms(2) unfolding onlyAlive_def by blast
qed

lemma calm_worker_linked:
  assumes "calm_inv s" and "workerStep w l s = Some t" and "calmLabel l"
  shows "shut t = SWait \<and> crash t = None \<and> linked (calls t) (queue (wi t)) (workers t) (opened (wi t))"
proof -
  have l: "linked (calls s) (queue (wi s)) (workers s) (opened (wi s))" and w: "shut s = SWait" "crash s = None"
    using assms(1) by (simp_all add: calm_inv_def)
  from assms(2) show ?thesis
  proof (cases rule: workerStep_cases)
    case (closed v)
    then show ?thesis using calm_flags(2)[OF assms(1)] by simp
  next
    case (recv v i rest)
    have o: "onlyAlive w (workers s)" using calm_onlyAlive[OF assms(1) recv(1)] recv(2) by simp
    have "i < length (calls s) \<and> inFlight (calls s ! i)" using calm_queue_inFlight[OF assms(1), of i] recv(4) by simp
    then have "linked (calls s) rest ((workers s)[w := WInvoking i]) (opened (wi s))"
      using recv(2,4) by (intro linked_worker[OF l o]) auto
    then show ?thesis using recv w by (simp add: ws_defs)
  next
    case (returns v i r)
    have o: "onlyAlive w (workers s)" using calm_onlyAlive[OF assms(1) returns(1)] returns(2) by simp
    have "i < length (calls s) \<and> inFlight (calls s ! i)"
      using linkedD(3)[OF l, of i] heldIn_only[OF o, of i] returns(2) by simp
    then have "linked (calls s) (queue (wi s)) ((workers s)[w := WSending i r]) (opened (wi s))"
      using linked_worker[OF l o, of "WSending i r" "queue (wi s)"] returns(2) by simp
    then show ?thesis using returns w by (simp add: ws_defs)
  next
    case (deliver v i r)
    have o: "onlyAlive w (workers s)" using calm_onlyAlive[OF assms(1) deliver(1)] deliver(2) by simp
    show ?thesis using linked_deliver[OF l o deliver(2,4)] deliver w by (simp add: ws_defs)
  qed (use assms(3) in simp_all)
qed

lemma calm_step:
  assumes "calm_inv s" and "calmLabel l" and "wstep l s = Some t"
  shows "calm_inv t"
proof -
  have "token_inv t" "fifo_inv t" "result_inv t"
    using assms(1,3) wstep_token_inv wstep_fifo wstep_result unfolding calm_inv_def by blast+
  moreover have "shut t = SWait \<and> crash t = None \<and> linked (calls t) (queue (wi t)) (workers t) (opened (wi t))"
  proof (cases l)
    case (Call i now)
    then have "callStep i now s = Some t" using assms(3) calm_flags(5)[OF assms(1)] by (simp add: wstep_def)
    then show ?thesis using calm_call_linked[OF assms(1)] calm_call_no_panic[OF assms(1)] by blast
  qed (use assms calm_flags(5)[OF assms(1)] calm_worker_linked[OF assms(1) _ assms(2)] in \<open>simp_all add: wstep_def\<close>)
  ultimately show ?thesis by (simp add: calm_inv_def)
qed

lemma initWS_calm: "initWS n s \<Longrightarrow> calm_inv s"
proof -
  assume i: "initWS n s"
  have "token_inv s" "fifo_inv s" using initWS_token_inv[OF i] initWS_fifo[OF i] .
  moreover have "result_inv s" using i by (auto simp: initWS_def freshWS_def result_inv_def)
  ultimately show "calm_inv s"
    using i by (auto simp: initWS_def freshWS_def calm_inv_def linked_def heldIn_def)
qed

text \<open>A handler that is not blocked on the queue or waiting for its answer can go on.\<close>

lemma calm_call_enabled:
  assumes "calm_inv s" and "i < length (calls s)" and "length (calls s) \<le> InvocationsQueueMaxLen"
    and "calls s ! i \<noteq> CWaiting" and "\<forall>r. calls s ! i \<noteq> CDone r"
  shows "\<exists>l t. calmLabel l \<and> wstep l s = Some t"
proof -
  have fine: "fine (opened (wi s)) (calls s ! i)" using assms(1,2) linkedD(1) unfolding calm_inv_def by blast
  have "length (queue (wi s)) < InvocationsQueueMaxLen" if "calls s ! i = CReset b" for b
  proof -
    have q: "distinct (queue (wi s))" "\<forall>j \<in> set (queue (wi s)). j < length (calls s) \<and> passed (calls s ! j)"
      using assms(1) by (auto simp: calm_inv_def fifo_inv_def sent_ok_def)
    have "set (queue (wi s)) \<subseteq> {..<length (calls s)} - {i}" using q(2) that by auto
    then have "card (set (queue (wi s))) \<le> card ({..<length (calls s)} - {i})" by (rule card_mono[rotated]) simp
    then show ?thesis using assms(2,3) distinct_card[OF q(1)] by simp
  qed
  then have "\<exists>t. callStep i 0 s = Some t"
    using assms(2,4,5) fine calm_flags[OF assms(1)]
    by (cases "calls s ! i") (auto simp: callStep_def ResetTimer_def Let_def not_le)
  then have "\<exists>t. wstep (Call i 0) s = Some t" using calm_flags(5)[OF assms(1)] by (simp add: wstep_def)
  then show ?thesis by (metis calmLabel.simps(1))
qed

lemma calm_worker_enabled:
  assumes "calm_inv s" and "w < length (workers s)" and "alive (workers s ! w)"
    and "workers s ! w = WSelecting \<longrightarrow> queue (wi s) \<noteq> []" and "length (calls s) \<le> InvocationsQueueMaxLen"
  shows "\<exists>l t. calmLabel l \<and> wstep l s = Some t"
proof (cases "workers s ! w")
  case WSelecting
  then have "\<exists>t. wstep (Recv w) s = Some t"
    using assms(2,4) calm_flags(5)[OF assms(1)] by (cases "queue (wi s)") (simp_all add: wstep_def workerStep_def)
  then show ?thesis by (metis calmLabel.simps(2))
next
  case (WInvoking i)
  then have "\<exists>t. wstep (GuestReturns w undefined) s = Some t"
    using assms(2) calm_flags(5)[OF assms(1)] by (simp add: wstep_def workerStep_def)
  then show ?thesis by (metis calmLabel.simps(3))
next
  case (WSending i r)
  have o: "onlyAlive w (workers s)" by (rule calm_onlyAlive[OF assms(1-3)])
  have i: "i < length (calls s)" "inFlight (calls s ! i)"
    using assms(1) linkedD(3)[of "calls s" "queue (wi s)" "workers s" "opened (wi s)" i] heldIn_only[OF o, of i] WSending
    by (simp_all add: calm_inv_def)
  show ?thesis
  proof (cases "calls s ! i = CWaiting")
    case True
    then have "\<exists>t. wstep (Deliver w) s = Some t"
      using assms(2) i(1) WSending calm_flags(5)[OF assms(1)] by (simp add: wstep_def workerStep_def)
    then show ?thesis by (metis calmLabel.simps(4))
  next
    case False
    moreover have "\<forall>r. calls s ! i \<noteq> CDone r" using i(2) by (cases "calls s ! i") simp_all
    ultimately show ?thesis using calm_call_enabled[OF assms(1) i(1) assms(5)] by blast
  qed
qed (use assms(3) in simp)

lemma cnt_witness:
  assumes "cnt P xs \<noteq> 0"
  obtains i where "i < length xs" "P (xs ! i)"
proof -
  have "\<exists>i < length xs. P (xs ! i)"
  proof (rule ccontr)
    assume n: "\<not> (\<exists>i < length xs. P (xs ! i))"
    have "\<not> P x" if "x \<in> set xs" for x using that n unfolding in_set_conv_nth by blast
    then have "cnt P xs = 0" unfolding cnt_def by (induction xs) simp_all
    with assms show False by simp
  qed
  then show thesis using that by blast
qed

lemma calm_progress:
  assumes "calm_inv s" and "i < length (calls s)" and "\<forall>r. calls s ! i \<noteq> CDone r"
    and "length (calls s) \<le> InvocationsQueueMaxLen"
  shows "\<exists>l t. calmLabel l \<and> wstep l s = Some t"
proof (cases "calls s ! i = CWaiting")
  case False
  then show ?thesis using calm_call_enabled[OF assms(1,2,4)] assms(3) by blast
next
  case True
  have l: "linked (calls s) (queue (wi s)) (workers s) (opened (wi s))" using assms(1) by (simp add: calm_inv_def)
  consider "i \<in> set (queue (wi s))" | "heldIn i (workers s)" using linkedD(2)[OF l assms(2)] True by auto
  then show ?thesis
  proof cases
    case 2
    then obtain w where w: "w < length (workers s)" "holds i (workers s ! w)" by (auto simp: heldIn_def in_set_conv_nth)
    have "workers s ! w \<noteq> WSelecting" using w(2) by auto
    then show ?thesis using calm_worker_enabled[OF assms(1) w(1) holds_alive[OF w(2)] _ assms(4)] by blast
  next
    case 1
    have "opened (wi s)" using linkedD(1)[OF l assms(2)] True by simp
    then have one: "cnt early (calls s) + (cnt late (calls s) + cnt alive (workers s)) = 1"
      using assms(1) by (simp add: calm_inv_def token_inv_def tokens_def)
    show ?thesis
    proof (cases "cnt alive (workers s) = 0")
      case False
      then obtain w where w: "w < length (workers s)" "alive (workers s ! w)" by (rule cnt_witness)
      have "queue (wi s) \<noteq> []" using 1 by auto
      then show ?thesis using calm_worker_enabled[OF assms(1) w _ assms(4)] by blast
    next
      case True
      then have "cnt early (calls s) \<noteq> 0 \<or> cnt late (calls s) \<noteq> 0" using one by auto
      then obtain j where j: "j < length (calls s)" "early (calls s ! j) \<or> late (calls s ! j)"
        using cnt_witness[of early "calls s"] cnt_witness[of late "calls s"] by metis
      have "calls s ! j \<noteq> CWaiting" "\<forall>r. calls s ! j \<noteq> CDone r" using j(2) by auto
      then show ?thesis using calm_call_enabled[OF assms(1) j(1) assms(4)] by blast
    qed
  qed
qed

lemma wstep_length: "wstep l s = Some t \<Longrightarrow> length (calls t) = length (calls s)"
proof -
  have "length (calls t) = length (calls s)" if "callStep i now s = Some t" for i now
    using that by (cases rule: callStep_cases) (simp_all add: ws_defs)
  moreover have "length (calls t) = length (calls s)" if "workerStep w l s = Some t" for w l
    using that by (cases rule: workerStep_cases) (simp_all add: ws_defs)
  moreover have "length (calls t) = length (calls s)" if "shutStep s = Some t"
    using that by (auto simp: shutStep_def ws_defs split: ShutPc.splits if_splits)
  ultimately show "wstep l s = Some t \<Longrightarrow> length (calls t) = length (calls s)"
    by (cases l) (auto simp: wstep_def setCall_def split: if_splits)
qed

lemma calm_run:
  assumes "calm_inv s0" and "wrun ls s0 = Some s" and "list_all calmLabel ls"
  shows "calm_inv s \<and> length ls + workLeft s = workLeft s0 \<and> length (calls s) = length (calls s0)"
  using assms
proof (induction ls arbitrary: s0)
  case (Cons l ls)
  obtain s1 where s1: "wstep l s0 = Some s1" "wrun ls s1 = Some s" using Cons.prems(2) by (auto split: option.splits)
  have l: "calmLabel l" "list_all calmLabel ls" using Cons.prems(3) by simp_all
  have "length (calls s1) = length (calls s0)" by (rule wstep_length[OF s1(1)])
  then show ?case
    using Cons.IH[OF calm_step[OF Cons.prems(1) l(1) s1(1)] s1(2) l(2)] calm_rank[OF Cons.prems(1) l(1) s1(1)] by simp
qed simp

text \<open>
  C6: Every request is answered. For at most a hundred requests, in every order of their handlers and the
  worker, as long as the worker's idle timer does not fire, the instance is not shut down and no request
  is cancelled: nothing panics, a run has at most nine steps per request, and a run that cannot go on has
  answered every request with what the guest returned for it.
\<close>

theorem every_request_answered:
  assumes "initWS n s0" and "n \<le> 100" and "wrun ls s0 = Some s" and "list_all calmLabel ls"
  shows "crash s = None \<and> length ls \<le> 9 * n \<and>
    ((\<exists>l t. calmLabel l \<and> wstep l s = Some t) \<or>
     (\<forall>i < n. \<exists>r. calls s ! i = CDone r \<and> (i, r) \<in> set (resLog s)))"
proof -
  have run: "calm_inv s" "length ls + workLeft s = workLeft s0" "length (calls s) = length (calls s0)"
    using calm_run[OF initWS_calm[OF assms(1)] assms(3,4)] by blast+
  have n: "length (calls s0) = n" "workLeft s0 = 9 * n"
    using assms(1) by (auto simp: initWS_def freshWS_def workLeft_def Submit_def Let_def sum_list_replicate)
  have "\<exists>r. calls s ! i = CDone r \<and> (i, r) \<in> set (resLog s)"
    if stuck: "\<not> (\<exists>l t. calmLabel l \<and> wstep l s = Some t)" and i: "i < n" for i
  proof -
    have "i < length (calls s)" "length (calls s) \<le> InvocationsQueueMaxLen"
      using i n(1) run(3) assms(2) by (simp_all add: InvocationsQueueMaxLen_def)
    then obtain r where "calls s ! i = CDone r" using calm_progress[OF run(1), of i] stuck by blast
    then show ?thesis using run(1) \<open>i < length (calls s)\<close> unfolding calm_inv_def result_inv_def by blast
  qed
  then show ?thesis using calm_flags(5)[OF run(1)] run(2) n(2) by auto
qed

section \<open>Examples and races\<close>

definition example_instance :: "(nat, unit) instanceState" where
  "example_instance = snd (Submit 0 ''/f'' ''i'' 60 () (NewInstanceStates :: (nat, unit) InstancesStates))"

lemma example_init: "initWS n (freshWS n example_instance)"
  unfolding initWS_def example_instance_def by blast

lemma wrun_reach:
  assumes "wreach n s" and "wrun ls s = Some t"
  shows "wreach n t"
  using assms by (induction ls arbitrary: s) (auto split: option.splits intro: wreach.step)

definition served :: "int Label list" where
  "served = [Call 0 1, Call 0 1, Call 0 1, Call 1 2, Call 0 1, Call 1 2, Call 0 1, Call 1 2, Call 0 1, Recv 0, Call 1 3,
     GuestReturns 0 200, Call 1 3, Deliver 0, Call 1 3, Recv 0, GuestReturns 0 404, Deliver 0]"

lemma served_run:
  "case wrun served (freshWS 2 example_instance) of
     Some s \<Rightarrow> calls s = [CDone 200, CDone 404] \<and> length (workers s) = 1 \<and> workers s ! 0 = WSelecting
   | None \<Rightarrow> False"
  by code_simp

lemma served_state:
  obtains s where "wrun served (freshWS 2 example_instance) = Some s" and "calls s = [CDone 200, CDone 404]"
    and "length (workers s) = 1" and "workers s ! 0 = WSelecting" and "wreach 2 s"
proof -
  obtain s where s: "wrun served (freshWS 2 example_instance) = Some s" "calls s = [CDone 200, CDone 404]"
    "length (workers s) = 1" "workers s ! 0 = WSelecting" using served_run by (auto split: option.splits)
  moreover have "wreach 2 s" by (rule wrun_reach[OF wreach.start[OF example_init] s(1)])
  ultimately show thesis using that by blast
qed


theorem one_worker_witness:
  "\<exists>s :: (int, unit) WS. wreach 2 s \<and> workers s ! 0 \<noteq> WGone \<and> (\<forall>v < length (workers s). workers s ! v \<noteq> WGone \<longrightarrow> v = 0)"
proof -
  obtain s :: "(int, unit) WS" where s: "length (workers s) = 1" "workers s ! 0 = WSelecting" "wreach 2 s"
    by (rule served_state)
  have "v = 0" if "v < length (workers s)" "workers s ! v \<noteq> WGone" for v
    using one_worker[OF s(3) that(1) _ that(2), of 0] s(1,2) by simp
  then show ?thesis using s by (metis WorkerPc.distinct(5))
qed

theorem invocations_in_order_witness:
  "\<exists>s :: (int, unit) WS. wreach 2 s \<and> calls s = [CDone 200, CDone 404] \<and> 1 \<in> set (guestLog s) \<and> (1, 404) \<in> set (resLog s)"
proof -
  obtain s :: "(int, unit) WS" where s: "calls s = [CDone 200, CDone 404]" "wreach 2 s" by (rule served_state)
  have "1 < length (calls s) \<and> calls s ! 1 = CDone 404" using s(1) by simp
  with invocations_in_order[OF s(2)] s show ?thesis by blast
qed

theorem every_request_answered_witness:
  "\<exists>s. wrun served (freshWS 2 example_instance) = Some s \<and> crash s = None \<and> calls s ! 1 = CDone 404"
proof -
  obtain s where s: "wrun served (freshWS 2 example_instance) = Some s" "calls s = [CDone 200, CDone 404]"
    by (rule served_state)
  have "list_all calmLabel served" by (simp add: served_def)
  from every_request_answered[OF example_init _ s(1) this] s show ?thesis by simp
qed

section \<open>The idle timeout\<close>








section \<open>The steps and the operations\<close>

text \<open>Without interleaving, the steps of a handler are \<open>AddToQueue\<close> and those of the shutdown \<open>StopInstance\<close>.\<close>

lemma AddToQueue_steps:
  assumes "i < length (calls s)" and "calls s ! i = CGot running" and "crash s = None"
  shows "case AddToQueue now i (wi s) of
     Done inst \<Rightarrow> wrun [Call i now, Call i now, Call i now] s =
       Some (setCall i (CSent running) (s\<lparr>wi := inst, sentLog := sentLog s @ [i]\<rparr>))
   | PanicWith msg \<Rightarrow> (\<exists>k t. wrun (replicate k (Call i now)) s = Some t \<and> crash t = Some msg)
   | Blocked \<Rightarrow> wrun [Call i now, Call i now, Call i now] s = None"
proof -
  have 1: "\<exists>k t. wrun (replicate k (Call i now)) s = Some t \<and> crash t = Some msg"
    if "wrun (replicate k (Call i now)) s = Some t" "crash t = Some msg" for k t msg using that by blast
  show ?thesis
    using assms 1[of "Suc 0"] 1[of "Suc (Suc 0)"] 1[of "Suc (Suc (Suc 0))"]
    by (auto simp: AddToQueue_def ResetTimer_def wstep_def callStep_def ws_defs Let_def split: if_splits)
qed

lemma StopInstance_steps:
  assumes "shut s = SFired" and "crash s = None" and "\<not> queueClosed (wi s)"
    and "fmlookup (instanceStates is) (instId (wi s)) \<noteq> None"
  obtains is' inst where "StopInstance (wi s) is = Done (is', inst)"
    and "wrun (replicate 6 Shut) s = Some (s\<lparr>wi := inst, registered := False, shut := SStopped\<rparr>)"
    and "fmlookup (instanceStates is') (instId (wi s)) = None"
proof -
  let ?inst = "wi s\<lparr>opened := False, workerCancelled := True, queueClosed := True, lastUsedTimer := TimerStopped,
      runtimeStopped := True\<rparr>"
  have "StopInstance (wi s) is =
      Done (is\<lparr>instanceStates := fmdrop (instId (wi s)) (instanceStates is)\<rparr>, ?inst)"
    using assms(3) by (simp add: StopInstance_def Let_def)
  moreover have "wrun (replicate 6 Shut) s = Some (s\<lparr>wi := ?inst, registered := False, shut := SStopped\<rparr>)"
    using assms(1-3) by (simp add: eval_nat_numeral wstep_def shutStep_def modInst_def)
  ultimately show thesis using that by simp
qed

end
