(* ===== verification/Gateway.thy ===== *)
theory Gateway
  imports ServerHttp Routing RunnerWorker
begin

text \<open>
  The gateway (\<open>pkg/gateway/handler.go\<close>): it asks the commander where a function runs, forwards the request
  to that runner over a connection it keeps, and copies the response.

  The commander and the runners are parameters: \<open>route\<close> and \<open>invoke\<close>, the latter by the address a
  connection was made to. A connection is a number; \<open>gwConns\<close> are the open ones with their addresses. The
  optimistic check of the cached connection and the check under the lock are two accesses: \<open>between\<close> is
  what other requests do to the handler in between. All interleavings of the two accesses are the subject
  of the section on connections. The router in front of the handler is a parameter: \<open>matches\<close> gives the path
  parameter of a path that matches the pattern of the route.
\<close>

section \<open>State and requests\<close>

record gatewayHandler =
  gwRunners :: "(string, nat) fmap"
  gwConns :: "(nat, string) fmap"
  gwNext :: nat

record GatewayEnv =
  route :: "string \<Rightarrow> Routing res"
  dialErr :: "string \<Rightarrow> goerr option"
  between :: "gatewayHandler \<Rightarrow> gatewayHandler"
  invoke :: "string \<Rightarrow> InvokeInstanceRequest \<Rightarrow> InvokeInstanceResponse res"
  routeTook :: int
  invokeTook :: int
  headerOrder :: iterorder

record HttpRequest =
  hrMethod :: string
  hrPath :: string
  hrURI :: string
  hrFunctionId :: string
  hrHeader :: "(string, string list) fmap"
  hrBody :: "bytes \<times> goerr option"

definition FunctionIdPathParam :: string where
  "FunctionIdPathParam = ''functionId''"

section \<open>Helpers\<close>

definition forwardedPath :: "string \<Rightarrow> string \<Rightarrow> string outcome" where
  "forwardedPath path functionId =
     assertThat (functionId \<noteq> []) ''function id was empty string''
      (let trimmed = strings_TrimPrefix path (slash # functionId)
       in Returns (if trimmed = [] then [slash] else trimmed))"

definition flattenHeaders :: "(string, string list) fmap \<Rightarrow> (string, string) fmap" where
  "flattenHeaders h = fmmap hd (fmfilter (\<lambda>k. fmget [] h k \<noteq> []) h)"

text \<open>The part of \<open>runnerConn\<close> under the lock; \<open>dialed\<close> is the error of making the connection.\<close>

definition lockedConn :: "goerr option \<Rightarrow> string \<Rightarrow> gatewayHandler \<Rightarrow> gatewayHandler \<times> (nat \<times> bool) res" where
  "lockedConn dialed addr h =
     (case fmlookup (gwRunners h) addr of
        Some conn \<Rightarrow> (h, Inr (conn, True))
      | None \<Rightarrow>
          (case dialed of
             Some err \<Rightarrow> (h, Inl (wrapf ''failed to initialize grpc client connection: %w'' [] err))
           | None \<Rightarrow>
               (h\<lparr>gwRunners := fmupd addr (gwNext h) (gwRunners h),
                  gwConns := fmupd (gwNext h) addr (gwConns h), gwNext := gwNext h + 1\<rparr>,
                Inr (gwNext h, False))))"

definition runnerConn ::
  "GatewayEnv \<Rightarrow> string \<Rightarrow> gatewayHandler \<Rightarrow> gatewayHandler \<times> (nat \<times> bool) res" where
  "runnerConn env addr h =
     (case fmlookup (gwRunners h) addr of
        Some conn \<Rightarrow> (h, Inr (conn, True))
      | None \<Rightarrow> lockedConn (dialErr env addr) addr (between env h))"

text \<open>\<open>Close\<close> deletes and closes every connection of the map.\<close>

definition closeRunner :: "string \<Rightarrow> gatewayHandler \<Rightarrow> gatewayHandler" where
  "closeRunner addr h =
     (case fmlookup (gwRunners h) addr of
        None \<Rightarrow> h
      | Some conn \<Rightarrow> h\<lparr>gwRunners := fmdrop addr (gwRunners h), gwConns := fmdrop conn (gwConns h)\<rparr>)"

definition gatewayClose :: "iterorder \<Rightarrow> gatewayHandler \<Rightarrow> gatewayHandler" where
  "gatewayClose ord h = fold closeRunner (ord (fmdom (gwRunners h))) h"

text \<open>\<open>io.ReadAll\<close> behind \<open>http.MaxBytesReader\<close>.\<close>

definition readLimited :: "bytes \<times> goerr option \<Rightarrow> bytes res" where
  "readLimited rd =
     (if MaxBytes < int (length (fst rd)) then Inl (ErrExternal LargeBodyErrorStr)
      else case snd rd of Some e \<Rightarrow> Inl e | None \<Rightarrow> Inr (fst rd))"

definition setHeaders :: "string list \<Rightarrow> (string, string) fmap \<Rightarrow> 'p Writer \<Rightarrow> 'p Writer" where
  "setHeaders ks hs w = fold (\<lambda>k. headerSet (canonicalHeaderKey k) (fmget [] hs k)) ks w"

text \<open>\<open>WriteHeader\<close> of the server panics on a code that does not have three digits; informational codes
  other than 101 do not end the header.\<close>

definition writeStatus :: "int \<Rightarrow> 'p Writer \<Rightarrow> 'p Writer outcome" where
  "writeStatus code w =
     (if code < 100 \<or> 999 < code then Panics ''invalid WriteHeader code %v''
      else if code < 200 \<and> code \<noteq> 101 then Returns w
      else Returns (WriteHeader code w))"

text \<open>\<open>Write\<close> of the server after the header: a status that has no body refuses a body that is not empty.\<close>

definition bodyAllowedForStatus :: "int \<Rightarrow> bool" where
  "bodyAllowedForStatus code \<longleftrightarrow> \<not> (100 \<le> code \<and> code \<le> 199) \<and> code \<noteq> 204 \<and> code \<noteq> 304"

definition ErrBodyNotAllowed :: goerr where
  "ErrBodyNotAllowed = ErrExternal ''http: request method or response status code does not allow body''"

definition sentCode :: "'p Writer \<Rightarrow> int" where
  "sentCode w = (case sent w of Some (code, _) \<Rightarrow> code | None \<Rightarrow> 200)"

definition writeBody :: "bytes \<Rightarrow> 'p Writer \<Rightarrow> 'p Writer \<times> goerr option" where
  "writeBody bs w =
     (if bs = [] \<or> bodyAllowedForStatus (sentCode w) then writeChunk (RawChunk bs) w
      else (WriteHeader 200 w, Some ErrBodyNotAllowed))"

section \<open>The handler\<close>

definition modGwMeta :: "(GatewayFunctionRequestMeta \<Rightarrow> GatewayFunctionRequestMeta) \<Rightarrow> 'e Ctx \<Rightarrow> 'e Ctx" where
  "modGwMeta f ctx = ctx\<lparr>gatewayFunctionRequestSlot := slotMod f (gatewayFunctionRequestSlot ctx)\<rparr>"

definition zeroGwMeta :: GatewayFunctionRequestMeta where
  "zeroGwMeta =
     \<lparr>gwFunctionID = [], gwRequestMethod = [], gwRequestPath = [], gwForwardedPath = [], gwRequestBodyBytes = 0,
      gwHeadersCount = 0, gwRunnerAddr = [], gwInstanceID = [], gwRunnerConnReused = False, gwRouteTook = 0,
      gwInvokeTook = 0, gwResponseStatusCode = 0, gwResponseBodyBytes = 0\<rparr>"

text \<open>The response of the instance is copied to the client.\<close>

definition copyResponse ::
  "GatewayEnv \<Rightarrow> string \<Rightarrow> InvokeInstanceResponse \<Rightarrow> 'p exchange \<Rightarrow> 'p exchange outcome" where
  "copyResponse env uri resp x =
     (let ctx = modGwMeta (\<lambda>m. m\<lparr>gwResponseStatusCode := iiStatusCode resp,
                  gwResponseBodyBytes := int (length (iiBody resp))\<rparr>) (fst x);
          w = setHeaders (headerOrder env (fmdom (iiHeaders resp))) (iiHeaders resp) (snd x)
      in case writeStatus (iiStatusCode resp) w of
           Panics msg \<Rightarrow> Panics msg
         | Returns w1 \<Rightarrow>
             (case writeBody (iiBody resp) w1 of
                (w2, None) \<Rightarrow> Returns (ctx, w2)
              | (w2, Some err) \<Rightarrow>
                  Returns (SetAPIError (NewApiError uri
                    \<lparr>Cause = err, Code = ''internal.server.error'', Detail = Lit ''Failed to write response body'',
                     Status = 500, Title = ''Internal server error'', AdditionalProperties = []\<rparr>) ctx, w2)))"

definition forwardTo ::
  "GatewayEnv \<Rightarrow> HttpRequest \<Rightarrow> Routing \<Rightarrow> nat \<Rightarrow> 'p exchange \<Rightarrow> gatewayHandler \<Rightarrow> ('p exchange \<times> gatewayHandler) outcome" where
  "forwardTo env r ro conn x h =
     (let x1 = (modGwMeta (gwHeadersCount_update (\<lambda>_. int (fcard (fmdom (hrHeader r))))) (fst x), snd x)
      in case readLimited (hrBody r) of
           Inl err \<Rightarrow>
             Returns (if errorTextIs err LargeBodyErrorStr
               then EncodeError (hrURI r)
                      \<lparr>Cause = err, Code = ''request.too.large'',
                       Detail = Fmt ''Request body must be <= %d bytes'' [strconv_FormatInt MaxBytes],
                       Status = 413, Title = ''Request body too large'', AdditionalProperties = []\<rparr> x1
               else InternalServerError (hrURI r) err x1, h)
         | Inr body' \<Rightarrow>
             (case forwardedPath (hrPath r) (hrFunctionId r) of
                Panics msg \<Rightarrow> Panics msg
              | Returns path \<Rightarrow>
                  (let ctx = modGwMeta (\<lambda>m. m\<lparr>gwRequestBodyBytes := int (length body'), gwForwardedPath := path,
                               gwInvokeTook := invokeTook env\<rparr>) (fst x1)
                   in case invoke env (the (fmlookup (gwConns h) conn))
                            \<lparr>irInstanceId = InstanceId ro, irMethod = hrMethod r, irPath = path,
                             irHeaders = flattenHeaders (hrHeader r), irBody = body'\<rparr> of
                        Inl err \<Rightarrow> Returns (InternalServerError (hrURI r) (wrapf ''invoke call failed: %w'' [] err) (ctx, snd x1), h)
                      | Inr resp \<Rightarrow>
                          (case copyResponse env (hrURI r) resp (ctx, snd x1) of
                             Panics msg \<Rightarrow> Panics msg
                           | Returns x2 \<Rightarrow> Returns (x2, h)))))"

definition processFunctionRequest ::
  "GatewayEnv \<Rightarrow> HttpRequest \<Rightarrow> 'p exchange \<Rightarrow> gatewayHandler \<Rightarrow> ('p exchange \<times> gatewayHandler) outcome" where
  "processFunctionRequest env r x h =
     (let ctx0 = SetGatewayFunctionRequestMeta
            (zeroGwMeta\<lparr>gwRequestMethod := hrMethod r, gwRequestPath := hrPath r, gwFunctionID := hrFunctionId r\<rparr>) (fst x)
      in if hrFunctionId r = []
         then Returns (EncodeError (hrURI r)
                \<lparr>Cause = Errorf ''path parameter %q is required'' [FunctionIdPathParam] None, Code = InvalidRequestCode,
                 Detail = Fmt ''Path parameter %q is required'' [FunctionIdPathParam], Status = 400,
                 Title = InvalidRequestTitle, AdditionalProperties = []\<rparr> (ctx0, snd x), h)
         else
           (let ctx1 = modGwMeta (gwRouteTook_update (\<lambda>_. routeTook env)) ctx0
            in case route env (hrFunctionId r) of
                 Inl err \<Rightarrow> Returns (InternalServerError (hrURI r) (wrapf ''route call failed: %w'' [] err) (ctx1, snd x), h)
               | Inr ro \<Rightarrow>
                   (let ctx2 = modGwMeta (\<lambda>m. m\<lparr>gwRunnerAddr := RunnerAddr ro, gwInstanceID := InstanceId ro\<rparr>) ctx1
                    in case runnerConn env (RunnerAddr ro) h of
                         (h1, Inl err) \<Rightarrow> Returns (InternalServerError (hrURI r) err (ctx2, snd x), h1)
                       | (h1, Inr (conn, reused)) \<Rightarrow>
                           forwardTo env r ro conn
                             (modGwMeta (gwRunnerConnReused_update (\<lambda>_. reused)) ctx2, snd x) h1)))"

text \<open>
  The router: a path that does not match is answered by \<open>http.NotFound\<close>, a path that matches by the handler
  with the path parameter.
\<close>

definition httpNotFound :: "'p Writer \<Rightarrow> 'p Writer" where
  "httpNotFound w =
     fst (writeChunk (RawChunk (map of_char (''404 page not found'' @ [CHR 0x0A])))
       (WriteHeader 404 (headerSet ''X-Content-Type-Options'' ''nosniff''
         (headerSet ''Content-Type'' ''text/plain; charset=utf-8'' w))))"

definition gatewayRouter ::
  "(string \<Rightarrow> string option) \<Rightarrow> GatewayEnv \<Rightarrow> HttpRequest \<Rightarrow> 'p exchange \<Rightarrow> gatewayHandler \<Rightarrow>
   ('p exchange \<times> gatewayHandler) outcome" where
  "gatewayRouter matches env r x h =
     (case matches (hrPath r) of
        None \<Rightarrow> Returns ((fst x, httpNotFound (snd x)), h)
      | Some functionId \<Rightarrow> processFunctionRequest env (r\<lparr>hrFunctionId := functionId\<rparr>) x h)"

text \<open>
  What the sources rely on of the router for the pattern \<open>/{functionId}/*\<close>: the parameter is what stands
  between the first slash and the next one or the end; the root, where there is nothing, does not match.
\<close>

definition chi_pattern :: "(string \<Rightarrow> string option) \<Rightarrow> bool" where
  "chi_pattern matches \<longleftrightarrow> matches ''/'' = None \<and>
     (\<forall>fid rest. fid \<noteq> [] \<and> slash \<notin> set fid \<and> (rest = [] \<or> hd rest = slash) \<longrightarrow> matches (slash # fid @ rest) = Some fid)"

section \<open>Connections\<close>

text \<open>Every cached connection is open and was made to the address it is cached under.\<close>

definition gw_inv :: "gatewayHandler \<Rightarrow> bool" where
  "gw_inv h \<longleftrightarrow> (\<forall>a c. fmlookup (gwRunners h) a = Some c \<longrightarrow> fmlookup (gwConns h) c = Some a \<and> c < gwNext h)"

definition conns_le :: "gatewayHandler \<Rightarrow> gatewayHandler \<Rightarrow> bool" where
  "conns_le h h' \<longleftrightarrow> (\<forall>a c. fmlookup (gwRunners h) a = Some c \<longrightarrow> fmlookup (gwRunners h') a = Some c)"

definition gw_calm :: "GatewayEnv \<Rightarrow> bool" where
  "gw_calm env \<longleftrightarrow> (\<forall>h. gw_inv h \<longrightarrow> gw_inv (between env h) \<and> conns_le h (between env h))"

lemma conns_le_trans: "conns_le a b \<Longrightarrow> conns_le b c \<Longrightarrow> conns_le a c"
  by (simp add: conns_le_def)

lemma lockedConn_spec:
  assumes "gw_inv h" and "lockedConn dialed addr h = (h', res)"
  shows "gw_inv h' \<and> conns_le h h' \<and>
    (case res of
       Inr (c, reused) \<Rightarrow> fmlookup (gwRunners h') addr = Some c \<and> fmlookup (gwConns h') c = Some addr
     | Inl err \<Rightarrow> dialed \<noteq> None \<and> fmlookup (gwRunners h) addr = None \<and> h' = h)"
proof (cases "fmlookup (gwRunners h) addr")
  case (Some c)
  then show ?thesis using assms by (auto simp: lockedConn_def gw_inv_def conns_le_def)
next
  case none: None
  show ?thesis
  proof (cases dialed)
    case (Some e)
    then show ?thesis using none assms by (auto simp: lockedConn_def conns_le_def)
  next
    case None
    let ?n = "gwNext h"
    have r: "h' = h\<lparr>gwRunners := fmupd addr ?n (gwRunners h), gwConns := fmupd ?n addr (gwConns h), gwNext := ?n + 1\<rparr>"
      "res = Inr (?n, False)" using none None assms(2) by (auto simp: lockedConn_def)
    have "gw_inv h'" using assms(1) unfolding r(1) gw_inv_def by (auto dest: less_imp_neq intro: less_SucI)
    moreover have "conns_le h h'" using none unfolding r(1) conns_le_def by auto
    ultimately show ?thesis using r by simp
  qed
qed

lemma runnerConn_spec:
  assumes "gw_inv h" and "gw_calm env" and "runnerConn env addr h = (h', res)"
  shows "gw_inv h' \<and> conns_le h h' \<and>
    (case res of
       Inr (c, reused) \<Rightarrow> fmlookup (gwRunners h') addr = Some c \<and> fmlookup (gwConns h') c = Some addr
     | Inl err \<Rightarrow> dialErr env addr \<noteq> None \<and> fmlookup (gwRunners (between env h)) addr = None)"
proof (cases "fmlookup (gwRunners h) addr")
  case (Some c)
  then show ?thesis using assms(1,3) by (auto simp: runnerConn_def gw_inv_def conns_le_def)
next
  case None
  let ?h = "between env h"
  have b: "gw_inv ?h" "conns_le h ?h" using assms(1,2) by (auto simp: gw_calm_def)
  have "lockedConn (dialErr env addr) addr ?h = (h', res)" using assms(3) None by (simp add: runnerConn_def)
  from lockedConn_spec[OF b(1) this] show ?thesis using conns_le_trans[OF b(2)] by (auto split: sum.splits)
qed

lemma runnerConn_fails_iff:
  assumes "gw_inv h" and "gw_calm env" and "runnerConn env addr h = (h', res)"
  shows "(\<exists>e. res = Inl e) \<longleftrightarrow> dialErr env addr \<noteq> None \<and> fmlookup (gwRunners (between env h)) addr = None"
proof -
  have "conns_le h (between env h)" using assms(1,2) by (auto simp: gw_calm_def)
  then have "fmlookup (gwRunners (between env h)) addr = None \<Longrightarrow> fmlookup (gwRunners h) addr = None"
    by (cases "fmlookup (gwRunners h) addr") (auto simp: conns_le_def)
  then show ?thesis using assms(3) by (auto simp: runnerConn_def lockedConn_def split: option.splits)
qed

text \<open>
  Any number of requests for connections side by side. A request looks into the map, and when it has
  missed there, takes the lock; \<open>dialed\<close> is what making a connection gives at that moment.
\<close>

datatype ConnPc = CpStart | CpMissed | CpHas nat bool | CpFailed goerr

type_synonym ConnState = "gatewayHandler \<times> (string \<times> ConnPc) list"

definition connStep :: "nat \<times> goerr option \<Rightarrow> ConnState \<Rightarrow> ConnState" where
  "connStep l st =
     (let (i, dialed) = l; (h, cs) = st
      in if length cs \<le> i then st
         else let (addr, pc) = cs ! i
           in case pc of
                CpStart \<Rightarrow>
                  (h, cs[i := (addr, case fmlookup (gwRunners h) addr of Some conn \<Rightarrow> CpHas conn True | None \<Rightarrow> CpMissed)])
              | CpMissed \<Rightarrow>
                  (case lockedConn dialed addr h of
                     (h1, Inl err) \<Rightarrow> (h1, cs[i := (addr, CpFailed err)])
                   | (h1, Inr (conn, reused)) \<Rightarrow> (h1, cs[i := (addr, CpHas conn reused)]))
              | _ \<Rightarrow> st)"

definition connRun :: "(nat \<times> goerr option) list \<Rightarrow> ConnState \<Rightarrow> ConnState" where
  "connRun sched st = fold connStep sched st"

text \<open>The connections that are open are those of the map, one for each address; who has one has that of its address,
  and only one request made it.\<close>

definition conn_inv :: "ConnState \<Rightarrow> bool" where
  "conn_inv st \<longleftrightarrow> (case st of (h, cs) \<Rightarrow>
     (\<forall>a c. fmlookup (gwRunners h) a = Some c \<longleftrightarrow> fmlookup (gwConns h) c = Some a) \<and>
     (\<forall>c a. fmlookup (gwConns h) c = Some a \<longrightarrow> c < gwNext h) \<and>
     (\<forall>i a c b. i < length cs \<and> cs ! i = (a, CpHas c b) \<longrightarrow> fmlookup (gwRunners h) a = Some c) \<and>
     (\<forall>i j a c d. i < length cs \<and> j < length cs \<and> cs ! i = (a, CpHas c False) \<and> cs ! j = (a, CpHas d False) \<longrightarrow> i = j))"

lemma conn_invD:
  assumes "conn_inv (h, cs)"
  shows "fmlookup (gwRunners h) a = Some c \<longleftrightarrow> fmlookup (gwConns h) c = Some a"
    and "fmlookup (gwConns h) c = Some a \<Longrightarrow> c < gwNext h"
    and "i < length cs \<Longrightarrow> cs ! i = (a, CpHas c b) \<Longrightarrow> fmlookup (gwRunners h) a = Some c"
    and "i < length cs \<Longrightarrow> j < length cs \<Longrightarrow> cs ! i = (a, CpHas c False) \<Longrightarrow> cs ! j = (a, CpHas d False) \<Longrightarrow> i = j"
  using assms unfolding conn_inv_def by (simp, simp, blast+)

text \<open>A request that moves without making a connection.\<close>

lemma conn_inv_move:
  assumes "conn_inv (h, cs)" and "i < length cs" and "\<And>c b. pc = CpHas c b \<Longrightarrow> b \<and> fmlookup (gwRunners h) a = Some c"
  shows "conn_inv (h, cs[i := (a, pc)])"
  using conn_invD[OF assms(1)] assms(2,3)
  unfolding conn_inv_def by (auto simp: nth_list_update split: if_splits) blast+

lemma conn_inv_dial:
  assumes "conn_inv (h, cs)" and "i < length cs" and "fmlookup (gwRunners h) a = None"
  shows "conn_inv (h\<lparr>gwRunners := fmupd a (gwNext h) (gwRunners h), gwConns := fmupd (gwNext h) a (gwConns h),
    gwNext := gwNext h + 1\<rparr>, cs[i := (a, CpHas (gwNext h) False)])"
  using conn_invD[OF assms(1)] assms(2,3)
  unfolding conn_inv_def by (auto simp: nth_list_update less_SucI split: if_splits) (metis less_irrefl option.distinct(1))+

lemma connStep_inv:
  assumes "conn_inv st"
  shows "conn_inv (connStep l st)"
proof -
  obtain i d h cs where l: "l = (i, d)" "st = (h, cs)" by (metis surj_pair)
  show ?thesis
  proof (cases "i < length cs")
    case True
    obtain a pc where a: "cs ! i = (a, pc)" by fastforce
    show ?thesis
    proof (cases pc)
      case CpStart
      then show ?thesis using conn_inv_move[OF assms[unfolded l] True] a True l
        by (auto simp: connStep_def split: option.splits)
    next
      case CpMissed
      then show ?thesis
        using conn_inv_move[OF assms[unfolded l] True, of _ a] conn_inv_dial[OF assms[unfolded l] True, of a] a True l
        by (auto simp: connStep_def lockedConn_def split: option.splits)
    qed (use a True l assms in \<open>simp_all add: connStep_def\<close>)
  qed (use l assms in \<open>simp add: connStep_def\<close>)
qed

lemma connRun_inv: "conn_inv st \<Longrightarrow> conn_inv (connRun sched st)"
  unfolding connRun_def by (induction sched arbitrary: st) (simp_all add: connStep_inv)

lemma connStep_frame: "length (snd (connStep l st)) = length (snd st) \<and> map fst (snd (connStep l st)) = map fst (snd st)"
proof -
  have "map fst (cs[i := (a, x)]) = map fst cs" if "cs ! i = (a, y)" for cs :: "(string \<times> ConnPc) list" and i a x y
    using that by (metis fst_conv list_update_id map_update)
  then show ?thesis
    by (auto simp: connStep_def Let_def split: prod.splits ConnPc.splits option.splits sum.splits)
qed

lemma connRun_frame: "map fst (snd (connRun sched st)) = map fst (snd st)"
  unfolding connRun_def by (induction sched arbitrary: st) (simp_all add: connStep_frame)

text \<open>What other requests do between the two checks of a request is calm.\<close>

lemma connRun_calm:
  assumes "gw_inv h"
  shows "gw_inv (fst (connRun sched (h, cs))) \<and> conns_le h (fst (connRun sched (h, cs)))"
  using assms
proof (induction sched arbitrary: h cs)
  case Nil
  then show ?case by (simp add: connRun_def conns_le_def)
next
  case (Cons l sched)
  obtain h1 cs1 where h1: "connStep l (h, cs) = (h1, cs1)" by fastforce
  have "gw_inv h1 \<and> conns_le h h1"
    using h1 Cons.prems lockedConn_spec[OF Cons.prems]
    by (auto simp: connStep_def conns_le_def Let_def split: prod.splits if_splits ConnPc.splits sum.splits)
  with Cons.IH[of h1 cs1] h1 show ?case by (auto simp: connRun_def intro: conns_le_trans)
qed

lemma gw_calm_others: "gw_calm (env\<lparr>between := \<lambda>h. fst (connRun sched (h, cs))\<rparr>)"
  using connRun_calm by (auto simp: gw_calm_def)

definition emptyGateway :: gatewayHandler where
  "emptyGateway = \<lparr>gwRunners = fmempty, gwConns = fmempty, gwNext = 0\<rparr>"

text \<open>
  C18: Connections to runners are made once. However the two checks of any number of requests interleave,
  and whichever attempts to connect fail, there is never more than one open connection to an address;
  every request that got a connection has the open one to its address, so all requests for an address
  share it; and only one of them made it, also when others had missed it in the map before.
\<close>

theorem runner_connections_shared:
  assumes "connRun sched (emptyGateway, map (\<lambda>a. (a, CpStart)) addrs) = (h, cs)"
  shows "map fst cs = addrs \<and>
    (\<forall>a c d. fmlookup (gwConns h) c = Some a \<and> fmlookup (gwConns h) d = Some a \<longrightarrow> c = d) \<and>
    (\<forall>i a c b. i < length cs \<and> cs ! i = (a, CpHas c b) \<longrightarrow> fmlookup (gwConns h) c = Some a) \<and>
    (\<forall>i j a c d. i < length cs \<and> j < length cs \<and> cs ! i = (a, CpHas c False) \<and> cs ! j = (a, CpHas d False) \<longrightarrow> i = j)"
proof -
  have "conn_inv (emptyGateway, map (\<lambda>a. (a, CpStart)) addrs)" by (auto simp: conn_inv_def emptyGateway_def)
  then have inv: "conn_inv (h, cs)" using connRun_inv assms by metis
  have "map fst cs = addrs" using connRun_frame[of sched "(emptyGateway, map (\<lambda>a. (a, CpStart)) addrs)"] assms by (simp add: o_def)
  moreover have "c = d" if "fmlookup (gwConns h) c = Some a" "fmlookup (gwConns h) d = Some a" for a c d
    using conn_invD(1)[OF inv, of a c] conn_invD(1)[OF inv, of a d] that by simp
  moreover have "fmlookup (gwConns h) c = Some a" if "i < length cs" "cs ! i = (a, CpHas c b)" for i a c b
    using conn_invD(1)[OF inv, of a c] conn_invD(3)[OF inv that] by simp
  ultimately show ?thesis using conn_invD(4)[OF inv] by blast
qed

text \<open>Both requests miss the connection in the map; the second finds it under the lock.\<close>

theorem runner_connections_shared_witness:
  "\<exists>h c. connRun [(0, None), (1, None), (0, None), (1, None)] (emptyGateway, [(''r:1'', CpStart), (''r:1'', CpStart)]) =
     (h, [(''r:1'', CpHas c False), (''r:1'', CpHas c True)]) \<and> fmlookup (gwConns h) c = Some ''r:1''"
proof -
  obtain h where r: "connRun [(0, None), (1, None), (0, None), (1, None)] (emptyGateway, [(''r:1'', CpStart), (''r:1'', CpStart)]) =
     (h, [(''r:1'', CpHas 0 False), (''r:1'', CpHas 0 True)])"
    by (simp add: connRun_def connStep_def lockedConn_def emptyGateway_def)
  from runner_connections_shared[of "[(0, None), (1, None), (0, None), (1, None)]" "[''r:1'', ''r:1'']"] r
  have "\<forall>i a c b. i < length [(''r:1'', CpHas 0 False), (''r:1'', CpHas 0 True)] \<and>
      [(''r:1'', CpHas 0 False), (''r:1'', CpHas 0 True)] ! i = (a, CpHas c b) \<longrightarrow> fmlookup (gwConns h) c = Some a" by simp
  from this[rule_format, of 1 "''r:1''" 0 True] r show ?thesis by auto
qed

definition example_gateway_env :: GatewayEnv where
  "example_gateway_env =
     \<lparr>route = (\<lambda>_. Inr \<lparr>RunnerAddr = ''r:1'', InstanceId = ''i''\<rparr>), dialErr = (\<lambda>_. None), between = (\<lambda>h. h),
      invoke = (\<lambda>_ req. Inr \<lparr>iiStatusCode = 201, iiHeaders = fmupd ''x-id'' (irPath req) fmempty, iiBody = irBody req\<rparr>),
      routeTook = 1, invokeTook = 2, headerOrder = sorted_list_of_fset\<rparr>"

lemma example_gateway_ok: "gw_calm example_gateway_env" "gw_inv emptyGateway"
  by (simp_all add: gw_calm_def gw_inv_def conns_le_def example_gateway_env_def emptyGateway_def)

section \<open>Forwarding\<close>

lemma forwardedPath_strip:
  assumes "functionId \<noteq> []"
  shows "forwardedPath (slash # functionId @ rest) functionId = Returns (if rest = [] then [slash] else rest)"
proof -
  have "strings_TrimPrefix (slash # functionId @ rest) (slash # functionId) = rest"
    using TrimPrefix_append[of "slash # functionId" rest] by simp
  then show ?thesis using assms by (simp add: forwardedPath_def)
qed

lemma flattenHeaders_first:
  "fmlookup (flattenHeaders h) k = (case fmlookup h k of Some (v # vs) \<Rightarrow> Some v | _ \<Rightarrow> None)"
  by (auto simp: flattenHeaders_def fmget_def split: option.splits list.splits)

lemma setHeaders_frame: "sent (setHeaders ks hs w) = sent w \<and> body (setHeaders ks hs w) = body w \<and> writeErr (setHeaders ks hs w) = writeErr w"
  by (induction ks arbitrary: w) (simp_all add: setHeaders_def headerSet_def)

lemma setHeaders_lookup:
  assumes "inj_on canonicalHeaderKey (set ks)" and "distinct ks" and "k \<in> set ks"
  shows "fmlookup (header (setHeaders ks hs w)) (canonicalHeaderKey k) = Some (fmget [] hs k)"
  using assms
proof (induction ks rule: rev_induct)
  case (snoc k' ks)
  have step: "setHeaders (ks @ [k']) hs w = headerSet (canonicalHeaderKey k') (fmget [] hs k') (setHeaders ks hs w)"
    by (simp add: setHeaders_def)
  show ?case
  proof (cases "k = k'")
    case False
    then have "canonicalHeaderKey k' \<noteq> canonicalHeaderKey k" "k \<in> set ks"
      using snoc.prems by (auto simp: inj_on_def)
    with snoc show ?thesis unfolding step by (simp add: headerSet_def inj_on_def)
  qed (simp add: step headerSet_def)
qed simp

text \<open>
  What the gateway does with a request that succeeds: the instance that the commander chose gets the
  method, the path without the function id (the root when nothing is left), the first value of every
  header and the whole body; the client gets the status, the headers and the body of the instance. The
  connection to the runner is kept.
\<close>

lemma gateway_forwards:
  assumes "gw_inv h" and "gw_calm env" and "hrFunctionId r \<noteq> []" and "hrPath r = slash # hrFunctionId r @ rest"
    and "route env (hrFunctionId r) = Inr ro" and "dialErr env (RunnerAddr ro) = None"
    and "hrBody r = (bs, None)" and "int (length bs) \<le> MaxBytes"
    and "invoke env (RunnerAddr ro)
      \<lparr>irInstanceId = InstanceId ro, irMethod = hrMethod r, irPath = (if rest = [] then ''/'' else rest),
       irHeaders = flattenHeaders (hrHeader r), irBody = bs\<rparr> = Inr resp"
    and "200 \<le> iiStatusCode resp" and "iiStatusCode resp \<le> 999" and "sent w = None" and "writeErr w = None"
    and "iiBody resp = [] \<or> bodyAllowedForStatus (iiStatusCode resp)"
    and "iter_order (headerOrder env)" and "inj_on canonicalHeaderKey (fset (fmdom (iiHeaders resp)))"
  shows "\<exists>ctx' w' h' hdr c. processFunctionRequest env r (ctx, w) h = Returns ((ctx', w'), h') \<and>
    sent w' = Some (iiStatusCode resp, hdr) \<and> body w' = body w @ [RawChunk (iiBody resp)] \<and>
    (\<forall>k v. fmlookup (iiHeaders resp) k = Some v \<longrightarrow> fmlookup hdr (canonicalHeaderKey k) = Some v) \<and>
    gw_inv h' \<and> fmlookup (gwRunners h') (RunnerAddr ro) = Some c"
proof -
  obtain h1 res where rc: "runnerConn env (RunnerAddr ro) h = (h1, res)" by fastforce
  note s = runnerConn_spec[OF assms(1,2) rc]
  obtain c reused where res: "res = Inr (c, reused)" using s assms(6) by (cases res) auto
  have c: "gw_inv h1" "fmlookup (gwRunners h1) (RunnerAddr ro) = Some c" "fmlookup (gwConns h1) c = Some (RunnerAddr ro)"
    using s res by auto
  have rd: "readLimited (hrBody r) = Inr bs" using assms(7,8) by (simp add: readLimited_def)
  have fp: "forwardedPath (hrPath r) (hrFunctionId r) = Returns (if rest = [] then ''/'' else rest)"
    using forwardedPath_strip[OF assms(3), of rest] assms(4) by (simp add: slash_def)
  let ?w = "setHeaders (headerOrder env (fmdom (iiHeaders resp))) (iiHeaders resp) w"
  have hdr: "fmlookup (header ?w) (canonicalHeaderKey k) = Some v" if "fmlookup (iiHeaders resp) k = Some v" for k v
    using setHeaders_lookup[of "headerOrder env (fmdom (iiHeaders resp))" k "iiHeaders resp" w]
      iter_orderD[OF assms(15), of "fmdom (iiHeaders resp)"] assms(16) that
    by (simp add: fmlookup_dom_iff fmdomI)
  have "\<exists>ctx'. forwardTo env r ro c (ctx0, w) h1 =
      Returns ((ctx', (WriteHeader (iiStatusCode resp) ?w)\<lparr>body := body w @ [RawChunk (iiBody resp)]\<rparr>), h1)" for ctx0
    using rd fp assms(9-14) c(3) setHeaders_frame[of "headerOrder env (fmdom (iiHeaders resp))" "iiHeaders resp" w]
    by (simp add: forwardTo_def Let_def copyResponse_def writeStatus_def writeBody_def sentCode_def writeChunk_def WriteHeader_def)
  then have "\<exists>ctx'. processFunctionRequest env r (ctx, w) h =
      Returns ((ctx', (WriteHeader (iiStatusCode resp) ?w)\<lparr>body := body w @ [RawChunk (iiBody resp)]\<rparr>), h1)"
    using assms(3,5) rc res by (simp add: processFunctionRequest_def Let_def)
  moreover have "sent (WriteHeader (iiStatusCode resp) ?w) = Some (iiStatusCode resp, header ?w)"
    using assms(12) setHeaders_frame[of "headerOrder env (fmdom (iiHeaders resp))" "iiHeaders resp" w]
    by (simp add: WriteHeader_def)
  ultimately show ?thesis using hdr c(1,2) by (auto 0 4)
qed

section \<open>Answers\<close>

lemma EncodeError_fresh:
  assumes "sent w = None" and "writeErr w = None"
  shows "\<exists>hdr d. sent (snd (EncodeError uri e (ctx, w))) = Some (Status e, hdr) \<and>
    body (snd (EncodeError uri e (ctx, w))) = body w @ [JsonError d] \<and> edStatus d = Status e"
  using assms
  by (simp add: EncodeError_def EncodeApiError_def encodeWithContentType_def writeChunk_def WriteHeader_def
      NewApiError_def headerSet_def)

text \<open>A response with one JSON error body.\<close>

definition failedWith :: "int \<Rightarrow> 'p Writer \<Rightarrow> 'p Writer \<Rightarrow> bool" where
  "failedWith code w w' \<longleftrightarrow> (\<exists>hdr d. sent w' = Some (code, hdr) \<and> body w' = body w @ [JsonError d] \<and> edStatus d = code)"

lemma failedWith_EncodeError:
  assumes "sent w = None" and "writeErr w = None" and "EncodeError uri e (ctx, w) = (ctx', w')"
  shows "failedWith (Status e) w w'"
  using EncodeError_fresh[OF assms(1,2), of uri e ctx] assms(3) by (simp add: failedWith_def)

lemma failedWith_Internal:
  assumes "sent w = None" and "writeErr w = None" and "InternalServerError uri e (ctx, w) = (ctx', w')"
  shows "failedWith 500 w w'"
  using failedWith_EncodeError[OF assms(1,2) assms(3)[unfolded InternalServerError_def]] by simp

text \<open>A response of an instance as the client sees it: an informational status becomes 200, and a body
  that the status does not allow is dropped.\<close>

definition answeredWith :: "InvokeInstanceResponse \<Rightarrow> 'p Writer \<Rightarrow> 'p Writer \<Rightarrow> bool" where
  "answeredWith resp w w' \<longleftrightarrow>
     (let code = (if iiStatusCode resp < 200 \<and> iiStatusCode resp \<noteq> 101 then 200 else iiStatusCode resp)
      in (\<exists>hdr. sent w' = Some (code, hdr)) \<and>
         body w' = body w @ (if iiBody resp = [] \<or> bodyAllowedForStatus code then [RawChunk (iiBody resp)] else []))"

lemma copyResponse_answer:
  assumes "copyResponse env uri resp (ctx, w) = Returns (ctx', w')" and "sent w = None" and "writeErr w = None"
  shows "answeredWith resp w w'"
  using assms setHeaders_frame[of "headerOrder env (fmdom (iiHeaders resp))" "iiHeaders resp" w]
  by (auto simp: copyResponse_def Let_def writeStatus_def writeBody_def sentCode_def writeChunk_def WriteHeader_def
      answeredWith_def bodyAllowedForStatus_def split: if_splits prod.splits option.splits)

text \<open>
  The answer of the gateway, decided by what the router, the commander, the connection, the client and
  the runner give, in this order.
\<close>

datatype Verdict = NoRoute | Refused int | Answered InvokeInstanceResponse | Crashed

definition forwardVerdict :: "GatewayEnv \<Rightarrow> HttpRequest \<Rightarrow> Routing \<Rightarrow> string \<Rightarrow> Verdict" where
  "forwardVerdict env r ro fid =
     (if MaxBytes < int (length (fst (hrBody r))) then Refused 413
      else case snd (hrBody r) of
        Some e \<Rightarrow> Refused (if errorTextIs e LargeBodyErrorStr then 413 else 500)
      | None \<Rightarrow>
          (let rest = strings_TrimPrefix (hrPath r) (slash # fid)
           in case invoke env (RunnerAddr ro)
               \<lparr>irInstanceId = InstanceId ro, irMethod = hrMethod r, irPath = (if rest = [] then ''/'' else rest),
                irHeaders = flattenHeaders (hrHeader r), irBody = fst (hrBody r)\<rparr> of
             Inl _ \<Rightarrow> Refused 500
           | Inr resp \<Rightarrow> if iiStatusCode resp < 100 \<or> 999 < iiStatusCode resp then Crashed else Answered resp))"

definition gatewayVerdict :: "(string \<Rightarrow> string option) \<Rightarrow> GatewayEnv \<Rightarrow> HttpRequest \<Rightarrow> gatewayHandler \<Rightarrow> Verdict" where
  "gatewayVerdict matches env r h =
     (case matches (hrPath r) of
        None \<Rightarrow> NoRoute
      | Some fid \<Rightarrow>
          if fid = [] then Refused 400
          else case route env fid of
            Inl _ \<Rightarrow> Refused 500
          | Inr ro \<Rightarrow>
              if dialErr env (RunnerAddr ro) \<noteq> None \<and> fmlookup (gwRunners (between env h)) (RunnerAddr ro) = None
              then Refused 500 else forwardVerdict env r ro fid)"

text \<open>What a verdict means for the client; a crash is a panic of the handler.\<close>

definition answersAs :: "'p Writer \<Rightarrow> ('p exchange \<times> gatewayHandler) outcome \<Rightarrow> Verdict \<Rightarrow> bool" where
  "answersAs w out v \<longleftrightarrow>
     (case out of
        Panics msg \<Rightarrow> v = Crashed
      | Returns ((ctx', w'), h') \<Rightarrow>
          (case v of
             NoRoute \<Rightarrow> \<exists>hdr bs. sent w' = Some (404, hdr) \<and> body w' = body w @ [RawChunk bs]
           | Refused code \<Rightarrow> failedWith code w w'
           | Answered resp \<Rightarrow> answeredWith resp w w'
           | Crashed \<Rightarrow> False))"

lemma answersAs_refused:
  assumes "sent w = None" and "writeErr w = None"
  shows "answersAs w (Returns (EncodeError uri e (ctx, w), h)) (Refused code) \<longleftrightarrow> Status e = code"
  using failedWith_EncodeError[OF assms, of uri e ctx]
  by (cases "EncodeError uri e (ctx, w)") (auto simp: answersAs_def failedWith_def)

lemma answersAs_internal:
  assumes "sent w = None" and "writeErr w = None"
  shows "answersAs w (Returns (InternalServerError uri e (ctx, w), h)) (Refused 500)"
  unfolding InternalServerError_def by (subst answersAs_refused[OF assms]) simp

lemma httpNotFound_answers: "sent w = None \<Longrightarrow> writeErr w = None \<Longrightarrow> answersAs w (Returns ((ctx, httpNotFound w), h)) NoRoute"
  by (simp add: answersAs_def httpNotFound_def writeChunk_def WriteHeader_def headerSet_def)

lemma copyResponse_panics_iff:
  "(\<exists>msg. copyResponse env uri resp (ctx, w) = Panics msg) \<longleftrightarrow> iiStatusCode resp < 100 \<or> 999 < iiStatusCode resp"
  by (auto simp: copyResponse_def writeStatus_def Let_def split: prod.splits option.splits)

lemma copyResponse_answers:
  assumes "sent w = None" and "writeErr w = None"
  shows "answersAs w (case copyResponse env uri resp (ctx, w) of Panics msg \<Rightarrow> Panics msg | Returns x2 \<Rightarrow> Returns (x2, h))
    (if iiStatusCode resp < 100 \<or> 999 < iiStatusCode resp then Crashed else Answered resp)"
proof (cases "copyResponse env uri resp (ctx, w)")
  case (Returns x)
  then show ?thesis
    using copyResponse_panics_iff[of env uri resp ctx w] copyResponse_answer[OF _ assms, of env uri resp ctx]
    by (cases x) (auto simp: answersAs_def)
next
  case (Panics msg)
  then show ?thesis using copyResponse_panics_iff[of env uri resp ctx w] by (auto simp: answersAs_def)
qed

lemma forwardVerdict_id: "forwardVerdict env (r\<lparr>hrFunctionId := x\<rparr>) ro fid = forwardVerdict env r ro fid"
proof -
  have f: "hrPath (r\<lparr>hrFunctionId := x\<rparr>) = hrPath r" "hrBody (r\<lparr>hrFunctionId := x\<rparr>) = hrBody r"
    "hrMethod (r\<lparr>hrFunctionId := x\<rparr>) = hrMethod r" "hrHeader (r\<lparr>hrFunctionId := x\<rparr>) = hrHeader r" by simp_all
  show ?thesis unfolding forwardVerdict_def f ..
qed

lemma forwardTo_answers:
  assumes "sent w = None" and "writeErr w = None" and "hrFunctionId r \<noteq> []" and "fmlookup (gwConns h) c = Some (RunnerAddr ro)"
  shows "answersAs w (forwardTo env r ro c (ctx, w) h) (forwardVerdict env r ro (hrFunctionId r))"
proof -
  let ?rest = "strings_TrimPrefix (hrPath r) (slash # hrFunctionId r)"
  have p: "forwardedPath (hrPath r) (hrFunctionId r) = Returns (if ?rest = [] then ''/'' else ?rest)"
    using assms(3) by (simp add: forwardedPath_def slash_def Let_def)
  have large: "errorTextIs (ErrExternal LargeBodyErrorStr) LargeBodyErrorStr" by code_simp
  note ans = answersAs_refused[OF assms(1,2)] answersAs_internal[OF assms(1,2)] copyResponse_answers[OF assms(1,2)]
  show ?thesis
  proof (cases "MaxBytes < int (length (fst (hrBody r)))")
    case True
    then show ?thesis using large ans by (simp add: forwardTo_def forwardVerdict_def readLimited_def Let_def)
  next
    case False
    show ?thesis
    proof (cases "snd (hrBody r)")
      case (Some e)
      then show ?thesis using False ans by (simp add: forwardTo_def forwardVerdict_def readLimited_def Let_def)
    next
      case None
      then show ?thesis using False ans assms(4) p
        by (simp add: forwardTo_def forwardVerdict_def readLimited_def Let_def split: sum.splits)
    qed
  qed
qed

lemma gatewayRouter_answers:
  assumes "gw_inv h" and "gw_calm env" and "sent w = None" and "writeErr w = None"
  shows "answersAs w (gatewayRouter matches env r (ctx, w) h) (gatewayVerdict matches env r h)"
proof (cases "matches (hrPath r)")
  case None
  then show ?thesis using httpNotFound_answers[OF assms(3,4)] by (simp add: gatewayRouter_def gatewayVerdict_def)
next
  case (Some fid)
  note ans = answersAs_refused[OF assms(3,4)] answersAs_internal[OF assms(3,4)]
  show ?thesis
  proof (cases "fid = []")
    case True
    then show ?thesis using Some ans
      by (simp add: gatewayRouter_def gatewayVerdict_def processFunctionRequest_def Let_def)
  next
    case fid: False
    show ?thesis
    proof (cases "route env fid")
      case (Inl e)
      then show ?thesis using Some fid ans
        by (simp add: gatewayRouter_def gatewayVerdict_def processFunctionRequest_def Let_def)
    next
      case (Inr ro)
      obtain h1 res where rc: "runnerConn env (RunnerAddr ro) h = (h1, res)" by fastforce
      note fails = runnerConn_fails_iff[OF assms(1,2) rc]
      show ?thesis
      proof (cases res)
        case err: (Inl e)
        then show ?thesis using Some fid Inr rc fails ans
          by (simp add: gatewayRouter_def gatewayVerdict_def processFunctionRequest_def Let_def)
      next
        case ok: (Inr cr)
        obtain c reused where cr: "cr = (c, reused)" by fastforce
        have "fmlookup (gwConns h1) c = Some (RunnerAddr ro)" using runnerConn_spec[OF assms(1,2) rc] ok cr by simp
        from forwardTo_answers[OF assms(3,4) _ this, of "r\<lparr>hrFunctionId := fid\<rparr>" env]
        have "answersAs w (forwardTo env (r\<lparr>hrFunctionId := fid\<rparr>) ro c (ctx0, w) h1) (forwardVerdict env r ro fid)" for ctx0
          using fid by (simp add: forwardVerdict_id)
        moreover have "\<not> (dialErr env (RunnerAddr ro) \<noteq> None \<and> fmlookup (gwRunners (between env h)) (RunnerAddr ro) = None)"
          using fails ok by auto
        then have "gatewayVerdict matches env r h = forwardVerdict env r ro fid"
          using Some fid Inr by (auto simp: gatewayVerdict_def)
        ultimately show ?thesis
          using Some fid Inr rc ok cr by (simp add: gatewayRouter_def processFunctionRequest_def Let_def)
      qed
    qed
  qed
qed

text \<open>
  C12: The gateway answers every request exactly once, and exactly so: a path without a route gets the 404
  of the router; a missing function id gets 400; an error of the commander, of the connection or of the
  runner gets 500; a body above the limit gets 413 and one that cannot be read otherwise 500, each with
  one JSON error; a response of the runner is passed on, with 200 for an informational status and without a
  body that the status does not allow; and only a status of the runner outside of 100 to 999 makes the
  handler panic. With the route of the program the root has no route, and a path that starts with a name
  is never refused for a missing id.
\<close>

theorem gateway_answers_once:
  assumes "gw_inv h" and "gw_calm env" and "sent w = None" and "writeErr w = None"
  shows "answersAs w (gatewayRouter matches env r (ctx, w) h) (gatewayVerdict matches env r h) \<and>
    (chi_pattern matches \<and> hrPath r = ''/'' \<longrightarrow> gatewayVerdict matches env r h = NoRoute) \<and>
    (chi_pattern matches \<and> hrPath r = slash # fid @ rest \<and> fid \<noteq> [] \<and> slash \<notin> set fid \<and> (rest = [] \<or> hd rest = slash) \<longrightarrow>
      gatewayVerdict matches env r h \<notin> {NoRoute, Refused 400})"
proof (intro conjI impI)
  show "answersAs w (gatewayRouter matches env r (ctx, w) h) (gatewayVerdict matches env r h)"
    by (rule gatewayRouter_answers[OF assms])
next
  assume "chi_pattern matches \<and> hrPath r = ''/''"
  then show "gatewayVerdict matches env r h = NoRoute" by (simp add: gatewayVerdict_def chi_pattern_def)
next
  assume "chi_pattern matches \<and> hrPath r = slash # fid @ rest \<and> fid \<noteq> [] \<and> slash \<notin> set fid \<and> (rest = [] \<or> hd rest = slash)"
  then have "matches (hrPath r) = Some fid" "fid \<noteq> []" by (simp_all add: chi_pattern_def)
  then show "gatewayVerdict matches env r h \<notin> {NoRoute, Refused 400}"
    by (simp add: gatewayVerdict_def forwardVerdict_def Let_def split: sum.splits option.splits if_splits)
qed

text \<open>The first name of a path.\<close>

definition example_matches :: "string \<Rightarrow> string option" where
  "example_matches path =
     (let name = takeWhile (\<lambda>c. c \<noteq> slash) (tl path) in if path = [] \<or> name = [] then None else Some name)"

lemma example_matches_chi: "chi_pattern example_matches"
  unfolding chi_pattern_def
proof (intro conjI allI impI)
  show "example_matches ''/'' = None" by code_simp
  fix fid rest assume a: "fid \<noteq> [] \<and> slash \<notin> set fid \<and> (rest = [] \<or> hd rest = slash)"
  then have "takeWhile (\<lambda>c. c \<noteq> slash) fid = fid" "takeWhile (\<lambda>c. c \<noteq> slash) rest = []"
    by (auto simp: takeWhile_eq_Nil_iff)
  moreover have "takeWhile (\<lambda>c. c \<noteq> slash) (fid @ rest) = fid @ takeWhile (\<lambda>c. c \<noteq> slash) rest"
    using a by (intro takeWhile_append2) auto
  ultimately show "example_matches (slash # fid @ rest) = Some fid" using a by (simp add: example_matches_def)
qed

theorem gateway_answers_once_witness:
  "gatewayVerdict example_matches example_gateway_env
      \<lparr>hrMethod = ''GET'', hrPath = ''/'', hrURI = ''/'', hrFunctionId = [], hrHeader = fmempty, hrBody = ([], None)\<rparr>
      emptyGateway = NoRoute \<and>
   answersAs (newWriter None :: unit Writer) (gatewayRouter example_matches example_gateway_env
      \<lparr>hrMethod = ''PUT'', hrPath = ''/7/x'', hrURI = ''/7/x'', hrFunctionId = [], hrHeader = fmempty,
       hrBody = (replicate (Suc (nat MaxBytes)) 0, None)\<rparr> (emptyCtx, newWriter None) emptyGateway) (Refused 413)"
proof
  let ?r = "\<lparr>hrMethod = ''GET'', hrPath = ''/'', hrURI = ''/'', hrFunctionId = [], hrHeader = fmempty, hrBody = ([], None)\<rparr>"
  let ?s = "\<lparr>hrMethod = ''PUT'', hrPath = ''/7/x'', hrURI = ''/7/x'', hrFunctionId = [], hrHeader = fmempty,
      hrBody = (replicate (Suc (nat MaxBytes)) 0, None)\<rparr>"
  have w: "sent (newWriter None :: unit Writer) = None" "writeErr (newWriter None :: unit Writer) = None"
    by (simp_all add: newWriter_def)
  note G = gateway_answers_once[OF example_gateway_ok(2,1) w, of example_matches]
  show "gatewayVerdict example_matches example_gateway_env ?r emptyGateway = NoRoute"
    using G[of ?r] example_matches_chi by simp
  have "example_matches ''/7/x'' = Some ''7''" by code_simp
  then have "gatewayVerdict example_matches example_gateway_env ?s emptyGateway = Refused 413"
    by (simp add: gatewayVerdict_def forwardVerdict_def example_gateway_env_def MaxBytes_def)
  with G[of ?s emptyCtx] show "answersAs (newWriter None :: unit Writer) (gatewayRouter example_matches example_gateway_env ?s
      (emptyCtx, newWriter None) emptyGateway) (Refused 413)" by simp
qed

end
