(* ===== verification/TesterRequests.thy ===== *)
theory TesterRequests
  imports Files
begin

text \<open>
  The load tester's requests (\<open>servermore-tester/requester.go\<close>, \<open>rand.go\<close> and the five
  \<open>*_requester.go\<close>), how they are sent (\<open>invokeFunction\<close> in \<open>worker.go\<close>), and how a function is deployed
  (\<open>deploy.go\<close>).

  The random generator is a parameter: \<open>intn m g\<close> is \<open>Intn(m)\<close> in the generator state \<open>g\<close>. Files, requests and
  the JSON decoder are parameters of the operations that use them.
\<close>

section \<open>White space\<close>

text \<open>How many bytes the white space rune takes that a string starts with, none when it starts with
  another rune. The first byte of an encoding never occurs inside one, so looking at every byte finds
  the same runes as decoding does.\<close>

definition byteAt :: "string \<Rightarrow> nat \<Rightarrow> int" where
  "byteAt s i = (if i < length s then of_char (s ! i) else - 1)"

definition spaceLen :: "string \<Rightarrow> nat" where
  "spaceLen s =
     (let a = byteAt s 0; b = byteAt s 1; c = byteAt s 2
      in if 9 \<le> a \<and> a \<le> 13 \<or> a = 32 then 1
         else if a = 194 \<and> (b = 133 \<or> b = 160) then 2
         else if a = 225 \<and> b = 154 \<and> c = 128
               \<or> a = 226 \<and> b = 128 \<and> (128 \<le> c \<and> c \<le> 138 \<or> c = 168 \<or> c = 169 \<or> c = 175)
               \<or> a = 226 \<and> b = 129 \<and> c = 159
               \<or> a = 227 \<and> b = 128 \<and> c = 128 then 3
         else 0)"

function trimSpaceLeft :: "string \<Rightarrow> string" where
  "trimSpaceLeft s = (if s = [] \<or> spaceLen s = 0 then s else trimSpaceLeft (drop (spaceLen s) s))"
  by auto
termination by (relation "measure length") auto

text \<open>At the end of a string: the last one, two or three bytes are a white space rune.\<close>

definition endsInSpace :: "string \<Rightarrow> nat" where
  "endsInSpace s =
     (if 1 \<le> length s \<and> spaceLen (drop (length s - 1) s) = 1 then 1
      else if 2 \<le> length s \<and> spaceLen (drop (length s - 2) s) = 2 then 2
      else if 3 \<le> length s \<and> spaceLen (drop (length s - 3) s) = 3 then 3
      else 0)"

function trimSpaceRight :: "string \<Rightarrow> string" where
  "trimSpaceRight s = (if s = [] \<or> endsInSpace s = 0 then s else trimSpaceRight (take (length s - endsInSpace s) s))"
  by auto
termination by (relation "measure length") auto

declare trimSpaceLeft.simps [simp del] trimSpaceRight.simps [simp del]

definition strings_TrimSpace :: "string \<Rightarrow> string" where
  "strings_TrimSpace s = trimSpaceRight (trimSpaceLeft s)"

function fieldsLoop :: "string \<Rightarrow> string \<Rightarrow> string list" where
  "fieldsLoop [] cur = (if cur = [] then [] else [rev cur])"
| "fieldsLoop (c # cs) cur =
     (let n = spaceLen (c # cs)
      in if n = 0 then fieldsLoop cs (c # cur)
         else (if cur = [] then [] else [rev cur]) @ fieldsLoop (drop n (c # cs)) [])"
  by pat_completeness auto
termination by (relation "measure (\<lambda>(s, _). length s)") auto

definition strings_Fields :: "string \<Rightarrow> string list" where
  "strings_Fields s = fieldsLoop s []"

text \<open>\<open>compactText\<close> puts a text on one line and cuts it; a negative length is a slice out of range.\<close>

definition compactText :: "string \<Rightarrow> int \<Rightarrow> string outcome" where
  "compactText text maxLen =
     (let cleaned = strings_Join (strings_Fields (strings_TrimSpace text)) '' ''
      in if int (length cleaned) \<le> maxLen then Returns cleaned
         else if maxLen < 0 then Panics ''slice bounds out of range''
         else if maxLen < 4 then Returns (take (nat maxLen) cleaned)
         else Returns (take (nat (maxLen - 3)) cleaned @ ''...''))"

section \<open>Requests\<close>

record InvocationSpec =
  isMethod :: string
  isPath :: string
  isBody :: bytes
  isHeaders :: "(string, string) fmap"

definition bytesOf :: "string \<Rightarrow> bytes" where
  "bytesOf s = map (\<lambda>c. of_nat (of_char c)) s"

definition ensureMethod :: "string \<Rightarrow> string" where
  "ensureMethod meth = (if meth = [] then ''GET'' else meth)"

text \<open>A nil map reads as an empty one.\<close>

definition makeRequest :: "string \<Rightarrow> string \<Rightarrow> string \<Rightarrow> (string, string) fmap \<Rightarrow> InvocationSpec" where
  "makeRequest meth path b headers = \<lparr>isMethod = meth, isPath = path, isBody = bytesOf b, isHeaders = headers\<rparr>"

definition withStandardHeaders :: "(string, string) fmap \<Rightarrow> (string, string) fmap" where
  "withStandardHeaders headers = fmupd ''X-Servermore-Tester'' ''true'' headers"

definition defaultSuggestedName :: "string \<Rightarrow> string" where
  "defaultSuggestedName binaryName = binaryName @ ''-demo''"

definition fmt03d :: "int \<Rightarrow> string" where
  "fmt03d n = (let d = strconv_FormatInt n in replicate (3 - length d) CHR ''0'' @ d)"

datatype Requester = helloRequester | routesRequester | echoRequester | externalRequester | counterRequester

definition catalog :: "Requester list" where
  "catalog = [helloRequester, routesRequester, echoRequester, externalRequester, counterRequester]"

fun BinaryName :: "Requester \<Rightarrow> string" where
  "BinaryName helloRequester = ''hello''"
| "BinaryName routesRequester = ''routes''"
| "BinaryName echoRequester = ''echo''"
| "BinaryName externalRequester = ''external''"
| "BinaryName counterRequester = ''counter''"

definition SuggestedName :: "Requester \<Rightarrow> string" where
  "SuggestedName r = defaultSuggestedName (BinaryName r)"

abbreviation standardGet :: "string \<Rightarrow> InvocationSpec" where
  "standardGet path \<equiv> makeRequest ''GET'' path [] (withStandardHeaders fmempty)"

abbreviation textHeaders :: "(string, string) fmap" where
  "textHeaders \<equiv> withStandardHeaders (fmupd ''Content-Type'' ''text/plain'' fmempty)"

definition helloNext :: InvocationSpec where
  "helloNext = standardGet ''/''"

definition counterNext :: "(int \<Rightarrow> 'g \<Rightarrow> int \<times> 'g) \<Rightarrow> 'g \<Rightarrow> InvocationSpec \<times> 'g" where
  "counterNext intn g =
     (let (k, g1) = intn 10 g
      in (if k = 0 then standardGet ''/reset''
          else if k = 1 \<or> k = 2 then standardGet ''/peek''
          else if k = 3 then standardGet ''/slow''
          else standardGet ''/count'', g1))"

definition echoNext :: "(int \<Rightarrow> 'g \<Rightarrow> int \<times> 'g) \<Rightarrow> 'g \<Rightarrow> InvocationSpec \<times> 'g" where
  "echoNext intn g =
     (let (k, g1) = intn 4 g
      in if k = 0 then (makeRequest ''GET'' ''/'' [] textHeaders, g1)
         else let (n, g2) = intn 1000 g1
              in if k = 1 then (makeRequest ''POST'' ''/inspect'' (''inspect-'' @ fmt03d n) textHeaders, g2)
                 else if k = 2
                 then (makeRequest ''GET'' ''/headers'' [] (fmupd ''X-Echo-Trace'' (''trace-'' @ fmt03d n) textHeaders), g2)
                 else (makeRequest ''PUT'' ''/body'' (''body-'' @ fmt03d n) textHeaders, g2))"

definition externalNext :: "(int \<Rightarrow> 'g \<Rightarrow> int \<times> 'g) \<Rightarrow> 'g \<Rightarrow> InvocationSpec \<times> 'g" where
  "externalNext intn g =
     (let (k, g1) = intn 4 g in (if k = 0 then standardGet ''/health'' else standardGet ''/todo'', g1))"

definition routesNext :: "(int \<Rightarrow> 'g \<Rightarrow> int \<times> 'g) \<Rightarrow> 'g \<Rightarrow> InvocationSpec \<times> 'g" where
  "routesNext intn g =
     (let (k, g1) = intn 6 g
      in if k = 0 then (standardGet ''/'', g1)
         else if k = 1
         then let (n, g2) = intn 1000 g1; (b, g3) = intn 8 g2
              in (makeRequest ''POST'' (''/echo?batch='' @ strconv_FormatInt (b + 1)) (''routes-echo-'' @ fmt03d n) textHeaders, g3)
         else if k = 2 then (standardGet ''/sleep'', g1)
         else if k = 3
         then let (a, g2) = intn 50 g1; (b, g3) = intn 50 g2
              in (standardGet (''/math/add?a='' @ strconv_FormatInt a @ ''&b='' @ strconv_FormatInt b), g3)
         else if k = 4
         then let (a, g2) = intn 12 g1; (b, g3) = intn 12 g2
              in (standardGet (''/math/mul?a='' @ strconv_FormatInt (a + 1) @ ''&b='' @ strconv_FormatInt (b + 1)), g3)
         else (standardGet ''/status/teapot'', g1))"

fun NextInvocation :: "(int \<Rightarrow> 'g \<Rightarrow> int \<times> 'g) \<Rightarrow> Requester \<Rightarrow> 'g \<Rightarrow> InvocationSpec \<times> 'g" where
  "NextInvocation intn helloRequester g = (helloNext, g)"
| "NextInvocation intn routesRequester g = routesNext intn g"
| "NextInvocation intn echoRequester g = echoNext intn g"
| "NextInvocation intn externalRequester g = externalNext intn g"
| "NextInvocation intn counterRequester g = counterNext intn g"

section \<open>Sending\<close>

definition gatewayURL :: string where
  "gatewayURL = ''http://127.0.0.1:8080''"

definition strings_TrimRightSlash :: "string \<Rightarrow> string" where
  "strings_TrimRightSlash s = rev (dropWhile (\<lambda>c. c = slash) (rev s))"

record OutRequest =
  orMethod :: string
  orURL :: string
  orBody :: bytes
  orHeader :: "(string, string) fmap"

text \<open>\<open>newRequestErr\<close> is what \<open>NewRequestWithContext\<close> objects to, \<open>doReq\<close> the client: an error, or the status
  and the reader of the body.\<close>

record SendEnv =
  newRequestErr :: "OutRequest \<Rightarrow> goerr option"
  doReq :: "OutRequest \<Rightarrow> (int \<times> (bytes \<times> goerr option)) res"
  specHeaderOrder :: iterorder

definition invocationRequest :: "iterorder \<Rightarrow> string \<Rightarrow> InvocationSpec \<Rightarrow> OutRequest" where
  "invocationRequest ord functionID spec =
     (let path = (if strings_HasPrefix (isPath spec) [slash] then isPath spec else slash # isPath spec)
      in \<lparr>orMethod = ensureMethod (isMethod spec),
          orURL = strings_TrimRightSlash gatewayURL @ [slash] @ functionID @ path,
          orBody = isBody spec,
          orHeader = fmupd ''User-Agent'' ''servermore-tester''
            (fold (\<lambda>k. fmupd (canonicalHeaderKey k) (fmget [] (isHeaders spec) k)) (ord (fmdom (isHeaders spec))) fmempty)\<rparr>)"

text \<open>\<open>io.ReadAll\<close> of \<open>io.LimitReader\<close>: an error behind the limit is not seen.\<close>

definition readUpTo :: "nat \<Rightarrow> bytes \<times> goerr option \<Rightarrow> bytes res" where
  "readUpTo n rd =
     (if n \<le> length (fst rd) then Inr (take n (fst rd))
      else case snd rd of Some e \<Rightarrow> Inl e | None \<Rightarrow> Inr (fst rd))"

definition invokeFunction :: "SendEnv \<Rightarrow> string \<Rightarrow> InvocationSpec \<Rightarrow> (int \<times> bytes) res" where
  "invokeFunction env functionID spec =
     (let req = invocationRequest (specHeaderOrder env) functionID spec;
          path = (if strings_HasPrefix (isPath spec) [slash] then isPath spec else slash # isPath spec)
      in case newRequestErr env req of
           Some err \<Rightarrow> Inl (wrapf ''build gateway request: %w'' [] err)
         | None \<Rightarrow>
             (case doReq env req of
                Inl err \<Rightarrow> Inl (wrapf ''invoke %s %s: %w'' [orMethod req, path] err)
              | Inr (code, reader) \<Rightarrow>
                  (case readUpTo 4096 reader of
                     Inl err \<Rightarrow> Inl (wrapf ''read response body: %w'' [] err)
                   | Inr bs \<Rightarrow> Inr (code, bs))))"

section \<open>Deploying\<close>

definition commanderURL :: string where
  "commanderURL = ''http://127.0.0.1:42069''"

text \<open>The multipart body is its two parts: the field \<open>name\<close> and the file \<open>binary\<close> with its name.\<close>

record DeployRequest =
  dqURL :: string
  dqName :: string
  dqFilename :: string
  dqBinary :: bytes

record DeployAnswer =
  daStatusCode :: int
  daStatus :: string
  daBody :: "bytes \<times> goerr option"

text \<open>\<open>writerErr\<close> has the errors of the multipart writer for the name, the file part, its bytes and the end.\<close>

record DeployEnv =
  readFile :: "string \<Rightarrow> bytes res"
  nameErr :: "goerr option"
  partErr :: "goerr option"
  payloadErr :: "goerr option"
  closeErr :: "goerr option"
  buildErr :: "goerr option"
  upload :: "DeployRequest \<Rightarrow> DeployAnswer res"
  decodeCreated :: "bytes \<times> goerr option \<Rightarrow> (int \<times> string) res"

definition stringOf :: "bytes \<Rightarrow> string" where
  "stringOf bs = map (\<lambda>b. char_of (unat b)) bs"

text \<open>The bytes that could be read before an error, at most \<open>n\<close>.\<close>

definition readPrefix :: "nat \<Rightarrow> bytes \<times> goerr option \<Rightarrow> bytes" where
  "readPrefix n rd = take n (fst rd)"

definition firstErr :: "(string \<times> goerr option) list \<Rightarrow> goerr option" where
  "firstErr es = (case filter (\<lambda>(_, e). e \<noteq> None) es of [] \<Rightarrow> None | (msg, e) # _ \<Rightarrow> Some (wrapf msg [] (the e)))"

definition deployFunction :: "DeployEnv \<Rightarrow> string \<Rightarrow> string \<Rightarrow> string res outcome" where
  "deployFunction env binaryPath name =
     (case readFile env binaryPath of
        Inl err \<Rightarrow> Returns (Inl (wrapf ''read compiled binary %q: %w'' [binaryPath] err))
      | Inr binaryBytes \<Rightarrow>
          (case firstErr [(''write multipart name: %w'', nameErr env), (''create multipart binary field: %w'', partErr env),
                  (''write binary payload: %w'', payloadErr env), (''close multipart writer: %w'', closeErr env),
                  (''build deploy request: %w'', buildErr env)] of
             Some err \<Rightarrow> Returns (Inl err)
           | None \<Rightarrow>
               (case upload env \<lparr>dqURL = commanderURL @ ''/functions'', dqName = name,
                        dqFilename = filepath_Base binaryPath, dqBinary = binaryBytes\<rparr> of
                  Inl err \<Rightarrow> Returns (Inl (wrapf ''upload function: %w'' [] err))
                | Inr resp \<Rightarrow>
                    (if daStatusCode resp \<noteq> 201
                     then (case compactText (stringOf (readPrefix 4096 (daBody resp))) 180 of
                             Panics msg \<Rightarrow> Panics msg
                           | Returns t \<Rightarrow> Returns (Inl (Errorf ''deploy failed with %s: %s'' [daStatus resp, t] None)))
                     else (case decodeCreated env (daBody resp) of
                             Inl err \<Rightarrow> Returns (Inl (wrapf ''decode deploy response: %w'' [] err))
                           | Inr (i, _) \<Rightarrow>
                               Returns (if i = 0 then Inl (Errorf ''commander returned an empty function id'' [] None)
                                else Inr (strconv_FormatInt i)))))))"

section \<open>Laws\<close>

lemma compactText_bound:
  assumes "0 \<le> maxLen"
  shows "\<exists>t. compactText text maxLen = Returns t \<and> int (length t) \<le> maxLen"
  using assms by (auto simp: compactText_def Let_def)

text \<open>A decimal number has digits only, and a sign in front of a negative one.\<close>

lemma formatNat_digits: "0 \<le> n \<Longrightarrow> set (formatNat n) \<subseteq> digit_char ` {0..9}"
proof (induction n rule: formatNat.induct)
  case (1 n)
  then show ?case
  proof (cases "n < 10")
    case True
    with 1 show ?thesis by (auto simp: formatNat.simps[of n])
  next
    case False
    then have "n mod 10 \<in> {0..9}" by simp
    with False 1 show ?thesis by (auto simp: formatNat.simps[of n])
  qed
qed

lemma FormatInt_chars:
  assumes "0 \<le> i" and "c \<in> set (strconv_FormatInt i)"
  shows "48 \<le> (of_char c :: int) \<and> of_char c \<le> (57 :: int)"
proof -
  have "c \<in> digit_char ` {0..9}" using formatNat_digits[OF assms(1)] assms by (auto simp: strconv_FormatInt_def)
  then obtain d :: int where d: "0 \<le> d" "d \<le> 9" "c = digit_char d" by auto
  have "of_char (char_of (48 + d) :: char) = (48 + d) mod 256" by (simp add: of_char_of)
  also have "\<dots> = 48 + d" using d by simp
  finally show ?thesis using d by (simp add: digit_char_def)
qed

lemma FormatInt_ne: "strconv_FormatInt i \<noteq> []"
  by (simp add: strconv_FormatInt_def formatNat.simps[of i])

text \<open>The routes that the test functions answer (\<open>test/functions\<close>).\<close>

fun servedRoutes :: "Requester \<Rightarrow> string list" where
  "servedRoutes helloRequester = [''/'']"
| "servedRoutes routesRequester = [''/'', ''/echo'', ''/sleep'', ''/math/add'', ''/math/mul'', ''/status/teapot'']"
| "servedRoutes echoRequester = [''/'', ''/inspect'', ''/headers'', ''/body'']"
| "servedRoutes externalRequester = [''/'', ''/todo'', ''/health'']"
| "servedRoutes counterRequester = [''/'', ''/count'', ''/peek'', ''/reset'', ''/slow'']"

text \<open>The path of a URL without escapes, as a server sees it: what follows the host up to the query.\<close>

definition pathPart :: "string \<Rightarrow> string" where
  "pathPart p = takeWhile (\<lambda>c. c \<noteq> CHR ''?'') p"

lemma NextInvocation_shape:
  assumes "NextInvocation intn r g = (spec, g')"
  shows "pathPart (isPath spec) \<in> set (servedRoutes r) \<and> (\<exists>p. isPath spec = slash # p) \<and>
    isMethod spec \<in> {''GET'', ''POST'', ''PUT''} \<and> fmlookup (isHeaders spec) ''X-Servermore-Tester'' = Some ''true''"
  using assms
  by (cases r) (auto simp: helloNext_def routesNext_def echoNext_def externalNext_def counterNext_def makeRequest_def
      withStandardHeaders_def pathPart_def slash_def Let_def split: prod.splits if_splits)

end
