(* ===== verification/TesterWorker.thy ===== *)
theory TesterWorker
  imports TesterRequests
begin

text \<open>
  The worker of a deployed function (\<open>servermore-tester/worker.go\<close>): the state of a deployment behind its
  lock, and the loop that sends batches of requests until its context is cancelled.

  Every method holds the lock of the deployment, so each is one atomic function on its state. The loop is
  a step relation: one step of the worker is one access to shared state, and between two of them the user
  changes settings, requests return, and the context may be cancelled. Times are nanoseconds; settings
  are moved by one at a time and stay far below the width of an \<open>int\<close>.
\<close>

section \<open>The deployment\<close>

record RequestSettings =
  BatchSize :: int
  RequestsPerSecond :: int
  DelayBetweenBatches :: int

record RunStats =
  RequestsSent :: int
  ResponsesReceived :: int
  TransportErrors :: int
  BatchesCompleted :: int
  LastStatusCode :: int
  LastMethod :: string
  LastPath :: string
  LastDuration :: int
  LastResponse :: string
  LastError :: string
  LastUpdatedAt :: int

record deploymentState =
  depName :: string
  functionID :: string
  settings :: RequestSettings
  depStats :: RunStats
  depCancelled :: bool
  enabled :: bool

definition zeroStats :: RunStats where
  "zeroStats =
     \<lparr>RequestsSent = 0, ResponsesReceived = 0, TransportErrors = 0, BatchesCompleted = 0, LastStatusCode = 0,
      LastMethod = [], LastPath = [], LastDuration = 0, LastResponse = [], LastError = [], LastUpdatedAt = 0\<rparr>"

definition newDeploymentState :: "string \<Rightarrow> string \<Rightarrow> deploymentState" where
  "newDeploymentState name fid =
     \<lparr>depName = name, functionID = fid,
      settings = \<lparr>BatchSize = 3, RequestsPerSecond = 2, DelayBetweenBatches = 2\<rparr>,
      depStats = zeroStats, depCancelled = False, enabled = True\<rparr>"

record DeploymentSnapshot =
  snName :: string
  snFunctionID :: string
  snEnabled :: bool
  snSettings :: RequestSettings
  snStats :: RunStats

definition Snapshot :: "deploymentState \<Rightarrow> DeploymentSnapshot" where
  "Snapshot d =
     \<lparr>snName = depName d, snFunctionID = functionID d, snEnabled = enabled d, snSettings = settings d,
      snStats = depStats d\<rparr>"

definition maxInt :: "int \<Rightarrow> int \<Rightarrow> int" where
  "maxInt a b = (if a > b then a else b)"

definition AdjustSetting :: "int \<Rightarrow> int \<Rightarrow> deploymentState \<Rightarrow> deploymentState" where
  "AdjustSetting fieldIndex delta d =
     (let s = settings d
      in d\<lparr>settings :=
           (if fieldIndex = 0 then s\<lparr>BatchSize := maxInt 0 (BatchSize s + delta)\<rparr>
            else if fieldIndex = 1 then s\<lparr>RequestsPerSecond := maxInt 0 (RequestsPerSecond s + delta)\<rparr>
            else if fieldIndex = 2 then s\<lparr>DelayBetweenBatches := maxInt 0 (DelayBetweenBatches s + delta)\<rparr>
            else s)\<rparr>)"

definition ToggleEnabled :: "deploymentState \<Rightarrow> deploymentState \<times> bool" where
  "ToggleEnabled d = (d\<lparr>enabled := \<not> enabled d\<rparr>, \<not> enabled d)"

definition RecordRequestStarted :: "int \<Rightarrow> deploymentState \<Rightarrow> deploymentState" where
  "RecordRequestStarted now d =
     d\<lparr>depStats := (depStats d)\<lparr>RequestsSent := RequestsSent (depStats d) + 1, LastUpdatedAt := now\<rparr>\<rparr>"

text \<open>\<open>compactText\<close> with a length that is not negative.\<close>

definition compacted :: "string \<Rightarrow> nat \<Rightarrow> string" where
  "compacted t n = (case compactText t (int n) of Returns x \<Rightarrow> x | Panics _ \<Rightarrow> [])"

text \<open>\<open>errorString\<close> is the method \<open>Error\<close> of an error.\<close>

definition RecordRequest ::
  "(goerr \<Rightarrow> string) \<Rightarrow> int \<Rightarrow> InvocationSpec \<Rightarrow> (int \<times> bytes) res \<Rightarrow> int \<Rightarrow> deploymentState \<Rightarrow> deploymentState" where
  "RecordRequest errorString now spec res took d =
     (let st = (depStats d)\<lparr>LastMethod := ensureMethod (isMethod spec), LastPath := isPath spec,
                 LastDuration := took, LastUpdatedAt := now\<rparr>
      in case res of
           Inl err \<Rightarrow>
             d\<lparr>depStats := st\<lparr>TransportErrors := TransportErrors st + 1, LastError := compacted (errorString err) 140,
                LastStatusCode := 0, LastResponse := []\<rparr>\<rparr>
         | Inr (code, resp) \<Rightarrow>
             d\<lparr>depStats := st\<lparr>ResponsesReceived := ResponsesReceived st + 1, LastStatusCode := code, LastError := [],
                LastResponse := compacted (stringOf resp) 140\<rparr>\<rparr>)"

definition RecordBatchCompletion :: "int \<Rightarrow> deploymentState \<Rightarrow> deploymentState" where
  "RecordBatchCompletion now d =
     d\<lparr>depStats := (depStats d)\<lparr>BatchesCompleted := BatchesCompleted (depStats d) + 1, LastUpdatedAt := now\<rparr>\<rparr>"

definition stopDeployment :: "deploymentState \<Rightarrow> deploymentState" where
  "stopDeployment d = d\<lparr>depCancelled := True\<rparr>"

section \<open>The loop\<close>

definition second :: int where
  "second = 1000000000"

text \<open>Where the worker is. The number is \<open>sentInBatch\<close>; a sleep carries its length and where it goes on.\<close>

datatype LoopPc =
    LTop
  | LSettings
  | LBatch int
  | LSend int
  | LSent int
  | LEnd int
  | LDelay
  | LSleep int LoopPc
  | LReturned

text \<open>\<open>sleepWithContext\<close> does not wait at all when the length is not positive.\<close>

definition sleepThen :: "int \<Rightarrow> LoopPc \<Rightarrow> LoopPc" where
  "sleepThen duration next = (if duration \<le> 0 then next else LSleep duration next)"

definition cannotSend :: "RequestSettings \<Rightarrow> bool" where
  "cannotSend s \<longleftrightarrow> BatchSize s \<le> 0 \<or> RequestsPerSecond s \<le> 0"

text \<open>The deployment, the generator of the requester, the requests whose goroutines have not yet recorded
  a result, and the time the worker has slept.\<close>

record 'g TW =
  dep :: deploymentState
  pc :: LoopPc
  gen :: 'g
  flights :: "InvocationSpec list"
  slept :: int

text \<open>One step of the worker that is not a sleep.\<close>

definition loopStep :: "(int \<Rightarrow> 'g \<Rightarrow> int \<times> 'g) \<Rightarrow> Requester \<Rightarrow> int \<Rightarrow> 'g TW \<Rightarrow> 'g TW option" where
  "loopStep intn r now s =
     (let st = settings (dep s)
      in case pc s of
           LTop \<Rightarrow> Some (s\<lparr>pc := if enabled (dep s) then LSettings else sleepThen (second div 4) LTop\<rparr>)
         | LSettings \<Rightarrow> Some (s\<lparr>pc := if cannotSend st then sleepThen (second div 4) LTop else LBatch 0\<rparr>)
         | LBatch k \<Rightarrow> Some (s\<lparr>pc := if cannotSend st \<or> BatchSize st \<le> k then LEnd k else LSend k\<rparr>)
         | LSend k \<Rightarrow>
             (let (spec, g) = NextInvocation intn r (gen s)
              in Some (s\<lparr>dep := RecordRequestStarted now (dep s), gen := g, flights := flights s @ [spec], pc := LSent (k + 1)\<rparr>))
         | LSent k \<Rightarrow>
             Some (s\<lparr>pc := if cannotSend st \<or> BatchSize st \<le> k then LBatch k
                          else sleepThen (second div maxInt 1 (RequestsPerSecond st)) (LBatch k)\<rparr>)
         | LEnd k \<Rightarrow> Some (s\<lparr>dep := if k > 0 then RecordBatchCompletion now (dep s) else dep s, pc := LDelay\<rparr>)
         | LDelay \<Rightarrow> Some (s\<lparr>pc := sleepThen (DelayBetweenBatches st * second) LTop\<rparr>)
         | LSleep _ _ \<Rightarrow> None
         | LReturned \<Rightarrow> None)"

text \<open>What can happen: a step of the worker, the timer of its sleep, the sleep seeing the end of the
  context, keys of the user, the end of the context, and the return of a request.\<close>

datatype TLabel =
    Work int
  | Wake
  | SeeDone
  | Adjust int int
  | Toggle
  | CancelWorker
  | Completes nat "(int \<times> bytes) res" int int

definition tstep :: "(int \<Rightarrow> 'g \<Rightarrow> int \<times> 'g) \<Rightarrow> (goerr \<Rightarrow> string) \<Rightarrow> Requester \<Rightarrow> TLabel \<Rightarrow> 'g TW \<Rightarrow> 'g TW option" where
  "tstep intn errorString r l s =
     (case l of
        Work now \<Rightarrow> loopStep intn r now s
      | Wake \<Rightarrow> (case pc s of LSleep d next \<Rightarrow> Some (s\<lparr>pc := next, slept := slept s + d\<rparr>) | _ \<Rightarrow> None)
      | SeeDone \<Rightarrow>
          (case pc s of LSleep _ _ \<Rightarrow> if depCancelled (dep s) then Some (s\<lparr>pc := LReturned\<rparr>) else None | _ \<Rightarrow> None)
      | Adjust f d \<Rightarrow> Some (s\<lparr>dep := AdjustSetting f d (dep s)\<rparr>)
      | Toggle \<Rightarrow> Some (s\<lparr>dep := fst (ToggleEnabled (dep s))\<rparr>)
      | CancelWorker \<Rightarrow> Some (s\<lparr>dep := stopDeployment (dep s)\<rparr>)
      | Completes i res took now \<Rightarrow>
          (if i < length (flights s)
           then Some (s\<lparr>dep := RecordRequest errorString now (flights s ! i) res took (dep s),
                       flights := take i (flights s) @ drop (Suc i) (flights s)\<rparr>)
           else None))"

definition startWorker :: "deploymentState \<Rightarrow> 'g \<Rightarrow> 'g TW" where
  "startWorker d g = \<lparr>dep = d, pc = LTop, gen = g, flights = [], slept = 0\<rparr>"

inductive treach :: "(int \<Rightarrow> 'g \<Rightarrow> int \<times> 'g) \<Rightarrow> (goerr \<Rightarrow> string) \<Rightarrow> Requester \<Rightarrow> 'g TW \<Rightarrow> bool"
  for intn errorString r where
  start: "treach intn errorString r (startWorker (newDeploymentState name fid) g)"
| step: "treach intn errorString r s \<Longrightarrow> tstep intn errorString r l s = Some t \<Longrightarrow> treach intn errorString r t"

section \<open>Accounting\<close>

fun pending :: "LoopPc \<Rightarrow> int" where
  "pending (LBatch k) = k"
| "pending (LSend k) = k"
| "pending (LSent k) = k"
| "pending (LEnd k) = k"
| "pending (LSleep d next) = pending next"
| "pending _ = 0"

definition settings_ok :: "RequestSettings \<Rightarrow> bool" where
  "settings_ok st \<longleftrightarrow> 0 \<le> BatchSize st \<and> 0 \<le> RequestsPerSecond st \<and> 0 \<le> DelayBetweenBatches st"

definition account_inv :: "'g TW \<Rightarrow> bool" where
  "account_inv s \<longleftrightarrow>
     (let d = depStats (dep s)
      in RequestsSent d = ResponsesReceived d + TransportErrors d + int (length (flights s)) \<and>
         0 \<le> pending (pc s) \<and> BatchesCompleted d + pending (pc s) \<le> RequestsSent d) \<and>
     settings_ok (settings (dep s))"

lemma pending_sleepThen [simp]: "pending (sleepThen d next) = pending next"
  by (simp add: sleepThen_def)

lemmas record_defs = RecordRequestStarted_def RecordRequest_def RecordBatchCompletion_def stopDeployment_def
  ToggleEnabled_def AdjustSetting_def

lemma AdjustSetting_ok: "settings_ok (settings d) \<Longrightarrow> settings_ok (settings (AdjustSetting f n d))"
  by (simp add: AdjustSetting_def settings_ok_def maxInt_def Let_def)

lemma loopStep_account:
  assumes "account_inv s" and "loopStep intn r now s = Some t"
  shows "account_inv t"
  using assms
  by (cases "pc s") (auto simp: loopStep_def account_inv_def record_defs Let_def split: prod.splits if_splits)

lemma tstep_account:
  assumes "account_inv s" and "tstep intn errorString r l s = Some t"
  shows "account_inv t"
proof (cases l)
  case (Work now)
  with assms loopStep_account show ?thesis by (simp add: tstep_def) blast
next
  case (Adjust f n)
  with assms show ?thesis using AdjustSetting_ok[of "dep s" f n]
    by (auto simp: tstep_def account_inv_def Let_def) (simp_all add: AdjustSetting_def Let_def)
next
  case (Completes i res took now)
  with assms show ?thesis
    by (auto simp: tstep_def account_inv_def record_defs Let_def split: if_splits sum.splits)
qed (use assms in \<open>auto simp: tstep_def account_inv_def record_defs Let_def split: LoopPc.splits if_splits\<close>)

lemma treach_account: "treach intn errorString r s \<Longrightarrow> account_inv s"
proof (induction rule: treach.induct)
  case (start name fid g)
  then show ?case
    by (simp add: account_inv_def startWorker_def newDeploymentState_def zeroStats_def settings_ok_def)
qed (rule tstep_account)

text \<open>
  C33: The statistics of the load tester add up. However the worker, the user and the returning requests
  interleave, every request that was counted as sent is in flight or was counted once as a response or
  as a transport error; a batch is counted only when it has sent something; and no setting becomes
  negative.
\<close>

theorem tester_statistics_add_up:
  assumes "treach intn errorString r s"
  shows "RequestsSent (depStats (dep s)) =
      ResponsesReceived (depStats (dep s)) + TransportErrors (depStats (dep s)) + int (length (flights s)) \<and>
    BatchesCompleted (depStats (dep s)) \<le> RequestsSent (depStats (dep s)) \<and> settings_ok (settings (dep s))"
  using treach_account[OF assms] by (simp add: account_inv_def Let_def)

theorem tester_statistics_add_up_witness:
  "RequestsSent (depStats (dep (startWorker (newDeploymentState ''f'' ''7'') (0 :: int)))) =
     ResponsesReceived (depStats (dep (startWorker (newDeploymentState ''f'' ''7'') (0 :: int)))) +
     TransportErrors (depStats (dep (startWorker (newDeploymentState ''f'' ''7'') (0 :: int)))) +
     int (length (flights (startWorker (newDeploymentState ''f'' ''7'') (0 :: int))))"
  using tester_statistics_add_up[OF treach.start[where intn = "\<lambda>m g. (g mod m, g + 1)" and errorString = "\<lambda>_. []"
      and r = helloRequester and name = "''f''" and fid = "''7''" and g = 0]] by blast

section \<open>A batch\<close>

text \<open>The worker left alone: its sleeps end by their timers.\<close>

definition autoStep :: "(int \<Rightarrow> 'g \<Rightarrow> int \<times> 'g) \<Rightarrow> Requester \<Rightarrow> int \<Rightarrow> 'g TW \<Rightarrow> 'g TW" where
  "autoStep intn r now s =
     (case loopStep intn r now s of
        Some t \<Rightarrow> t
      | None \<Rightarrow> (case pc s of LSleep d next \<Rightarrow> s\<lparr>pc := next, slept := slept s + d\<rparr> | _ \<Rightarrow> s))"

text \<open>The worker after the end of its context: its sleeps end at once and it returns.\<close>

definition quitStep :: "(int \<Rightarrow> 'g \<Rightarrow> int \<times> 'g) \<Rightarrow> Requester \<Rightarrow> int \<Rightarrow> 'g TW \<Rightarrow> 'g TW" where
  "quitStep intn r now s =
     (case loopStep intn r now s of
        Some t \<Rightarrow> t
      | None \<Rightarrow> (case pc s of LSleep d next \<Rightarrow> s\<lparr>pc := LReturned\<rparr> | _ \<Rightarrow> s))"

definition leadsTo :: "('s \<Rightarrow> 's) \<Rightarrow> 's \<Rightarrow> 's \<Rightarrow> bool" where
  "leadsTo f s t \<longleftrightarrow> (\<exists>n. (f ^^ n) s = t)"

lemma leadsTo_refl: "leadsTo f s s"
  unfolding leadsTo_def by (metis funpow_0)

lemma leadsTo_step: "leadsTo f (f s) t \<Longrightarrow> leadsTo f s t"
  unfolding leadsTo_def by (metis funpow_simps_right(2) comp_apply)

lemma leadsTo_trans: "leadsTo f s t \<Longrightarrow> leadsTo f t u \<Longrightarrow> leadsTo f s u"
  unfolding leadsTo_def by (metis funpow_add comp_apply)

text \<open>What a step of either kind does at each place.\<close>

lemma auto_simps:
  "pc s = LTop \<Longrightarrow> enabled (dep s) \<Longrightarrow> autoStep intn r now s = s\<lparr>pc := LSettings\<rparr>"
  "pc s = LSettings \<Longrightarrow> \<not> cannotSend (settings (dep s)) \<Longrightarrow> autoStep intn r now s = s\<lparr>pc := LBatch 0\<rparr>"
  "pc s = LBatch k \<Longrightarrow> \<not> cannotSend (settings (dep s)) \<Longrightarrow>
     autoStep intn r now s = s\<lparr>pc := if BatchSize (settings (dep s)) \<le> k then LEnd k else LSend k\<rparr>"
  "pc s = LSend k \<Longrightarrow> autoStep intn r now s =
     s\<lparr>dep := RecordRequestStarted now (dep s), gen := snd (NextInvocation intn r (gen s)),
       flights := flights s @ [fst (NextInvocation intn r (gen s))], pc := LSent (k + 1)\<rparr>"
  "pc s = LSent k \<Longrightarrow> \<not> cannotSend (settings (dep s)) \<Longrightarrow>
     autoStep intn r now s = s\<lparr>pc := if BatchSize (settings (dep s)) \<le> k then LBatch k
       else sleepThen (second div RequestsPerSecond (settings (dep s))) (LBatch k)\<rparr>"
  "pc s = LEnd k \<Longrightarrow> 0 < k \<Longrightarrow> autoStep intn r now s = s\<lparr>dep := RecordBatchCompletion now (dep s), pc := LDelay\<rparr>"
  "pc s = LDelay \<Longrightarrow> autoStep intn r now s = s\<lparr>pc := sleepThen (DelayBetweenBatches (settings (dep s)) * second) LTop\<rparr>"
  "pc s = LSleep d next \<Longrightarrow> autoStep intn r now s = s\<lparr>pc := next, slept := slept s + d\<rparr>"
  by (auto simp: autoStep_def loopStep_def cannotSend_def maxInt_def Let_def split: prod.splits)

text \<open>From one state of the worker to a later one: requests sent, batches completed, time slept.\<close>

definition moved :: "'g TW \<Rightarrow> int \<Rightarrow> int \<Rightarrow> int \<Rightarrow> 'g TW \<Rightarrow> bool" where
  "moved s n b w t \<longleftrightarrow>
     settings (dep t) = settings (dep s) \<and> enabled (dep t) = enabled (dep s) \<and>
     RequestsSent (depStats (dep t)) = RequestsSent (depStats (dep s)) + n \<and>
     BatchesCompleted (depStats (dep t)) = BatchesCompleted (depStats (dep s)) + b \<and> slept t = slept s + w"

lemma moved_trans: "moved s n b w t \<Longrightarrow> moved t n' b' w' u \<Longrightarrow> moved s (n + n') (b + b') (w + w') u"
  by (simp add: moved_def)

lemma auto_sleep:
  assumes "pc s = sleepThen d next" and "0 \<le> d"
  shows "\<exists>t. leadsTo (autoStep intn r now) s t \<and> pc t = next \<and> moved s 0 0 d t"
proof (cases "d = 0")
  case True
  with assms(1) show ?thesis using leadsTo_refl[of "autoStep intn r now" s]
    by (intro exI[of _ s]) (simp add: sleepThen_def moved_def)
next
  case False
  then have "autoStep intn r now s = s\<lparr>pc := next, slept := slept s + d\<rparr>"
    using assms by (intro auto_simps(8)) (simp add: sleepThen_def)
  then have "leadsTo (autoStep intn r now) s (s\<lparr>pc := next, slept := slept s + d\<rparr>)"
    using leadsTo_step[OF leadsTo_refl, of "autoStep intn r now" s] by simp
  then show ?thesis by (intro exI[of _ "s\<lparr>pc := next, slept := slept s + d\<rparr>"]) (simp add: moved_def)
qed

text \<open>One request of a batch.\<close>

lemma auto_one:
  assumes "pc s = LBatch k" and "k < BatchSize (settings (dep s))" and "\<not> cannotSend (settings (dep s))"
  shows "\<exists>t. leadsTo (autoStep intn r now) s t \<and> pc t = LBatch (k + 1) \<and>
    moved s 1 0 (if k + 1 < BatchSize (settings (dep s)) then second div RequestsPerSecond (settings (dep s)) else 0) t"
proof -
  let ?st = "settings (dep s)"
  let ?w = "if k + 1 < BatchSize ?st then second div RequestsPerSecond ?st else 0"
  let ?s1 = "s\<lparr>pc := LSend k\<rparr>"
  let ?s2 = "autoStep intn r now ?s1"
  let ?s3 = "autoStep intn r now ?s2"
  have 1: "autoStep intn r now s = ?s1" using auto_simps(3)[OF assms(1,3)] assms(2) by simp
  have 2: "pc ?s2 = LSent (k + 1)" "moved s 1 0 0 ?s2" "settings (dep ?s2) = ?st"
    by (simp_all add: auto_simps(4) moved_def RecordRequestStarted_def)
  have 3: "pc ?s3 = sleepThen ?w (LBatch (k + 1))" "moved s 1 0 0 ?s3"
    using auto_simps(5)[OF 2(1), of intn r now] 2 assms(3) by (auto simp: moved_def sleepThen_def)
  have w: "0 \<le> ?w" using assms(3) by (simp add: second_def cannotSend_def pos_imp_zdiv_nonneg_iff)
  obtain t where t: "leadsTo (autoStep intn r now) ?s3 t" "pc t = LBatch (k + 1)" "moved ?s3 0 0 ?w t"
    using auto_sleep[OF 3(1) w] by blast
  have "leadsTo (autoStep intn r now) ?s1 t" by (rule leadsTo_step[OF leadsTo_step[OF t(1)]])
  then have "leadsTo (autoStep intn r now) s t" using leadsTo_step[of "autoStep intn r now" s t] 1 by simp
  with t(2) moved_trans[OF 3(2) t(3)] show ?thesis by auto
qed

lemma auto_inner:
  assumes "pc s = LBatch k" and "k \<le> BatchSize (settings (dep s))" and "\<not> cannotSend (settings (dep s))"
  shows "\<exists>t. leadsTo (autoStep intn r now) s t \<and> pc t = LEnd (BatchSize (settings (dep s))) \<and>
    moved s (BatchSize (settings (dep s)) - k) 0
      (max 0 (BatchSize (settings (dep s)) - 1 - k) * (second div RequestsPerSecond (settings (dep s)))) t"
  using assms
proof (induction "nat (BatchSize (settings (dep s)) - k)" arbitrary: s k)
  case 0
  then have "autoStep intn r now s = s\<lparr>pc := LEnd k\<rparr>" "BatchSize (settings (dep s)) = k"
    using auto_simps(3)[OF 0(2,4)] by auto
  then show ?case using leadsTo_step[OF leadsTo_refl, of "autoStep intn r now" s]
    by (intro exI[of _ "s\<lparr>pc := LEnd k\<rparr>"]) (simp add: moved_def)
next
  case (Suc n)
  let ?b = "BatchSize (settings (dep s))" and ?i = "second div RequestsPerSecond (settings (dep s))"
  have less: "k < ?b" using Suc.hyps(2) by simp
  obtain u where u: "leadsTo (autoStep intn r now) s u" "pc u = LBatch (k + 1)"
    "moved s 1 0 (if k + 1 < ?b then ?i else 0) u" "settings (dep u) = settings (dep s)"
    using auto_one[OF Suc.prems(1) less Suc.prems(3)] unfolding moved_def by blast
  have m: "n = nat (BatchSize (settings (dep u)) - (k + 1))" using Suc.hyps(2) u(4) by simp
  obtain t where t: "leadsTo (autoStep intn r now) u t" "pc t = LEnd ?b"
    "moved u (?b - (k + 1)) 0 (max 0 (?b - 1 - (k + 1)) * ?i) t"
    using Suc.hyps(1)[OF m u(2)] u(4) less Suc.prems(3) by auto
  have "(if k + 1 < ?b then ?i else 0) + max 0 (?b - 1 - (k + 1)) * ?i = max 0 (?b - 1 - k) * ?i"
  proof (cases "k + 1 < ?b")
    case False
    then have "?b = k + 1" using less by simp
    then show ?thesis by simp
  qed (simp add: max_def algebra_simps)
  then have "moved s (?b - k) 0 (max 0 (?b - 1 - k) * ?i) t" using moved_trans[OF u(3) t(3)] by simp
  with t(2) leadsTo_trans[OF u(1) t(1)] show ?case by blast
qed

text \<open>
  A batch is what the settings say. An enabled worker with a positive batch size and rate that is left
  alone comes back to the top of its loop after it has sent exactly the batch size, counted one batch, and
  slept one interval between any two requests and the delay at the end.
\<close>

lemma tester_batch_exact:
  assumes "pc s = LTop" and "enabled (dep s)" and "settings (dep s) = \<lparr>BatchSize = b, RequestsPerSecond = q, DelayBetweenBatches = d\<rparr>"
    and "0 < b" and "0 < q" and "0 \<le> d"
  shows "\<exists>n t. (autoStep intn r now ^^ n) s = t \<and> pc t = LTop \<and>
    moved s b 1 ((b - 1) * (second div q) + d * second) t"
proof -
  let ?f = "autoStep intn r now"
  have ok: "\<not> cannotSend (settings (dep s))" using assms(3-5) by (simp add: cannotSend_def)
  let ?s1 = "s\<lparr>pc := LBatch 0\<rparr>"
  have "?f (?f s) = ?s1" using auto_simps(1)[OF assms(1,2)] auto_simps(2)[of "s\<lparr>pc := LSettings\<rparr>"] ok by simp
  then have 1: "leadsTo ?f s ?s1" using leadsTo_step[OF leadsTo_step[OF leadsTo_refl], of ?f s] by simp
  obtain u where u: "leadsTo ?f ?s1 u" "pc u = LEnd b" "moved ?s1 b 0 ((b - 1) * (second div q)) u"
    using auto_inner[of ?s1 0 intn r now] ok assms(3,4) by (auto simp: max_def)
  let ?v = "?f (?f u)"
  have "?f u = u\<lparr>dep := RecordBatchCompletion now (dep u), pc := LDelay\<rparr>" using auto_simps(6)[OF u(2)] assms(4) by simp
  then have v: "pc ?v = sleepThen (d * second) LTop" "moved u 0 1 0 ?v"
    using u(3) assms(3) by (simp_all add: auto_simps(7) moved_def RecordBatchCompletion_def)
  obtain t where t: "leadsTo ?f ?v t" "pc t = LTop" "moved ?v 0 0 (d * second) t"
    using auto_sleep[OF v(1), of intn r now] assms(6) by (auto simp: second_def)
  have "leadsTo ?f s t" using leadsTo_trans[OF 1 leadsTo_trans[OF u(1) leadsTo_step[OF leadsTo_step[OF t(1)]]]] .
  moreover have "moved s b 1 ((b - 1) * (second div q) + d * second) t"
    using moved_trans[OF moved_trans[OF u(3) v(2)] t(3)] by (simp add: moved_def)
  ultimately show ?thesis using t(2) unfolding leadsTo_def by blast
qed

section \<open>The end of the worker\<close>

lemma quit_simps:
  "pc s = LTop \<Longrightarrow> quitStep intn r now s = s\<lparr>pc := if enabled (dep s) then LSettings else LSleep (second div 4) LTop\<rparr>"
  "pc s = LSettings \<Longrightarrow>
     quitStep intn r now s = s\<lparr>pc := if cannotSend (settings (dep s)) then LSleep (second div 4) LTop else LBatch 0\<rparr>"
  "pc s = LBatch k \<Longrightarrow> quitStep intn r now s =
     s\<lparr>pc := if cannotSend (settings (dep s)) \<or> BatchSize (settings (dep s)) \<le> k then LEnd k else LSend k\<rparr>"
  "pc s = LSend k \<Longrightarrow> quitStep intn r now s =
     s\<lparr>dep := RecordRequestStarted now (dep s), gen := snd (NextInvocation intn r (gen s)),
       flights := flights s @ [fst (NextInvocation intn r (gen s))], pc := LSent (k + 1)\<rparr>"
  "pc s = LSent k \<Longrightarrow> quitStep intn r now s =
     s\<lparr>pc := if cannotSend (settings (dep s)) \<or> BatchSize (settings (dep s)) \<le> k then LBatch k
       else sleepThen (second div maxInt 1 (RequestsPerSecond (settings (dep s)))) (LBatch k)\<rparr>"
  "pc s = LEnd k \<Longrightarrow> quitStep intn r now s =
     s\<lparr>dep := if k > 0 then RecordBatchCompletion now (dep s) else dep s, pc := LDelay\<rparr>"
  "pc s = LDelay \<Longrightarrow> quitStep intn r now s = s\<lparr>pc := sleepThen (DelayBetweenBatches (settings (dep s)) * second) LTop\<rparr>"
  "pc s = LSleep d next \<Longrightarrow> quitStep intn r now s = s\<lparr>pc := LReturned\<rparr>"
  by (auto simp: quitStep_def loopStep_def sleepThen_def second_def Let_def split: prod.splits)

text \<open>Settings with which the loop never sleeps.\<close>

definition neverSleeps :: "RequestSettings \<Rightarrow> bool" where
  "neverSleeps st \<longleftrightarrow>
     0 < BatchSize st \<and> 0 < RequestsPerSecond st \<and> DelayBetweenBatches st \<le> 0 \<and>
     (BatchSize st = 1 \<or> second < RequestsPerSecond st)"

definition restless :: "RequestSettings \<Rightarrow> 'g TW \<Rightarrow> bool" where
  "restless st s \<longleftrightarrow> settings (dep s) = st \<and> enabled (dep s) \<and>
     (case pc s of LSleep _ _ \<Rightarrow> False | LReturned \<Rightarrow> False | LSend k \<Rightarrow> 0 \<le> k | LSent k \<Rightarrow> 1 \<le> k | LBatch k \<Rightarrow> 0 \<le> k | _ \<Rightarrow> True)"

lemma restless_step:
  assumes "neverSleeps st" and "restless st s"
  shows "restless st (quitStep intn r now s)"
proof -
  have i: "BatchSize st \<le> k \<or> second div maxInt 1 (RequestsPerSecond st) \<le> 0" if "1 \<le> k" for k
    using assms(1) that by (auto simp: neverSleeps_def maxInt_def second_def div_pos_pos_trivial)
  have "DelayBetweenBatches st * second \<le> 0" using assms(1) by (simp add: neverSleeps_def second_def)
  then show ?thesis
    using assms i
    by (cases "pc s")
       (auto simp: quit_simps restless_def record_defs sleepThen_def cannotSend_def neverSleeps_def)
qed

lemma restless_forever:
  assumes "neverSleeps st" and "restless st s"
  shows "restless st ((quitStep intn r now ^^ n) s)"
  using assms by (induction n) (simp_all add: restless_step)

text \<open>A worker whose sleeps within a batch have no length completes the batch.\<close>

lemma quit_inner:
  assumes "pc s = LBatch k" and "\<not> cannotSend (settings (dep s))" and "settings (dep s) = st"
    and "BatchSize st = 1 \<or> second < RequestsPerSecond st" and "0 \<le> k"
  shows "\<exists>t. leadsTo (quitStep intn r now) s t \<and> (\<exists>j. pc t = LEnd j) \<and> settings (dep t) = st"
  using assms(1-3,5)
proof (induction "nat (BatchSize st - k)" arbitrary: s k)
  case 0
  then have "quitStep intn r now s = s\<lparr>pc := LEnd k\<rparr>" using quit_simps(3)[OF 0(2)] by auto
  then show ?case using leadsTo_step[OF leadsTo_refl, of "quitStep intn r now" s] 0
    by (intro exI[of _ "s\<lparr>pc := LEnd k\<rparr>"]) simp
next
  case (Suc n)
  let ?f = "quitStep intn r now"
  have k: "k < BatchSize st" using Suc.hyps(2) by simp
  have 1: "?f s = s\<lparr>pc := LSend k\<rparr>" using quit_simps(3)[OF Suc.prems(1)] Suc.prems(2,3) k by auto
  let ?s2 = "?f (?f s)"
  have 2: "pc ?s2 = LSent (k + 1)" "settings (dep ?s2) = st" unfolding 1
    using Suc.prems(3) by (simp_all add: quit_simps(4) RecordRequestStarted_def)
  have "BatchSize st \<le> k + 1 \<or> second div maxInt 1 (RequestsPerSecond st) \<le> 0"
    using assms(4) Suc.prems(4) by (auto simp: maxInt_def second_def div_pos_pos_trivial)
  then have 3: "?f ?s2 = ?s2\<lparr>pc := LBatch (k + 1)\<rparr>" using quit_simps(5)[OF 2(1)] 2(2) by (auto simp: sleepThen_def)
  have m: "n = nat (BatchSize st - (k + 1))" using Suc.hyps(2) by simp
  obtain t where t: "leadsTo ?f (?s2\<lparr>pc := LBatch (k + 1)\<rparr>) t" "\<exists>j. pc t = LEnd j" "settings (dep t) = st"
    using Suc.hyps(1)[OF m, of "?s2\<lparr>pc := LBatch (k + 1)\<rparr>"] Suc.prems(2-4) 2(2) by auto
  have "leadsTo ?f s t" using t(1) leadsTo_step[of ?f ?s2 t] leadsTo_step[of ?f "?f s" t] leadsTo_step[of ?f s t] 3 by simp
  with t show ?case by blast
qed

text \<open>From a place where the loop sleeps, the worker returns.\<close>

lemma quit_from_sleep:
  assumes "leadsTo (quitStep intn r now) s t" and "pc t = LSleep d next"
  shows "\<exists>n. pc ((quitStep intn r now ^^ n) s) = LReturned"
proof -
  have "leadsTo (quitStep intn r now) s (t\<lparr>pc := LReturned\<rparr>)"
    using leadsTo_trans[OF assms(1) leadsTo_step[OF leadsTo_refl]] quit_simps(8)[OF assms(2), of intn r now] by simp
  then obtain n where "(quitStep intn r now ^^ n) s = t\<lparr>pc := LReturned\<rparr>" unfolding leadsTo_def by blast
  then show ?thesis by (intro exI[of _ n]) simp
qed

lemma quit_sleeping:
  assumes "pc s = LTop" and "settings_ok (settings (dep s))" and "\<not> (enabled (dep s) \<and> neverSleeps (settings (dep s)))"
  shows "\<exists>t d next. leadsTo (quitStep intn r now) s t \<and> pc t = LSleep d next"
proof -
  let ?f = "quitStep intn r now" and ?st = "settings (dep s)"
  consider "\<not> enabled (dep s)" | "enabled (dep s)" "cannotSend ?st"
    | "enabled (dep s)" "\<not> cannotSend ?st" "BatchSize ?st \<noteq> 1" "RequestsPerSecond ?st \<le> second"
    | "enabled (dep s)" "\<not> cannotSend ?st" "BatchSize ?st = 1 \<or> second < RequestsPerSecond ?st" "0 < DelayBetweenBatches ?st"
    using assms(2,3) by (force simp: neverSleeps_def settings_ok_def cannotSend_def)
  then show ?thesis
  proof cases
    case 1
    then show ?thesis using quit_simps(1)[OF assms(1), of intn r now] leadsTo_step[OF leadsTo_refl, of ?f s]
      by (intro exI[of _ "?f s"]) simp
  next
    case 2
    then have "pc (?f (?f s)) = LSleep (second div 4) LTop" by (simp add: quit_simps(1)[OF assms(1)] quit_simps(2))
    then show ?thesis using leadsTo_step[OF leadsTo_step[OF leadsTo_refl], of ?f s] by blast
  next
    case 3
    let ?s3 = "?f (?f (?f s))"
    have s3: "?s3 = s\<lparr>pc := LSend 0\<rparr>" using 3 by (simp add: quit_simps(1)[OF assms(1)] quit_simps(2,3) cannotSend_def)
    have "0 < second div maxInt 1 (RequestsPerSecond ?st)"
      using 3 by (simp add: maxInt_def second_def cannotSend_def pos_imp_zdiv_pos_iff)
    then have "pc (?f (?f ?s3)) = LSleep (second div maxInt 1 (RequestsPerSecond ?st)) (LBatch 1)"
      unfolding s3 using 3 by (simp add: quit_simps(4,5) RecordRequestStarted_def sleepThen_def cannotSend_def)
    moreover have "leadsTo ?f s (?f (?f ?s3))"
      by (rule leadsTo_step, rule leadsTo_step, rule leadsTo_step, rule leadsTo_step, rule leadsTo_step, rule leadsTo_refl)
    ultimately show ?thesis by blast
  next
    case 4
    let ?s2 = "s\<lparr>pc := LBatch 0\<rparr>"
    have "?f (?f s) = ?s2" using 4(1,2) by (simp add: quit_simps(1)[OF assms(1)] quit_simps(2))
    then have 2: "leadsTo ?f s ?s2" using leadsTo_step[OF leadsTo_step[OF leadsTo_refl], of ?f s] by simp
    obtain u j where u: "leadsTo ?f ?s2 u" "pc u = LEnd j" "settings (dep u) = ?st"
      using quit_inner[of ?s2 0 ?st intn r now] 4(2,3) by auto
    have "pc (?f (?f u)) = LSleep (DelayBetweenBatches ?st * second) LTop"
      using 4(4) u(3) by (simp add: quit_simps(6)[OF u(2)] quit_simps(7) RecordBatchCompletion_def sleepThen_def second_def)
    moreover have "leadsTo ?f s (?f (?f u))"
      using leadsTo_trans[OF 2 leadsTo_trans[OF u(1) leadsTo_step[OF leadsTo_step[OF leadsTo_refl]]]] .
    ultimately show ?thesis by blast
  qed
qed

text \<open>
  C30: When a worker stops. After its context has ended, a worker at the top of its loop whose settings
  are not changed any more returns, except when it is enabled, has no delay between its batches, and
  either sends batches of one request or more than a billion requests a second: then it never sleeps,
  never looks at its context, and never returns, so that the program's \<open>Shutdown\<close> waits for it for good.
\<close>

theorem tester_worker_stops_iff:
  assumes "pc s = LTop" and "settings_ok (settings (dep s))"
  shows "(\<exists>n. pc ((quitStep intn r now ^^ n) s) = LReturned) \<longleftrightarrow>
    \<not> (enabled (dep s) \<and> neverSleeps (settings (dep s)))"
proof
  assume "\<exists>n. pc ((quitStep intn r now ^^ n) s) = LReturned"
  then obtain n where n: "pc ((quitStep intn r now ^^ n) s) = LReturned" by blast
  show "\<not> (enabled (dep s) \<and> neverSleeps (settings (dep s)))"
  proof
    assume a: "enabled (dep s) \<and> neverSleeps (settings (dep s))"
    then have "restless (settings (dep s)) s" using assms(1) by (simp add: restless_def)
    from restless_forever[OF _ this, where intn = intn and r = r and now = now and n = n] a n show False by (simp add: restless_def)
  qed
next
  assume "\<not> (enabled (dep s) \<and> neverSleeps (settings (dep s)))"
  then show "\<exists>n. pc ((quitStep intn r now ^^ n) s) = LReturned"
    using quit_sleeping[OF assms] quit_from_sleep by metis
qed

theorem tester_worker_stops_iff_witness:
  "(\<exists>n. pc ((quitStep (\<lambda>m g. (g mod m, g + 1)) helloRequester 0 ^^ n)
       (startWorker (newDeploymentState ''h'' ''7'') (0 :: int))) = LReturned) \<and>
   \<not> (\<exists>n. pc ((quitStep (\<lambda>m g. (g mod m, g + 1)) helloRequester 0 ^^ n)
       (startWorker (AdjustSetting 2 (- 2) (AdjustSetting 0 (- 2) (newDeploymentState ''h'' ''7''))) (0 :: int))) = LReturned)"
proof -
  let ?d = "newDeploymentState ''h'' ''7''"
  let ?e = "AdjustSetting 2 (- 2) (AdjustSetting 0 (- 2) ?d)"
  have "settings ?d = \<lparr>BatchSize = 3, RequestsPerSecond = 2, DelayBetweenBatches = 2\<rparr>"
    "settings ?e = \<lparr>BatchSize = 1, RequestsPerSecond = 2, DelayBetweenBatches = 0\<rparr>" "enabled ?d" "enabled ?e"
    by (simp_all add: newDeploymentState_def AdjustSetting_def maxInt_def Let_def)
  moreover have "pc (startWorker d g) = LTop" "dep (startWorker d g) = d" for d and g :: int
    by (simp_all add: startWorker_def)
  ultimately show ?thesis
    using tester_worker_stops_iff[of "startWorker ?d (0 :: int)" "\<lambda>m g. (g mod m, g + 1)" helloRequester 0]
      tester_worker_stops_iff[of "startWorker ?e (0 :: int)" "\<lambda>m g. (g mod m, g + 1)" helloRequester 0]
    by (simp add: neverSleeps_def settings_ok_def)
qed

end
