(* ===== verification/TesterSetup.thy ===== *)
theory TesterSetup
  imports TesterRequests
begin

text \<open>
  How the load tester sets its stack up (\<open>servermore-tester/setup.go\<close>): the rolling log of command output,
  the search for the project root, compiling the functions, and the docker commands.

  Commands run in a \<open>Shell\<close> that remembers them; what a command answers may depend on all that ran before.
\<close>

section \<open>The rolling log\<close>

record rollingLog =
  rlMax :: int
  rlLines :: "string list"

definition newRollingLog :: "int \<Rightarrow> rollingLog" where
  "newRollingLog m = \<lparr>rlMax = m, rlLines = []\<rparr>"

definition trimNewline :: "string \<Rightarrow> string" where
  "trimNewline s = rev (dropWhile (\<lambda>c. c = CHR 0x0D \<or> c = CHR 0x0A) (rev s))"

text \<open>The builtin \<open>copy\<close>: as many elements as both slices have, from the front.\<close>

definition go_copy :: "'a list \<Rightarrow> 'a list \<Rightarrow> 'a list" where
  "go_copy dst src = take (length dst) src @ drop (length src) dst"

definition logAdd :: "string \<Rightarrow> rollingLog \<Rightarrow> rollingLog" where
  "logAdd l r =
     (let line = trimNewline l
      in if strings_TrimSpace line = [] then r
         else
           (let lines = rlLines r @ [line]
            in if 0 < rlMax r \<and> rlMax r < int (length lines)
               then r\<lparr>rlLines := take (nat (rlMax r)) (go_copy lines (drop (length lines - nat (rlMax r)) lines))\<rparr>
               else r\<lparr>rlLines := lines\<rparr>))"

definition logSnapshot :: "rollingLog \<Rightarrow> string" where
  "logSnapshot r = strings_Join (rlLines r) [CHR 0x0A]"

text \<open>What the log is meant to be: the last lines that are not blank.\<close>

definition keptLines :: "string list \<Rightarrow> string list" where
  "keptLines ls = filter (\<lambda>l. strings_TrimSpace l \<noteq> []) (map trimNewline ls)"

definition lastN :: "nat \<Rightarrow> 'a list \<Rightarrow> 'a list" where
  "lastN n xs = drop (length xs - n) xs"

lemma take_go_copy:
  "n \<le> length xs \<Longrightarrow> take n (go_copy xs (drop (length xs - n) xs)) = lastN n xs"
  by (simp add: go_copy_def lastN_def)

lemma lastN_snoc: "0 < n \<Longrightarrow> lastN n (lastN n xs @ [x]) = lastN n (xs @ [x])"
  by (cases "n \<le> length xs") (simp_all add: lastN_def Suc_diff_le)

lemma logAdd_lines:
  assumes "0 < rlMax r" and "int (length (rlLines r)) \<le> rlMax r"
  shows "rlLines (logAdd l r) = (if strings_TrimSpace (trimNewline l) = [] then rlLines r
      else lastN (nat (rlMax r)) (rlLines r @ [trimNewline l])) \<and>
    rlMax (logAdd l r) = rlMax r \<and> int (length (rlLines (logAdd l r))) \<le> rlMax r"
proof -
  have "nat (rlMax r) \<le> length (rlLines r @ [trimNewline l])"
    if "rlMax r < int (length (rlLines r @ [trimNewline l]))" using that by linarith
  note c = take_go_copy[OF this]
  show ?thesis using assms c by (auto simp: logAdd_def Let_def lastN_def)
qed

text \<open>
  The rolling log shows the newest output. After any lines were added to a log of a positive size, it
  holds exactly the last lines of that number that are not blank, in order, without their line ends.
\<close>

lemma rolling_log_newest:
  assumes "0 < m"
  shows "rlLines (fold logAdd ls (newRollingLog m)) = lastN (nat m) (keptLines ls)"
proof -
  have "rlLines (fold logAdd ls (newRollingLog m)) = lastN (nat m) (keptLines ls) \<and>
    rlMax (fold logAdd ls (newRollingLog m)) = m \<and> int (length (rlLines (fold logAdd ls (newRollingLog m)))) \<le> m"
  proof (induction ls rule: rev_induct)
    case Nil
    then show ?case using assms by (simp add: newRollingLog_def keptLines_def lastN_def)
  next
    case (snoc l ls)
    then show ?case
      using logAdd_lines[of "fold logAdd ls (newRollingLog m)" l] assms
      by (auto simp: keptLines_def lastN_snoc)
  qed
  then show ?thesis by simp
qed

section \<open>The project root\<close>

definition composeRelPath :: string where
  "composeRelPath = ''docker/docker-compose.local-test.yaml''"

text \<open>\<open>stat\<close> is \<open>os.Stat\<close>: nothing, or whether the path is a directory.\<close>

definition isProjectRoot :: "(string \<Rightarrow> bool option) \<Rightarrow> string \<Rightarrow> bool" where
  "isProjectRoot stat dir \<longleftrightarrow>
     stat (filepath_Join [dir, composeRelPath]) = Some False \<and>
     stat (filepath_Join [dir, ''test'', ''functions'']) = Some True"

partial_function (option) findRootLoop :: "(string \<Rightarrow> bool option) \<Rightarrow> string \<Rightarrow> string res option" where
  "findRootLoop stat dir =
     (if isProjectRoot stat dir then Some (Inr dir)
      else if filepath_Dir dir = dir
      then Some (Inl (Errorf ''could not locate the servermore project root'' [] None))
      else findRootLoop stat (filepath_Dir dir))"

definition findProjectRoot :: "string res \<Rightarrow> (string \<Rightarrow> bool option) \<Rightarrow> string res option" where
  "findProjectRoot getwd stat =
     (case getwd of
        Inl err \<Rightarrow> Some (Inl (wrapf ''read working directory: %w'' [] err))
      | Inr wd \<Rightarrow> findRootLoop stat wd)"

text \<open>An absolute path from the names on the way, and the directories from there up to the root.\<close>

definition absPath :: "string list \<Rightarrow> string" where
  "absPath ns = foldl (\<lambda>p n. filepath_Join [p, n]) [slash] ns"

definition upwards :: "string list \<Rightarrow> string list" where
  "upwards ns = map (\<lambda>k. absPath (take k ns)) (rev [0..<Suc (length ns)])"

lemma absPath_snoc: "absPath (ns @ [n]) = filepath_Join [absPath ns, n]"
  by (simp add: absPath_def)

lemma absPath_Clean: "list_all plain_name ns \<Longrightarrow> filepath_Clean (absPath ns) = absPath ns"
proof (induction ns rule: rev_induct)
  case Nil
  have "filepath_Clean ''/'' = ''/''" by code_simp
  then show ?case by (simp add: absPath_def slash_def)
next
  case (snoc n ns)
  then show ?case by (simp add: absPath_snoc Clean_Join)
qed

lemma absPath_Dir:
  assumes "list_all plain_name (ns @ [n])"
  shows "filepath_Dir (absPath (ns @ [n])) = absPath ns"
proof -
  have "filepath_Dir (absPath (ns @ [n])) = filepath_Clean (absPath ns)"
    unfolding absPath_snoc using assms by (intro Dir_Join) simp
  then show ?thesis using assms absPath_Clean[of ns] by simp
qed

lemma absPath_rooted: "list_all plain_name ns \<Longrightarrow> strings_HasPrefix (absPath ns) [slash]"
proof (induction ns rule: rev_induct)
  case (snoc n ns)
  then show ?case by (simp add: absPath_snoc Join_shape strings_HasPrefix_def)
qed (simp add: absPath_def strings_HasPrefix_def)

lemma absPath_neq:
  assumes "list_all plain_name (ns @ [n])"
  shows "absPath (ns @ [n]) \<noteq> absPath ns"
proof -
  let ?j = "strings_Join (rev (clean_stack (absPath ns))) [slash]"
  have r: "strings_HasPrefix (absPath ns) [slash]" using absPath_rooted[of ns] assms by simp
  then have "filepath_Clean (absPath ns) = slash # ?j" by (auto simp: filepath_Clean_def Let_def strings_HasPrefix_def)
  then have "absPath ns = slash # ?j" using absPath_Clean[of ns] assms by simp
  then have "length (absPath ns) = Suc (length ?j)" by (metis length_Cons)
  moreover have "length (absPath (ns @ [n])) > Suc (length ?j)"
    using r assms by (simp add: absPath_snoc Join_shape) (simp add: plain_name_def)
  ultimately show ?thesis by auto
qed

lemma upwards_snoc: "upwards (ns @ [n]) = absPath (ns @ [n]) # upwards ns"
  by (simp add: upwards_def)

lemma findRootLoop_absPath:
  assumes "list_all plain_name ns"
  shows "findRootLoop stat (absPath ns) =
    Some (case List.find (isProjectRoot stat) (upwards ns) of
            Some dir \<Rightarrow> Inr dir
          | None \<Rightarrow> Inl (Errorf ''could not locate the servermore project root'' [] None))"
  using assms
proof (induction ns rule: rev_induct)
  case Nil
  have "filepath_Dir ''/'' = ''/''" by code_simp
  then show ?case
    by (subst findRootLoop.simps) (simp add: absPath_def upwards_def slash_def)
next
  case (snoc n ns)
  then show ?case
    using absPath_Dir[OF snoc.prems] absPath_neq[OF snoc.prems]
    by (subst findRootLoop.simps) (simp add: upwards_snoc)
qed

text \<open>
  The search for the project root ends, with the nearest directory. From every absolute working
  directory it returns after finitely many steps: with the first directory on the way up that has both
  the compose file and the directory of test functions, and with an error when there is none.
\<close>

lemma project_root_nearest:
  assumes "list_all plain_name ns"
  shows "findProjectRoot (Inr (absPath ns)) stat =
    Some (case List.find (isProjectRoot stat) (upwards ns) of
            Some dir \<Rightarrow> Inr dir
          | None \<Rightarrow> Inl (Errorf ''could not locate the servermore project root'' [] None))"
  using findRootLoop_absPath[OF assms] by (simp add: findProjectRoot_def)

definition example_stat :: "string \<Rightarrow> bool option" where
  "example_stat p = (if p = ''/src/docker/docker-compose.local-test.yaml'' then Some False
     else if p = ''/src/test/functions'' then Some True else None)"

section \<open>Commands\<close>

text \<open>A shell: the commands that ran, and what the next one answers.\<close>

record Shell =
  ran :: "string list list"
  answer :: "string list list \<Rightarrow> string list \<Rightarrow> string \<times> goerr option"

definition cmdText :: "string list \<Rightarrow> string" where
  "cmdText args = strings_Join args '' ''"

definition runCommand :: "string list \<Rightarrow> Shell \<Rightarrow> Shell \<times> string \<times> string \<times> goerr option" where
  "runCommand args sh =
     (let (output, err) = answer sh (ran sh) args
      in (sh\<lparr>ran := ran sh @ [args]\<rparr>, cmdText args, strings_TrimSpace output,
          map_option (wrapf ''run %q: %w'' [cmdText args]) err))"

text \<open>A command whose output is followed: \<open>pipes\<close> has the errors of the two pipes and of the start, \<open>stream\<close>
  the pieces that its two readers pass on, in the order in which they take the lock of the log.\<close>

record StreamEnv =
  stdoutErr :: "goerr option"
  stderrErr :: "goerr option"
  startErr :: "goerr option"
  stream :: "string list"

definition runCommandStream ::
  "(string list \<Rightarrow> StreamEnv) \<Rightarrow> string list \<Rightarrow> rollingLog \<Rightarrow> Shell \<Rightarrow> Shell \<times> rollingLog \<times> string \<times> goerr option" where
  "runCommandStream senv args logs sh =
     (case stdoutErr (senv args) of
        Some err \<Rightarrow> (sh, logs, [], Some (wrapf ''create stdout pipe: %w'' [] err))
      | None \<Rightarrow>
          (case stderrErr (senv args) of
             Some err \<Rightarrow> (sh, logs, [], Some (wrapf ''create stderr pipe: %w'' [] err))
           | None \<Rightarrow>
               (case startErr (senv args) of
                  Some err \<Rightarrow> (sh, logs, [], Some (wrapf ''start %q: %w'' [cmdText args] err))
                | None \<Rightarrow>
                    (let logs1 = fold logAdd (filter (\<lambda>l. l \<noteq> []) (stream (senv args))) logs;
                         (_, err) = answer sh (ran sh) args
                     in (sh\<lparr>ran := ran sh @ [args]\<rparr>, logs1, logSnapshot logs1,
                         map_option (wrapf ''run %q: %w'' [cmdText args]) err)))))"

definition composeFile :: "string \<Rightarrow> string" where
  "composeFile rootDir = filepath_Join [rootDir, composeRelPath]"

definition composeCmd :: "string \<Rightarrow> string list \<Rightarrow> string list" where
  "composeCmd rootDir args = [''docker'', ''compose'', ''-f'', composeFile rootDir] @ args"

text \<open>\<open>errText\<close> is the method \<open>Error\<close>, \<open>ctxEnded\<close> whether the context has ended when \<open>down\<close> returns.\<close>

definition startStack ::
  "(goerr \<Rightarrow> string) \<Rightarrow> (string list \<Rightarrow> StreamEnv) \<Rightarrow> bool \<Rightarrow> string \<Rightarrow> rollingLog option \<Rightarrow> Shell \<Rightarrow>
   Shell \<times> rollingLog \<times> string \<times> bool \<times> goerr option" where
  "startStack errText senv ctxEnded rootDir logs0 sh =
     (let logs = (case logs0 of None \<Rightarrow> newRollingLog 10 | Some l \<Rightarrow> l);
          (sh1, _, downOutput, downErr) = runCommand (composeCmd rootDir [''down'', ''-v'', ''--remove-orphans'']) sh;
          logs1 = (if strings_TrimSpace downOutput \<noteq> []
                   then fold logAdd (strings_Split downOutput (CHR 0x0A)) logs else logs);
          logs2 = (case downErr of Some e \<Rightarrow> if ctxEnded then logs1 else logAdd (errText e) logs1 | None \<Rightarrow> logs1);
          (sh2, logs3, _, pullErr) = runCommandStream senv (composeCmd rootDir [''pull'', ''--ignore-buildable'']) logs2 sh1
      in case pullErr of
           Some e \<Rightarrow> (sh2, logs3, logSnapshot logs3, False, Some e)
         | None \<Rightarrow>
             (let (sh3, logs4, _, buildErr) =
                    runCommandStream senv (composeCmd rootDir [''build'', ''--progress'', ''plain'']) logs3 sh2
              in case buildErr of
                   Some e \<Rightarrow> (sh3, logs4, logSnapshot logs4, False, Some e)
                 | None \<Rightarrow>
                     (let (sh4, logs5, _, upErr) =
                            runCommandStream senv (composeCmd rootDir [''up'', ''-d'', ''--no-build'']) logs4 sh3
                      in (sh4, logs5, logSnapshot logs5, upErr = None, upErr))))"

definition stopStack :: "string \<Rightarrow> Shell \<Rightarrow> Shell \<times> goerr option" where
  "stopStack rootDir sh =
     (let (sh1, _, _, err) = runCommand (composeCmd rootDir [''down'', ''-v'', ''--remove-orphans'']) sh in (sh1, err))"

text \<open>\<open>probe\<close> is a GET with a timeout: the status, or nothing when the request failed.\<close>

definition heartbeatPath :: string where
  "heartbeatPath = ''/monitoring/heartbeat''"

definition checkHTTPReady :: "(string \<Rightarrow> int option) \<Rightarrow> string \<Rightarrow> bool" where
  "checkHTTPReady probe target = (case probe target of None \<Rightarrow> False | Some code \<Rightarrow> 200 \<le> code \<and> code < 400)"

definition pollStack ::
  "(string \<Rightarrow> int option) \<Rightarrow> string \<Rightarrow> Shell \<Rightarrow> Shell \<times> string \<times> bool \<times> bool \<times> goerr option" where
  "pollStack probe rootDir sh =
     (let (sh1, _, output, err) = runCommand (composeCmd rootDir [''logs'', ''--no-color'', ''--tail'', ''10'']) sh
      in case err of
           Some e \<Rightarrow> (sh1, output, False, False, Some e)
         | None \<Rightarrow>
             (sh1, output, checkHTTPReady probe (commanderURL @ heartbeatPath),
              checkHTTPReady probe (gatewayURL @ heartbeatPath), None))"

text \<open>The pattern \<open>:(\d+)$\<close> on one line: the digits behind the last colon, up to the end.\<close>

definition isDigit :: "char \<Rightarrow> bool" where
  "isDigit c \<longleftrightarrow> 48 \<le> (of_char c :: int) \<and> of_char c \<le> (57 :: int)"

definition portSuffix :: "string \<Rightarrow> string option" where
  "portSuffix line =
     (let ds = takeWhile isDigit (rev line)
      in if ds \<noteq> [] \<and> length ds < length line \<and> rev line ! length ds = CHR '':'' then Some (rev ds) else None)"

fun firstPort :: "string list \<Rightarrow> string option" where
  "firstPort [] = None"
| "firstPort (l # ls) =
     (let line = strings_TrimSpace l
      in if line = [] then firstPort ls
         else case portSuffix line of Some p \<Rightarrow> Some p | None \<Rightarrow> firstPort ls)"

definition parsePublishedPort :: "string \<Rightarrow> string res" where
  "parsePublishedPort output =
     (case firstPort (strings_Split (strings_TrimSpace output) (CHR 0x0A)) of
        Some p \<Rightarrow> Inr p
      | None \<Rightarrow> Inl (Errorf ''could not parse published port from %q'' [output] None))"

text \<open>\<open>nano\<close> is the time that makes the name of the container unique.\<close>

definition startDozzle :: "int \<Rightarrow> Shell \<Rightarrow> Shell \<times> string \<times> string \<times> goerr option" where
  "startDozzle nano sh =
     (let (sh1, _, output, err) = runCommand
            [''docker'', ''run'', ''-d'', ''--name'', ''servermore-dozzle-'' @ strconv_FormatInt nano, ''-v'',
             ''/var/run/docker.sock:/var/run/docker.sock'', ''-v'', ''dozzle_data:/data'', ''-p'', ''0:8080'',
             ''amir20/dozzle:latest''] sh
      in case err of
           Some e \<Rightarrow> (sh1, [], [], Some e)
         | None \<Rightarrow>
             (let containerID = strings_TrimSpace output
              in if containerID = []
                 then (sh1, [], [], Some (Errorf ''docker run did not return a container id'' [] None))
                 else
                   (let (sh2, _, portOutput, err2) = runCommand [''docker'', ''port'', containerID, ''8080''] sh1
                    in case err2 of
                         Some e \<Rightarrow> (sh2, containerID, [], Some e)
                       | None \<Rightarrow>
                           (case parsePublishedPort portOutput of
                              Inl e \<Rightarrow> (sh2, containerID, [], Some e)
                            | Inr hostPort \<Rightarrow> (sh2, containerID, ''http://127.0.0.1:'' @ hostPort, None)))))"

section \<open>Compiling\<close>

text \<open>The loop over the requesters: the binaries so far and the output of the compiler.\<close>

fun compileLoop ::
  "string \<Rightarrow> Requester list \<Rightarrow> (string, string) fmap \<Rightarrow> string list \<Rightarrow> Shell \<Rightarrow>
   Shell \<times> (string, string) fmap option \<times> string \<times> goerr option" where
  "compileLoop outputDir [] binaries logs sh = (sh, Some binaries, strings_Join logs [CHR 0x0A, CHR 0x0A], None)"
| "compileLoop outputDir (r # rs) binaries logs sh =
     (let binaryName = BinaryName r;
          outputPath = filepath_Join [outputDir, binaryName];
          pkgPath = ''./test/functions/'' @ binaryName;
          args = [''go'', ''build'', ''-o'', outputPath, pkgPath];
          (output, err) = answer sh (ran sh) args;
          sh1 = sh\<lparr>ran := ran sh @ [args]\<rparr>;
          logs1 = (if output \<noteq> [] then logs @ [''go build '' @ pkgPath @ [CHR 0x0A] @ strings_TrimSpace output] else logs)
      in case err of
           Some e \<Rightarrow> (sh1, None, strings_Join logs1 [CHR 0x0A, CHR 0x0A], Some (wrapf ''compile %s: %w'' [pkgPath] e))
         | None \<Rightarrow> compileLoop outputDir rs (fmupd binaryName outputPath binaries) logs1 sh1)"

definition tmpFunctions :: string where
  "tmpFunctions = ''servermore-tester-functions''"

definition compileFunctions ::
  "goerr option \<Rightarrow> string \<Rightarrow> Requester list \<Rightarrow> Shell \<Rightarrow> Shell \<times> (string, string) fmap option \<times> string \<times> goerr option" where
  "compileFunctions mkdirErr rootDir requesters sh =
     (let outputDir = filepath_Join [rootDir, ''tmp'', tmpFunctions]
      in case mkdirErr of
           Some e \<Rightarrow> (sh, None, [], Some (wrapf ''create tmp output directory: %w'' [] e))
         | None \<Rightarrow> compileLoop outputDir requesters fmempty [] sh)"

section \<open>Laws of the set-up\<close>

lemma compileLoop_binaries:
  assumes "compileLoop dir rs binaries logs sh = (sh', Some bs, out, err)"
  shows "err = None \<and> fmlookup bs n =
    (if n \<in> BinaryName ` set rs then Some (filepath_Join [dir, n]) else fmlookup binaries n)"
  using assms
proof (induction rs arbitrary: binaries logs sh)
  case (Cons r rs)
  from Cons.prems obtain logs' sh1 where
    "compileLoop dir rs (fmupd (BinaryName r) (filepath_Join [dir, BinaryName r]) binaries) logs' sh1 = (sh', Some bs, out, err)"
    by (auto simp: Let_def split: prod.splits option.splits)
  from Cons.IH[OF this] show ?case by auto
qed simp

text \<open>Every function of the catalog has its binary when compiling succeeds.\<close>

lemma compileFunctions_catalog:
  assumes "compileFunctions None rootDir catalog sh = (sh', Some bs, out, err)"
  shows "fmlookup bs (BinaryName r) = Some (filepath_Join [filepath_Join [rootDir, ''tmp'', tmpFunctions], BinaryName r])"
proof -
  have "r \<in> set catalog" by (cases r) (simp_all add: catalog_def)
  then show ?thesis
    using compileLoop_binaries assms unfolding compileFunctions_def Let_def by fastforce
qed

text \<open>The commands of one attempt to start the stack, in order.\<close>

abbreviation downCmd :: "string \<Rightarrow> string list" where
  "downCmd rootDir \<equiv> composeCmd rootDir [''down'', ''-v'', ''--remove-orphans'']"

abbreviation pullCmd :: "string \<Rightarrow> string list" where
  "pullCmd rootDir \<equiv> composeCmd rootDir [''pull'', ''--ignore-buildable'']"

abbreviation buildCmd :: "string \<Rightarrow> string list" where
  "buildCmd rootDir \<equiv> composeCmd rootDir [''build'', ''--progress'', ''plain'']"

abbreviation upCmd :: "string \<Rightarrow> string list" where
  "upCmd rootDir \<equiv> composeCmd rootDir [''up'', ''-d'', ''--no-build'']"

definition streamOk :: "StreamEnv \<Rightarrow> bool" where
  "streamOk e \<longleftrightarrow> stdoutErr e = None \<and> stderrErr e = None \<and> startErr e = None"

text \<open>A streamed command whose pipes and start are fine.\<close>

definition streamed :: "StreamEnv \<Rightarrow> rollingLog \<Rightarrow> rollingLog" where
  "streamed e logs = fold logAdd (filter (\<lambda>l. l \<noteq> []) (stream e)) logs"

lemma runCommandStream_eq:
  assumes "streamOk (senv args)"
  shows "runCommandStream senv args logs sh =
    (sh\<lparr>ran := ran sh @ [args]\<rparr>, streamed (senv args) logs, logSnapshot (streamed (senv args) logs),
     map_option (wrapf ''run %q: %w'' [cmdText args]) (snd (answer sh (ran sh) args)))"
  using assms by (simp add: runCommandStream_def streamOk_def streamed_def split_beta Let_def)

text \<open>
  The stack counts as started exactly when pulling, building and starting it all succeeded. The old
  stack is taken down first, whatever comes of it; the other commands run in that order, and after the
  first that fails none follows.
\<close>

lemma stack_started_iff:
  assumes "\<And>args. streamOk (senv args)"
    and "startStack errText senv ctxEnded rootDir logs sh = (sh', logs', out, started, err)"
    and "h1 = ran sh @ [downCmd rootDir]" and "h2 = h1 @ [pullCmd rootDir]" and "h3 = h2 @ [buildCmd rootDir]"
    and "pulled \<longleftrightarrow> snd (answer sh h1 (pullCmd rootDir)) = None"
    and "built \<longleftrightarrow> snd (answer sh h2 (buildCmd rootDir)) = None"
    and "up \<longleftrightarrow> snd (answer sh h3 (upCmd rootDir)) = None"
  shows "(started \<longleftrightarrow> pulled \<and> built \<and> up) \<and> (err = None \<longleftrightarrow> started) \<and>
    ran sh' = (if \<not> pulled then h2 else if \<not> built then h3 else h3 @ [upCmd rootDir])"
proof -
  note run = startStack_def runCommand_def runCommandStream_eq[OF assms(1)] split_beta Let_def
  show ?thesis
  proof (cases "snd (answer sh h1 (pullCmd rootDir))")
    case pull: None
    show ?thesis
    proof (cases "snd (answer sh h2 (buildCmd rootDir))")
      case None
      with pull show ?thesis using assms(2) unfolding assms(3-8) by (auto simp: run)
    next
      case (Some e)
      with pull show ?thesis using assms(2) unfolding assms(3-8) by (auto simp: run)
    qed
  next
    case (Some e)
    then show ?thesis using assms(2) unfolding assms(3-8) by (auto simp: run)
  qed
qed

definition example_shell :: Shell where
  "example_shell = \<lparr>ran = [], answer = (\<lambda>_ args. ([], if List.member args ''build'' then Some ErrContext else None))\<rparr>"

definition quietStream :: StreamEnv where
  "quietStream = \<lparr>stdoutErr = None, stderrErr = None, startErr = None, stream = [''line'' @ [CHR 0x0A]]\<rparr>"

text \<open>The port that docker prints for a container is found again.\<close>

lemma portSuffix_format:
  assumes "0 \<le> p"
  shows "portSuffix (host @ CHR '':'' # strconv_FormatInt p) = Some (strconv_FormatInt p)"
proof -
  let ?d = "strconv_FormatInt p"
  have "isDigit c" if "c \<in> set (rev ?d)" for c using FormatInt_chars[OF assms] that by (simp add: isDigit_def)
  then have "takeWhile isDigit (rev ?d @ CHR '':'' # rev host) = rev ?d @ takeWhile isDigit (CHR '':'' # rev host)"
    by (rule takeWhile_append2)
  then have "takeWhile isDigit (rev ?d @ CHR '':'' # rev host) = rev ?d" by (simp add: isDigit_def)
  then show ?thesis using FormatInt_ne[of p] by (simp add: portSuffix_def nth_append)
qed

lemma parsePublishedPort_example:
  "parsePublishedPort (''0.0.0.0:49153'' @ [CHR 0x0A] @ ''[::]:49153'') = Inr ''49153''"
  by code_simp

end
