(* ===== verification/TesterModel.thy ===== *)
theory TesterModel
  imports TesterSetup TesterWorker
begin

text \<open>
  The terminal program of the load tester (\<open>servermore-tester/model.go\<close>): a state machine whose \<open>Update\<close>
  takes a message and returns the next state and a command.

  A command is what the library runs in the background; its result comes back as a message. The input
  form is a library as well: \<open>Form\<close> has its operations, and its state is a parameter. Rendering reads the
  state only and is in \<open>TesterView\<close>. An index out of range is a panic.
\<close>

section \<open>State, messages and commands\<close>

datatype phase = phaseSetup | phaseDashboard | phaseQuitting

record functionEntry =
  requester :: Requester
  binaryPath :: string
  deploying :: bool
  deployError :: gotext
  deployed :: "deploymentState option"

record 'f model =
  rootDir :: string
  mphase :: phase
  ctxCancelled :: bool
  width :: int
  height :: int
  spinnerIndex :: int
  setupStatus :: string
  setupOutput :: string
  setupStream :: "rollingLog option"
  setupErr :: "goerr option"
  setupPolls :: int
  dozzleContainerID :: string
  dozzleURL :: string
  dozzleStarting :: bool
  dozzleError :: gotext
  mfunctions :: "functionEntry list"
  selectedFunction :: int
  selectedField :: int
  statusLine :: gotext
  stackStarted :: bool
  stackStarting :: bool
  shuttingDown :: bool
  deployFunctionIndex :: int
  deployName :: string
  deployForm :: "'f option"

datatype Msg =
    uiTickMsg
  | dashboardTickMsg
  | stackPollTickMsg
  | KeyPressMsg string
  | WindowSizeMsg int int
  | compileDoneMsg "(string, string) fmap" string "goerr option"
  | stackReadyMsg string bool "goerr option"
  | stackPollMsg string bool bool "goerr option"
  | dozzleStartMsg string string "goerr option"
  | deployDoneMsg int string string "goerr option"
  | stackShutdownDoneMsg "goerr option"
  | otherMsg

datatype Cmd =
    NoCmd
  | uiTickCmd
  | dashboardTickCmd
  | compileFunctionsCmd
  | startStackCmd
  | pollStackCmd
  | pollTickCmd
  | startDozzleCmd
  | deployFunctionCmd int string string
  | shutdownStackCmd
  | FormCmd
  | Batch "Cmd list"
  | Quit

record 'f Form =
  formNew :: "string \<Rightarrow> int \<Rightarrow> 'f"
  formUpdate :: "Msg \<Rightarrow> 'f \<Rightarrow> 'f"
  formCompleted :: "'f \<Rightarrow> bool"
  formString :: "'f \<Rightarrow> string"

type_synonym 'f step = "('f model \<times> Cmd) outcome"

definition newModel :: "string \<Rightarrow> 'f model" where
  "newModel root =
     \<lparr>rootDir = root, mphase = phaseSetup, ctxCancelled = False, width = 120, height = 40, spinnerIndex = 0,
      setupStatus = ''Compiling testing functions...'', setupOutput = [], setupStream = None, setupErr = None,
      setupPolls = 0, dozzleContainerID = [], dozzleURL = [], dozzleStarting = False, dozzleError = Lit [],
      mfunctions = map (\<lambda>r. \<lparr>requester = r, binaryPath = [], deploying = False, deployError = Lit [], deployed = None\<rparr>) catalog,
      selectedFunction = 0, selectedField = 0, statusLine = Lit ''Preparing the local test stack...'',
      stackStarted = False, stackStarting = False, shuttingDown = False, deployFunctionIndex = - 1,
      deployName = [], deployForm = None\<rparr>"

definition initCmd :: Cmd where
  "initCmd = Batch [uiTickCmd, compileFunctionsCmd]"

section \<open>Operations\<close>

definition minInt :: "int \<Rightarrow> int \<Rightarrow> int" where
  "minInt a b = (if a < b then a else b)"

definition clampInt :: "int \<Rightarrow> int \<Rightarrow> int \<Rightarrow> int" where
  "clampInt v lo hi = (if v < lo then lo else if v > hi then hi else v)"

definition indexFunction :: "int \<Rightarrow> 'f model \<Rightarrow> (functionEntry \<Rightarrow> 'a outcome) \<Rightarrow> 'a outcome" where
  "indexFunction i m k =
     (if 0 \<le> i \<and> i < int (length (mfunctions m)) then k (mfunctions m ! nat i) else Panics ''index out of range'')"

definition setFunction :: "int \<Rightarrow> functionEntry \<Rightarrow> 'f model \<Rightarrow> 'f model" where
  "setFunction i e m = m\<lparr>mfunctions := (mfunctions m)[nat i := e]\<rparr>"

definition requesters :: "'f model \<Rightarrow> Requester list" where
  "requesters m = map requester (mfunctions m)"

definition beginShutdown :: "'f model \<Rightarrow> 'f model \<times> Cmd" where
  "beginShutdown m =
     (if shuttingDown m then (m, NoCmd)
      else (m\<lparr>shuttingDown := True, mphase := phaseQuitting, statusLine := Lit ''Compose stack is going down...'',
              ctxCancelled := True\<rparr>, shutdownStackCmd))"

definition fieldCount :: "functionEntry \<Rightarrow> int" where
  "fieldCount e = (if deployed e = None then 1 else 3)"

definition moveField :: "int \<Rightarrow> 'f model \<Rightarrow> 'f model outcome" where
  "moveField delta m =
     indexFunction (selectedFunction m) m
       (\<lambda>e. Returns (m\<lparr>selectedField := clampInt (selectedField m + delta) 0 (fieldCount e - 1)\<rparr>))"

definition normalizeSelectedField :: "'f model \<Rightarrow> 'f model outcome" where
  "normalizeSelectedField m =
     indexFunction (selectedFunction m) m
       (\<lambda>e. Returns (m\<lparr>selectedField := clampInt (selectedField m) 0 (fieldCount e - 1)\<rparr>))"

definition moveFunction :: "int \<Rightarrow> 'f model \<Rightarrow> 'f model outcome" where
  "moveFunction delta m =
     normalizeSelectedField
       (m\<lparr>selectedFunction := clampInt (selectedFunction m + delta) 0 (int (length (mfunctions m)) - 1)\<rparr>)"

definition noCmd :: "'f model outcome \<Rightarrow> 'f step" where
  "noCmd o' = (case o' of Panics msg \<Rightarrow> Panics msg | Returns m \<Rightarrow> Returns (m, NoCmd))"

definition openDeployForm :: "'f Form \<Rightarrow> int \<Rightarrow> 'f model \<Rightarrow> 'f model outcome" where
  "openDeployForm F i m =
     indexFunction i m
       (\<lambda>e. Returns (m\<lparr>deployFunctionIndex := i, deployName := SuggestedName (requester e),
               deployForm := Some (formNew F (SuggestedName (requester e)) (minInt 72 (maxInt 48 (width m - 10)))),
               statusLine := Fmt ''Deploying %s. Press Esc to cancel.'' [BinaryName (requester e)]\<rparr>))"

text \<open>A key that adjusts the deployment of the selected function, if there is one.\<close>

definition onDeployment :: "(deploymentState \<Rightarrow> deploymentState) \<Rightarrow> 'f model \<Rightarrow> 'f model outcome" where
  "onDeployment f m =
     indexFunction (selectedFunction m) m
       (\<lambda>e. Returns (case deployed e of None \<Rightarrow> m | Some d \<Rightarrow> setFunction (selectedFunction m) (e\<lparr>deployed := Some (f d)\<rparr>) m))"

definition toggleKey :: "'f model \<Rightarrow> 'f model outcome" where
  "toggleKey m =
     indexFunction (selectedFunction m) m
       (\<lambda>e. Returns (case deployed e of
               None \<Rightarrow> m
             | Some d \<Rightarrow>
                 (let (d', en) = ToggleEnabled d
                  in (setFunction (selectedFunction m) (e\<lparr>deployed := Some d'\<rparr>) m)
                       \<lparr>statusLine := Lit (if en then ''Requests enabled.'' else ''Requests disabled.'')\<rparr>)))"

definition enterKey :: "'f Form \<Rightarrow> 'f model \<Rightarrow> 'f step" where
  "enterKey F m =
     indexFunction (selectedFunction m) m
       (\<lambda>e. if deployed e = None \<and> \<not> deploying e
            then (case openDeployForm F (selectedFunction m) m of Panics msg \<Rightarrow> Panics msg | Returns m' \<Rightarrow> Returns (m', FormCmd))
            else Returns (m, NoCmd))"

definition handleKey :: "'f Form \<Rightarrow> string \<Rightarrow> 'f model \<Rightarrow> 'f step" where
  "handleKey F key m =
     (if key = ''ctrl+c'' \<or> key = ''q'' then Returns (beginShutdown m)
      else if mphase m = phaseSetup then Returns (m, NoCmd)
      else if key = ''up'' \<or> key = ''k'' then noCmd (moveField (- 1) m)
      else if key = ''down'' \<or> key = ''j'' then noCmd (moveField 1 m)
      else if key = ''d''
      then Returns (if dozzleContainerID m = [] \<and> \<not> dozzleStarting m
                    then (m\<lparr>dozzleStarting := True, dozzleError := Lit [], statusLine := Lit ''Starting Dozzle...''\<rparr>, startDozzleCmd)
                    else (m, NoCmd))
      else if key = ''left'' \<or> key = ''h'' then noCmd (moveFunction (- 1) m)
      else if key = ''right'' \<or> key = ''l'' then noCmd (moveFunction 1 m)
      else if key = ''0'' then noCmd (toggleKey m)
      else if key = ''+'' \<or> key = ''='' then noCmd (onDeployment (AdjustSetting (selectedField m) 1) m)
      else if key = ''-'' \<or> key = ''_'' then noCmd (onDeployment (AdjustSetting (selectedField m) (- 1)) m)
      else if key = ''enter'' then enterKey F m
      else Returns (m, NoCmd))"

section \<open>Messages\<close>

text \<open>While the form is open it gets every message but three keys.\<close>

definition formStep :: "'f Form \<Rightarrow> 'f \<Rightarrow> Msg \<Rightarrow> 'f model \<Rightarrow> 'f step" where
  "formStep F form msg m =
     (let form' = formUpdate F msg form;
          m1 = m\<lparr>deployForm := Some form', deployName := formString F form'\<rparr>
      in if formCompleted F form'
         then (let name = strings_TrimSpace (formString F form');
                   i = deployFunctionIndex m;
                   m2 = m1\<lparr>deployForm := None, deployFunctionIndex := - 1\<rparr>
               in indexFunction i m2
                    (\<lambda>e. Returns ((setFunction i (e\<lparr>deploying := True, deployError := Lit []\<rparr>) m2)
                            \<lparr>statusLine := Fmt ''Deploying %s...'' [BinaryName (requester e)]\<rparr>,
                          Batch [FormCmd, deployFunctionCmd i (binaryPath e) name])))
         else Returns (m1, FormCmd))"

definition updateForm :: "'f Form \<Rightarrow> 'f \<Rightarrow> Msg \<Rightarrow> 'f model \<Rightarrow> 'f step" where
  "updateForm F form msg m =
     (case msg of
        KeyPressMsg key \<Rightarrow>
          (if key = ''ctrl+c'' \<or> key = ''q'' then Returns (beginShutdown m)
           else if key = ''esc''
           then Returns (m\<lparr>deployForm := None, deployFunctionIndex := - 1, statusLine := Lit ''Deployment cancelled.''\<rparr>, NoCmd)
           else formStep F form msg m)
      | _ \<Rightarrow> formStep F form msg m)"

definition onCompileDone :: "(string, string) fmap \<Rightarrow> string \<Rightarrow> goerr option \<Rightarrow> 'f model \<Rightarrow> 'f model \<times> Cmd" where
  "onCompileDone binaries output err m =
     (let m1 = m\<lparr>setupOutput := output, setupStream := Some (newRollingLog 10), stackStarting := True\<rparr>
      in case err of
           Some e \<Rightarrow> (m1\<lparr>setupErr := Some e, statusLine := Lit ''Compilation failed.'', stackStarting := False\<rparr>, NoCmd)
         | None \<Rightarrow>
             (m1\<lparr>mfunctions := map (\<lambda>e. e\<lparr>binaryPath := fmget [] binaries (BinaryName (requester e))\<rparr>) (mfunctions m1),
                 setupStatus := ''Starting the Servermore stack...'',
                 statusLine := Lit ''Building containers and waiting for the stack to answer...''\<rparr>, startStackCmd))"

definition onStackReady :: "string \<Rightarrow> bool \<Rightarrow> goerr option \<Rightarrow> 'f model \<Rightarrow> 'f model \<times> Cmd" where
  "onStackReady output started err m =
     (let m1 = m\<lparr>setupOutput := output, stackStarted := started, stackStarting := False, setupStream := None\<rparr>
      in case err of
           Some e \<Rightarrow> (m1\<lparr>setupErr := Some e, statusLine := Lit ''Stack startup failed.''\<rparr>, NoCmd)
         | None \<Rightarrow>
             (m1\<lparr>statusLine := Lit ''Stack started. Waiting for commander and gateway...'', setupPolls := 0\<rparr>, pollStackCmd))"

definition boolText :: "bool \<Rightarrow> string" where
  "boolText b = (if b then ''true'' else ''false'')"

definition onStackPoll :: "string \<Rightarrow> bool \<Rightarrow> bool \<Rightarrow> goerr option \<Rightarrow> 'f model \<Rightarrow> 'f model \<times> Cmd" where
  "onStackPoll output commanderReady gatewayReady err m =
     (let m1 = (if strings_TrimSpace output \<noteq> [] then m\<lparr>setupOutput := output\<rparr> else m)
      in case err of
           Some e \<Rightarrow> (m1\<lparr>setupErr := Some e, statusLine := Lit ''Stack log polling failed.''\<rparr>, NoCmd)
         | None \<Rightarrow>
             (if commanderReady \<and> gatewayReady
              then (m1\<lparr>mphase := phaseDashboard,
                       statusLine := Lit ''Stack is ready. Press Enter to deploy the selected function.''\<rparr>, dashboardTickCmd)
              else
                (let m2 = m1\<lparr>setupPolls := setupPolls m1 + 1,
                             statusLine := Fmt ''Waiting for services... commander=%t gateway=%t''
                               [boolText commanderReady, boolText gatewayReady]\<rparr>
                 in if 240 \<le> setupPolls m2
                    then (m2\<lparr>setupErr := Some (Errorf ''stack readiness timed out after 2 minutes'' [] None),
                             statusLine := Lit ''Stack startup timed out.''\<rparr>, NoCmd)
                    else (m2, pollTickCmd))))"

definition onDozzleStart :: "string \<Rightarrow> string \<Rightarrow> goerr option \<Rightarrow> 'f model \<Rightarrow> 'f model \<times> Cmd" where
  "onDozzleStart containerID url err m =
     (let m1 = m\<lparr>dozzleStarting := False\<rparr>
      in case err of
           Some e \<Rightarrow> (m1\<lparr>dozzleError := ErrText e, statusLine := Lit ''Failed to start Dozzle.''\<rparr>, NoCmd)
         | None \<Rightarrow>
             (m1\<lparr>dozzleContainerID := containerID, dozzleURL := url, dozzleError := Lit [],
                 statusLine := Lit ''Dozzle is running.''\<rparr>, NoCmd))"

text \<open>A deployment that succeeded starts its worker: a function is deployed exactly when it has one.\<close>

definition onDeployDone :: "int \<Rightarrow> string \<Rightarrow> string \<Rightarrow> goerr option \<Rightarrow> 'f model \<Rightarrow> 'f step" where
  "onDeployDone i name fid err m =
     indexFunction i m
       (\<lambda>e. Returns
          (case err of
             Some er \<Rightarrow>
               ((setFunction i (e\<lparr>deploying := False, deployError := ErrText er\<rparr>) m)
                  \<lparr>statusLine := Fmt ''Deploy %s failed.'' [BinaryName (requester e)]\<rparr>, NoCmd)
           | None \<Rightarrow>
               ((setFunction i (e\<lparr>deploying := False, deployed := Some (newDeploymentState name fid), deployError := Lit []\<rparr>) m)
                  \<lparr>statusLine := Fmt ''%s deployed as %q with function id %s.'' [BinaryName (requester e), name, fid]\<rparr>, NoCmd)))"

definition updateMain :: "'f Form \<Rightarrow> Msg \<Rightarrow> 'f model \<Rightarrow> 'f step" where
  "updateMain F msg m =
     (case msg of
        WindowSizeMsg w h \<Rightarrow> Returns (m\<lparr>width := maxInt 80 w, height := maxInt 24 h\<rparr>, NoCmd)
      | compileDoneMsg binaries output err \<Rightarrow> Returns (onCompileDone binaries output err m)
      | stackReadyMsg output started err \<Rightarrow> Returns (onStackReady output started err m)
      | stackPollMsg output c g err \<Rightarrow> Returns (onStackPoll output c g err m)
      | stackPollTickMsg \<Rightarrow> Returns (m, pollStackCmd)
      | dozzleStartMsg i url err \<Rightarrow> Returns (onDozzleStart i url err m)
      | deployDoneMsg i name fid err \<Rightarrow> onDeployDone i name fid err m
      | KeyPressMsg key \<Rightarrow> handleKey F key m
      | _ \<Rightarrow> Returns (m, NoCmd))"

definition updateQuitting :: "Msg \<Rightarrow> 'f model \<Rightarrow> 'f model \<times> Cmd" where
  "updateQuitting msg m =
     (case msg of
        stackShutdownDoneMsg err \<Rightarrow>
          (m\<lparr>statusLine := Lit (if err = None then ''Compose stack is down.'' else ''Compose stack shutdown failed.'')\<rparr>, Quit)
      | _ \<Rightarrow> (m, NoCmd))"

text \<open>What is not a tick.\<close>

definition updateRest :: "'f Form \<Rightarrow> Msg \<Rightarrow> 'f model \<Rightarrow> 'f step" where
  "updateRest F msg m =
     (if mphase m = phaseQuitting then Returns (updateQuitting msg m)
      else case deployForm m of
             Some form \<Rightarrow> updateForm F form msg m
           | None \<Rightarrow> updateMain F msg m)"

definition Update :: "'f Form \<Rightarrow> Msg \<Rightarrow> 'f model \<Rightarrow> 'f step" where
  "Update F msg m =
     (case msg of
        uiTickMsg \<Rightarrow>
          Returns (if mphase m = phaseSetup then (m\<lparr>spinnerIndex := (spinnerIndex m + 1) mod 4\<rparr>, uiTickCmd) else (m, NoCmd))
      | dashboardTickMsg \<Rightarrow> Returns (m, if mphase m = phaseDashboard then dashboardTickCmd else NoCmd)
      | _ \<Rightarrow> updateRest F msg m)"

text \<open>\<open>Shutdown\<close> waits for the workers: \<open>None\<close> when one of them does not return.\<close>

definition Shutdown :: "(deploymentState \<Rightarrow> bool) \<Rightarrow> 'f model \<Rightarrow> Shell \<Rightarrow> ('f model \<times> Shell) option" where
  "Shutdown returns m sh =
     (let m1 = m\<lparr>ctxCancelled := True,
               mfunctions := map (\<lambda>e. e\<lparr>deployed := map_option stopDeployment (deployed e)\<rparr>) (mfunctions m)\<rparr>
      in if list_ex (\<lambda>e. case deployed e of Some d \<Rightarrow> \<not> returns d | None \<Rightarrow> False) (mfunctions m1) then None
         else if \<not> stackStarted m1 then Some (m1, sh)
         else
           (let sh1 = (if dozzleContainerID m1 \<noteq> []
                       then fst (runCommand [''docker'', ''rm'', ''-f'', dozzleContainerID m1] sh) else sh)
            in Some (m1, fst (stopStack (rootDir m1) sh1))))"

section \<open>Reachable states\<close>

text \<open>The deployments that a command starts, and the states of the program together with the deployments
  that have not yet answered. Every message may come at any time, but an answer to a deployment comes
  once for each that was started.\<close>

fun deploysOf :: "Cmd \<Rightarrow> int list" where
  "deploysOf (deployFunctionCmd i path name) = [i]"
| "deploysOf (Batch cs) = concat (map deploysOf cs)"
| "deploysOf _ = []"

fun answers :: "Msg \<Rightarrow> int list" where
  "answers (deployDoneMsg i name fid err) = [i]"
| "answers _ = []"

definition possible :: "int list \<Rightarrow> Msg \<Rightarrow> bool" where
  "possible p msg \<longleftrightarrow> set (answers msg) \<subseteq> set p"

definition left :: "int list \<Rightarrow> Msg \<Rightarrow> int list" where
  "left p msg = (case answers msg of [] \<Rightarrow> p | i # _ \<Rightarrow> remove1 i p)"

inductive mreach :: "'f Form \<Rightarrow> 'f model \<Rightarrow> int list \<Rightarrow> bool" for F where
  start: "mreach F (newModel root) []"
| step: "mreach F m p \<Longrightarrow> possible p msg \<Longrightarrow> Update F msg m = Returns (m', c) \<Longrightarrow> mreach F m' (left p msg @ deploysOf c)"

text \<open>What holds in all of them: the cursor points at a function and at a setting, the form belongs to a
  function that is neither deployed nor being deployed, a deployment that has not answered belongs to a
  function that says so.\<close>

definition cursor_ok :: "'f model \<Rightarrow> bool" where
  "cursor_ok m \<longleftrightarrow> 0 \<le> selectedFunction m \<and> selectedFunction m < int (length (mfunctions m)) \<and>
     0 \<le> selectedField m \<and> selectedField m \<le> 2 \<and> 0 \<le> spinnerIndex m \<and> spinnerIndex m < 4 \<and>
     (mphase m = phaseQuitting \<longleftrightarrow> shuttingDown m) \<and> (ctxCancelled m \<longleftrightarrow> shuttingDown m)"

definition idle :: "functionEntry list \<Rightarrow> int \<Rightarrow> bool" where
  "idle es i \<longleftrightarrow> 0 \<le> i \<and> i < int (length es) \<and> deployed (es ! nat i) = None \<and> \<not> deploying (es ! nat i)"

definition busy :: "functionEntry list \<Rightarrow> int \<Rightarrow> bool" where
  "busy es i \<longleftrightarrow> 0 \<le> i \<and> i < int (length es) \<and> deployed (es ! nat i) = None \<and> deploying (es ! nat i)"

definition form_ok :: "'f model \<Rightarrow> bool" where
  "form_ok m \<longleftrightarrow> (deployForm m \<noteq> None \<longrightarrow> idle (mfunctions m) (deployFunctionIndex m))"

definition pend_ok :: "functionEntry list \<Rightarrow> int list \<Rightarrow> bool" where
  "pend_ok es p \<longleftrightarrow> distinct p \<and> (\<forall>i \<in> set p. busy es i)"

definition entry_ok :: "functionEntry \<Rightarrow> bool" where
  "entry_ok e \<longleftrightarrow> (case deployed e of None \<Rightarrow> True | Some d \<Rightarrow> \<not> deploying e \<and> settings_ok (settings d))"

definition minv :: "'f model \<Rightarrow> int list \<Rightarrow> bool" where
  "minv m p \<longleftrightarrow> cursor_ok m \<and> form_ok m \<and> pend_ok (mfunctions m) p \<and> list_all entry_ok (mfunctions m)"

text \<open>What an entry is replaced by decides what becomes of the other conditions.\<close>

lemma busy_update: "busy es j \<Longrightarrow> 0 \<le> i \<Longrightarrow> (nat i = nat j \<Longrightarrow> deployed e = None \<and> deploying e) \<Longrightarrow> busy (es[nat i := e]) j"
  by (cases "nat i = nat j") (auto simp: busy_def)

lemma idle_update: "idle es j \<Longrightarrow> 0 \<le> i \<Longrightarrow> i \<noteq> j \<Longrightarrow> idle (es[nat i := e]) j"
  by (auto simp: idle_def nth_list_update eq_nat_nat_iff)

lemma idle_not_busy: "idle es i \<Longrightarrow> \<not> busy es i"
  by (simp add: idle_def busy_def)

lemma pend_ok_other:
  assumes "pend_ok es p" and "0 \<le> i" and "i \<notin> set p"
  shows "pend_ok (es[nat i := e]) p"
  unfolding pend_ok_def
proof (intro conjI ballI)
  fix j assume j: "j \<in> set p"
  then have "nat i \<noteq> nat j" using assms by (auto simp: pend_ok_def busy_def eq_nat_nat_iff)
  with j assms show "busy (es[nat i := e]) j" by (auto simp: pend_ok_def intro!: busy_update)
qed (use assms in \<open>simp add: pend_ok_def\<close>)

lemma pend_ok_remove:
  assumes "pend_ok es p" and "0 \<le> i"
  shows "pend_ok (es[nat i := e]) (remove1 i p)"
proof -
  have "pend_ok es (remove1 i p)" "i \<notin> set (remove1 i p)" using assms(1) by (auto simp: pend_ok_def dest: notin_set_remove1)
  from pend_ok_other[OF this(1) assms(2) this(2)] show ?thesis .
qed

lemma pend_ok_deploy:
  assumes "pend_ok es p" and "idle es i"
  shows "pend_ok (es[nat i := e\<lparr>deploying := True, deployed := None\<rparr>]) (p @ [i])"
proof -
  have "0 \<le> i" "i \<notin> set p" "nat i < length es" using assms idle_not_busy by (auto simp: pend_ok_def idle_def)
  moreover from pend_ok_other[OF assms(1) this(1,2)] have "pend_ok (es[nat i := e\<lparr>deploying := True, deployed := None\<rparr>]) p" .
  ultimately show ?thesis by (auto simp: pend_ok_def busy_def)
qed

lemma entry_ok_update: "list_all entry_ok es \<Longrightarrow> entry_ok e \<Longrightarrow> list_all entry_ok (es[k := e])"
  by (auto simp: list_all_iff dest!: in_set_insert set_update_subset_insert[THEN subsetD])

section \<open>Steps keep the invariant\<close>

definition good :: "int list \<Rightarrow> 'f step \<Rightarrow> bool" where
  "good p s \<longleftrightarrow> (case s of Panics _ \<Rightarrow> False | Returns (m, c) \<Rightarrow> minv m (p @ deploysOf c))"

lemma good_Returns [simp]: "good p (Returns mc) \<longleftrightarrow> minv (fst mc) (p @ deploysOf (snd mc))"
  by (simp add: good_def split: prod.splits)

lemma minv_cong:
  assumes "minv m p" and "mfunctions m' = mfunctions m" and "deployForm m' = deployForm m"
    and "deployFunctionIndex m' = deployFunctionIndex m" and "cursor_ok m'"
  shows "minv m' p"
  using assms by (simp add: minv_def form_ok_def)

lemma minv_beginShutdown:
  assumes "minv m p"
  shows "good p (Returns (beginShutdown m))"
  using assms by (simp add: beginShutdown_def minv_def cursor_ok_def form_ok_def)

lemma index_selected:
  assumes "minv m p"
  shows "indexFunction (selectedFunction m) m k = k (mfunctions m ! nat (selectedFunction m))"
    and "entry_ok (mfunctions m ! nat (selectedFunction m))"
  using assms by (auto simp: indexFunction_def minv_def cursor_ok_def list_all_length)

lemma fieldCount_cases: "fieldCount e = 1 \<or> fieldCount e = 3"
  by (simp add: fieldCount_def)

lemma minv_moveField:
  assumes "minv m p"
  shows "good p (noCmd (moveField delta m))"
proof -
  have "minv (m\<lparr>selectedField := clampInt v 0 (fieldCount e - 1)\<rparr>) p" for v e
    using assms fieldCount_cases[of e] by (intro minv_cong[OF assms]) (auto simp: minv_def cursor_ok_def clampInt_def)
  then show ?thesis by (simp add: moveField_def index_selected(1)[OF assms] noCmd_def)
qed

lemma minv_moveFunction:
  assumes "minv m p"
  shows "good p (noCmd (moveFunction delta m))"
proof -
  let ?m = "m\<lparr>selectedFunction := clampInt (selectedFunction m + delta) 0 (int (length (mfunctions m)) - 1)\<rparr>"
  have m: "minv ?m p" using assms by (intro minv_cong[OF assms]) (auto simp: minv_def cursor_ok_def clampInt_def)
  have "minv (?m\<lparr>selectedField := clampInt v 0 (fieldCount e - 1)\<rparr>) p" for v e
    using m fieldCount_cases[of e] by (intro minv_cong[OF m]) (auto simp: minv_def cursor_ok_def clampInt_def)
  then show ?thesis
    by (simp add: moveFunction_def normalizeSelectedField_def noCmd_def index_selected(1)[OF m, simplified])
qed

text \<open>A key that changes the deployment of the selected function.\<close>

lemma minv_set_deployed:
  assumes "minv m p" and "deployForm m = None" and "deployed (mfunctions m ! nat (selectedFunction m)) = Some d"
    and "settings_ok (settings d) \<longrightarrow> settings_ok (settings d')"
  shows "minv (setFunction (selectedFunction m) ((mfunctions m ! nat (selectedFunction m))\<lparr>deployed := Some d'\<rparr>) m) p"
proof -
  let ?i = "selectedFunction m" let ?e = "mfunctions m ! nat ?i"
  have "entry_ok (?e\<lparr>deployed := Some d'\<rparr>)" using index_selected(2)[OF assms(1)] assms(3,4) by (simp add: entry_ok_def)
  moreover have "0 \<le> ?i" "?i \<notin> set p" using assms(1,3) by (auto simp: minv_def cursor_ok_def pend_ok_def busy_def)
  ultimately show ?thesis
    using assms(1,2) entry_ok_update pend_ok_other by (simp add: minv_def setFunction_def cursor_ok_def form_ok_def)
qed

lemma minv_onDeployment:
  assumes "minv m p" and "deployForm m = None" and "\<And>d. settings_ok (settings d) \<longrightarrow> settings_ok (settings (f d))"
  shows "good p (noCmd (onDeployment f m))"
  using assms(1) minv_set_deployed[OF assms(1,2) _ assms(3)]
  by (simp add: onDeployment_def index_selected(1)[OF assms(1)] noCmd_def split: option.splits)

lemma minv_toggleKey:
  assumes "minv m p" and "deployForm m = None"
  shows "good p (noCmd (toggleKey m))"
proof (cases "deployed (mfunctions m ! nat (selectedFunction m))")
  case None
  then show ?thesis using assms by (simp add: toggleKey_def index_selected(1)[OF assms(1)] noCmd_def)
next
  case (Some d)
  from minv_set_deployed[OF assms Some, of "d\<lparr>enabled := \<not> enabled d\<rparr>"] Some show ?thesis
    by (simp add: toggleKey_def index_selected(1)[OF assms(1)] noCmd_def ToggleEnabled_def minv_def cursor_ok_def form_ok_def)
qed

lemma minv_enterKey:
  assumes "minv m p" and "deployForm m = None"
  shows "good p (enterKey F m)"
proof -
  have "idle (mfunctions m) (selectedFunction m)"
    if "deployed (mfunctions m ! nat (selectedFunction m)) = None" "\<not> deploying (mfunctions m ! nat (selectedFunction m))"
    using assms that by (simp add: idle_def minv_def cursor_ok_def)
  then show ?thesis
    using assms by (auto simp: enterKey_def openDeployForm_def index_selected(1)[OF assms(1)] minv_def cursor_ok_def form_ok_def)
qed

lemma if_prop_intro: "P x \<Longrightarrow> P y \<Longrightarrow> P (if b then x else y)"
  by simp

lemma minv_handleKey:
  assumes "minv m p" and "deployForm m = None"
  shows "good p (handleKey F key m)"
proof -
  have "settings_ok (settings d) \<longrightarrow> settings_ok (settings (AdjustSetting f n d))" for f n d
    using AdjustSetting_ok by blast
  note adj = minv_onDeployment[OF assms this]
  have "minv (m\<lparr>dozzleStarting := True, dozzleError := Lit [], statusLine := t\<rparr>) p" for t
    using assms(1) by (intro minv_cong[OF assms(1)]) (simp_all add: minv_def cursor_ok_def)
  then have dz: "good p (Returns (if dozzleContainerID m = [] \<and> \<not> dozzleStarting m
      then (m\<lparr>dozzleStarting := True, dozzleError := Lit [], statusLine := Lit ''Starting Dozzle...''\<rparr>, startDozzleCmd)
      else (m, NoCmd)))" using assms(1) by simp
  have same: "good p (Returns (m, NoCmd))" using assms(1) by simp
  note keys = minv_beginShutdown[OF assms(1)] same dz minv_moveField[OF assms(1)] minv_moveFunction[OF assms(1)]
    minv_toggleKey[OF assms] minv_enterKey[OF assms] adj
  show ?thesis unfolding handleKey_def by (intro if_prop_intro[of "good p"] keys)
qed

lemma pend_ok_left: "pend_ok es p \<Longrightarrow> pend_ok es (left p msg)"
  by (auto simp: pend_ok_def left_def split: list.splits dest: notin_set_remove1)

lemma minv_left: "minv m p \<Longrightarrow> minv m (left p msg)"
  by (simp add: minv_def pend_ok_left)

lemma minv_formStep:
  assumes "minv m p" and "deployForm m = Some form"
  shows "good (left p msg) (formStep F form msg m)"
proof -
  let ?i = "deployFunctionIndex m" let ?es = "mfunctions m"
  have i: "idle ?es ?i" using assms by (simp add: minv_def form_ok_def)
  have p: "pend_ok ?es (left p msg)" using assms(1) pend_ok_left by (simp add: minv_def)
  let ?e = "?es ! nat ?i"
  have "?e\<lparr>deploying := True, deployError := Lit []\<rparr> = (?e\<lparr>deployError := Lit []\<rparr>)\<lparr>deploying := True, deployed := None\<rparr>"
    using i by (cases ?e) (simp add: idle_def)
  with pend_ok_deploy[OF p i, of "?e\<lparr>deployError := Lit []\<rparr>"]
  have "pend_ok (?es[nat ?i := ?e\<lparr>deploying := True, deployError := Lit []\<rparr>]) (left p msg @ [?i])" by simp
  moreover have "list_all entry_ok (?es[nat ?i := ?e\<lparr>deploying := True, deployError := Lit []\<rparr>])"
    using assms(1) i by (intro entry_ok_update) (simp_all add: minv_def entry_ok_def idle_def)
  ultimately show ?thesis
    using assms(1) i p
    by (auto simp: formStep_def Let_def indexFunction_def setFunction_def minv_def cursor_ok_def form_ok_def idle_def)
qed

lemma minv_onDeployDone:
  assumes "minv m p" and "deployForm m = None" and "i \<in> set p"
  shows "good (remove1 i p) (onDeployDone i name fid err m)"
proof -
  let ?es = "mfunctions m" let ?e = "?es ! nat i"
  have b: "busy ?es i" using assms by (simp add: minv_def pend_ok_def)
  have p: "pend_ok (?es[nat i := e]) (remove1 i p)" for e
    using assms(1) b by (intro pend_ok_remove) (simp_all add: minv_def busy_def)
  have "list_all entry_ok (?es[nat i := e])" if "entry_ok e" for e
    using assms(1) that by (intro entry_ok_update) (simp_all add: minv_def)
  moreover have "entry_ok (?e\<lparr>deploying := False, deployError := t\<rparr>)" for t using b by (simp add: entry_ok_def busy_def)
  moreover have "entry_ok (?e\<lparr>deploying := False, deployed := Some (newDeploymentState name fid), deployError := t\<rparr>)" for t
    by (simp add: entry_ok_def newDeploymentState_def settings_ok_def)
  ultimately show ?thesis
    using assms(1,2) b p
    by (auto simp: onDeployDone_def indexFunction_def setFunction_def minv_def cursor_ok_def form_ok_def busy_def
        split: option.splits)
qed

text \<open>Messages of the set-up touch neither cursor nor deployments.\<close>

lemma pend_ok_map:
  assumes "pend_ok es p" and "\<And>e. deployed (f e) = deployed e \<and> deploying (f e) = deploying e"
  shows "pend_ok (map f es) p"
  using assms by (auto simp: pend_ok_def busy_def)

lemma minv_setup:
  assumes "minv m p" and "deployForm m = None" and "mphase m \<noteq> phaseQuitting"
  shows "good p (Returns (onCompileDone binaries output err m))" "good p (Returns (onStackReady output started err m))"
    "good p (Returns (onStackPoll output c g err m))" "good p (Returns (onDozzleStart containerID url err m))"
proof -
  let ?f = "\<lambda>e. e\<lparr>binaryPath := fmget [] binaries (BinaryName (requester e))\<rparr>"
  have "list_all entry_ok (map ?f (mfunctions m))"
    using assms(1) by (auto simp: minv_def list_all_iff entry_ok_def split: option.splits)
  moreover have "pend_ok (map ?f (mfunctions m)) p" using assms(1) by (intro pend_ok_map) (simp_all add: minv_def)
  ultimately show "good p (Returns (onCompileDone binaries output err m))"
    using assms by (auto simp: onCompileDone_def Let_def minv_def cursor_ok_def form_ok_def split: option.splits)
qed (use assms in \<open>auto simp: onStackReady_def onStackPoll_def onDozzleStart_def Let_def minv_def cursor_ok_def form_ok_def
  split: option.splits\<close>)

lemma minv_updateMain:
  assumes "minv m p" and "deployForm m = None" and "mphase m \<noteq> phaseQuitting" and "possible p msg"
  shows "good (left p msg) (updateMain F msg m)"
proof (cases msg)
  case (deployDoneMsg i name fid err)
  then show ?thesis using minv_onDeployDone[OF assms(1,2)] assms(4) by (simp add: updateMain_def possible_def left_def)
next
  case (KeyPressMsg key)
  then show ?thesis using minv_handleKey[OF assms(1,2)] by (simp add: updateMain_def left_def)
next
  case (WindowSizeMsg w h)
  then show ?thesis using assms(1) by (simp add: updateMain_def left_def minv_def cursor_ok_def form_ok_def)
qed (use assms(1) minv_setup[OF assms(1-3)] in \<open>simp_all add: updateMain_def left_def del: good_Returns\<close>,
  use assms(1) in simp_all)

lemma minv_Update:
  assumes "minv m p" and "possible p msg"
  shows "good (left p msg) (Update F msg m)"
proof -
  have quit: "good (left p msg) (Returns (updateQuitting msg m))"
    using minv_left[OF assms(1), of msg] by (cases msg) (simp_all add: updateQuitting_def minv_def cursor_ok_def form_ok_def)
  have main: "good (left p msg) (updateRest F msg m)"
  proof (cases "mphase m = phaseQuitting")
    case False
    show ?thesis
    proof (cases "deployForm m")
      case None
      then show ?thesis using minv_updateMain[OF assms(1) None False assms(2)] False None by (simp add: updateRest_def)
    next
      case (Some form)
      have esc: "minv (m\<lparr>deployForm := None, deployFunctionIndex := - 1, statusLine := t\<rparr>) p" for t
        using assms(1) by (simp add: minv_def cursor_ok_def form_ok_def)
      show ?thesis
        using minv_formStep[OF assms(1) Some, of msg F] minv_beginShutdown[OF assms(1)] esc False Some
        by (cases msg) (simp_all add: updateRest_def updateForm_def left_def)
    qed
  qed (use quit in \<open>simp add: updateRest_def\<close>)
  show ?thesis
  proof (cases msg)
    case uiTickMsg
    then show ?thesis using assms(1) by (auto simp: Update_def left_def minv_def cursor_ok_def form_ok_def)
  next
    case dashboardTickMsg
    then show ?thesis using assms(1) by (simp add: Update_def left_def)
  qed (use main in \<open>simp_all add: Update_def\<close>)
qed

lemma mreach_minv: "mreach F m p \<Longrightarrow> minv m p"
proof (induction rule: mreach.induct)
  case (start root)
  show ?case
    by (simp add: newModel_def minv_def cursor_ok_def form_ok_def pend_ok_def catalog_def entry_ok_def)
next
  case (step m p msg m' c)
  from minv_Update[OF step.IH step.hyps(2), of F] step.hyps(3) show ?case by simp
qed

section \<open>Properties\<close>

text \<open>
  C28: The terminal program never panics. In every state that it reaches, by whatever messages and however
  the input form behaves, it has an answer to every message that can come, and in the state it goes to
  the cursor points at one of the functions, no function has two deployments under way or one besides a
  running worker, and no setting is negative.
\<close>

theorem tester_never_panics:
  assumes "mreach F m p" and "possible p msg"
  shows "\<exists>m' c. Update F msg m = Returns (m', c) \<and>
    0 \<le> selectedFunction m' \<and> selectedFunction m' < int (length (mfunctions m')) \<and>
    distinct (left p msg @ deploysOf c) \<and> (\<forall>i \<in> set (left p msg @ deploysOf c). busy (mfunctions m') i) \<and>
    list_all entry_ok (mfunctions m')"
proof -
  obtain m' c where u: "Update F msg m = Returns (m', c)" "minv m' (left p msg @ deploysOf c)"
    using minv_Update[OF mreach_minv[OF assms(1)] assms(2), of F] by (auto simp: good_def split: outcome.splits)
  then show ?thesis by (intro exI[of _ m'] exI[of _ c]) (simp add: minv_def cursor_ok_def pend_ok_def)
qed

text \<open>A form that keeps its name and is completed by the enter key.\<close>

definition example_form :: "(string \<times> bool) Form" where
  "example_form =
     \<lparr>formNew = (\<lambda>name _. (name, False)), formUpdate = (\<lambda>msg f. if msg = KeyPressMsg ''enter'' then (fst f, True) else f),
      formCompleted = snd, formString = fst\<rparr>"

theorem tester_never_panics_witness:
  "\<exists>m' c. Update example_form (KeyPressMsg ''enter'') (newModel ''/src'' :: (string \<times> bool) model) = Returns (m', c) \<and>
     0 \<le> selectedFunction m'"
  using tester_never_panics[OF mreach.start[of example_form "''/src''"], of "KeyPressMsg ''enter''"]
  by (auto simp: possible_def)

section \<open>Answers that come too early\<close>

fun mrun :: "'f Form \<Rightarrow> Msg list \<Rightarrow> 'f model \<Rightarrow> int list \<Rightarrow> ('f model \<times> int list) option" where
  "mrun F [] m p = Some (m, p)"
| "mrun F (msg # msgs) m p =
     (if possible p msg
      then (case Update F msg m of Panics _ \<Rightarrow> None | Returns (m', c) \<Rightarrow> mrun F msgs m' (left p msg @ deploysOf c))
      else None)"

lemma mrun_reach: "mreach F m p \<Longrightarrow> mrun F msgs m p = Some (m', p') \<Longrightarrow> mreach F m' p'"
proof (induction msgs arbitrary: m p)
  case (Cons msg msgs)
  then obtain m1 c where "possible p msg" "Update F msg m = Returns (m1, c)" "mrun F msgs m1 (left p msg @ deploysOf c) = Some (m', p')"
    by (auto split: if_splits outcome.splits)
  with Cons.IH[OF mreach.step[OF Cons.prems(1)]] show ?case by blast
qed simp

text \<open>A function that is being deployed without a deployment that could still answer.\<close>

definition orphaned :: "'f model \<Rightarrow> int list \<Rightarrow> int \<Rightarrow> bool" where
  "orphaned m p i \<longleftrightarrow> busy (mfunctions m) i \<and> i \<notin> set p"

lemma busy_other: "busy es i \<Longrightarrow> 0 \<le> j \<Longrightarrow> j \<noteq> i \<Longrightarrow> busy (es[nat j := e]) i"
  by (rule busy_update) (auto simp: busy_def eq_nat_nat_iff)

lemma formStep_busy:
  assumes "minv m p" and "deployForm m = Some form" and "busy (mfunctions m) i" and "formStep F form msg m = Returns (m', c)"
  shows "busy (mfunctions m') i \<and> i \<notin> set (deploysOf c)"
proof -
  let ?j = "deployFunctionIndex m"
  have j: "idle (mfunctions m) ?j" "?j \<noteq> i" using assms(1-3) idle_not_busy by (auto simp: minv_def form_ok_def)
  then show ?thesis using assms(3,4) busy_other[OF assms(3), of ?j]
    by (auto simp: formStep_def Let_def indexFunction_def setFunction_def idle_def split: if_splits)
qed

lemma onDeployDone_busy:
  assumes "busy (mfunctions m) i" and "j \<noteq> i" and "onDeployDone j name fid err m = Returns (m', c)"
  shows "busy (mfunctions m') i \<and> deploysOf c = []"
  using assms busy_other[OF assms(1), of j]
  by (auto simp: onDeployDone_def indexFunction_def setFunction_def split: if_splits option.splits)

lemma onDeployment_busy:
  assumes "busy (mfunctions m) i" and "onDeployment f m = Returns m' \<or> toggleKey m = Returns m'"
  shows "busy (mfunctions m') i"
  using assms busy_other[OF assms(1), of "selectedFunction m"]
  by (cases "selectedFunction m = i")
     (auto simp: onDeployment_def toggleKey_def indexFunction_def setFunction_def busy_def ToggleEnabled_def Let_def
       split: if_splits option.splits)

lemma moves_busy:
  assumes "moveField d m = Returns m' \<or> moveFunction d m = Returns m'"
  shows "mfunctions m = mfunctions m'"
  using assms by (auto simp: moveField_def moveFunction_def normalizeSelectedField_def indexFunction_def split: if_splits)

lemma noCmd_iff: "noCmd o' = Returns (m', c) \<longleftrightarrow> o' = Returns m' \<and> c = NoCmd"
  by (cases o') (auto simp: noCmd_def)

lemma enterKey_busy:
  assumes "enterKey F m = Returns (m', c)"
  shows "mfunctions m' = mfunctions m \<and> deploysOf c = []"
  using assms by (auto simp: enterKey_def openDeployForm_def indexFunction_def split: if_splits)

definition keeps :: "int \<Rightarrow> 'f step \<Rightarrow> bool" where
  "keeps i s \<longleftrightarrow> (\<forall>m' c. s = Returns (m', c) \<longrightarrow> busy (mfunctions m') i \<and> i \<notin> set (deploysOf c))"

lemma keeps_Returns: "keeps i (Returns mc) \<longleftrightarrow> busy (mfunctions (fst mc)) i \<and> i \<notin> set (deploysOf (snd mc))"
  by (cases mc) (simp add: keeps_def)

lemma handleKey_busy:
  assumes "busy (mfunctions m) i"
  shows "keeps i (handleKey F key m)"
proof -
  have shut: "keeps i (Returns (beginShutdown m))" using assms by (auto simp: keeps_def beginShutdown_def)
  have dep: "keeps i (noCmd (onDeployment f m))" "keeps i (noCmd (toggleKey m))" for f
    using onDeployment_busy[OF assms] by (auto simp: keeps_def noCmd_iff)
  have mv: "keeps i (noCmd (moveField d m))" "keeps i (noCmd (moveFunction d m))" for d
    using assms by (auto simp: keeps_def noCmd_iff dest!: moves_busy[OF disjI1] moves_busy[OF disjI2])
  have ent: "keeps i (enterKey F m)" using enterKey_busy assms by (fastforce simp: keeps_def)
  have dz: "keeps i (Returns (if b then (m\<lparr>dozzleStarting := True, dozzleError := Lit [], statusLine := t\<rparr>, startDozzleCmd)
      else (m, NoCmd)))" for b t using assms by (simp add: keeps_Returns)
  have id: "keeps i (Returns (m, NoCmd))" using assms by (simp add: keeps_Returns)
  show ?thesis unfolding handleKey_def by (intro if_prop_intro[of "keeps i"] shut dep mv ent dz id)
qed

lemma setup_busy:
  assumes "busy (mfunctions m) i"
  shows "busy (mfunctions (fst (onCompileDone binaries output err m))) i" "deploysOf (snd (onCompileDone binaries output err m)) = []"
    "mfunctions (fst (onStackReady output started err m)) = mfunctions m" "deploysOf (snd (onStackReady output started err m)) = []"
    "mfunctions (fst (onStackPoll output cr gr err m)) = mfunctions m" "deploysOf (snd (onStackPoll output cr gr err m)) = []"
    "mfunctions (fst (onDozzleStart containerID url err m)) = mfunctions m" "deploysOf (snd (onDozzleStart containerID url err m)) = []"
  using assms
  by (auto simp: onCompileDone_def onStackReady_def onStackPoll_def onDozzleStart_def busy_def Let_def split: option.splits)

lemma updateMain_busy:
  assumes "busy (mfunctions m) i" and "i \<notin> set (answers msg)"
  shows "keeps i (updateMain F msg m)"
proof (cases msg)
  case (deployDoneMsg j name fid err)
  then show ?thesis using onDeployDone_busy[OF assms(1), of j name fid err] assms(2)
    by (fastforce simp: updateMain_def keeps_def)
next
  case (KeyPressMsg key)
  then show ?thesis using handleKey_busy[OF assms(1)] by (simp add: updateMain_def)
qed (use assms(1) setup_busy[OF assms(1)] in \<open>simp_all add: updateMain_def keeps_Returns\<close>)

lemma Update_busy:
  assumes "minv m p" and "busy (mfunctions m) i" and "i \<notin> set (answers msg) \<or> deployForm m \<noteq> None \<and> mphase m \<noteq> phaseQuitting"
  shows "keeps i (Update F msg m)"
proof -
  have quit: "keeps i (Returns (updateQuitting msg m))"
    using assms(2) by (cases msg) (simp_all add: keeps_Returns updateQuitting_def)
  have form: "keeps i (updateForm F f msg m)" if f: "deployForm m = Some f" for f
  proof -
    have fs: "keeps i (formStep F f msg m)" using formStep_busy[OF assms(1) f assms(2)] by (simp add: keeps_def)
    show ?thesis using fs assms(2) by (cases msg) (simp_all add: updateForm_def keeps_Returns beginShutdown_def)
  qed
  have rest: "keeps i (updateRest F msg m)"
    using quit form assms(3) updateMain_busy[OF assms(2), of msg F] by (auto simp: updateRest_def split: option.splits)
  show ?thesis
  proof (cases msg)
    case uiTickMsg
    then show ?thesis using assms(2) by (simp add: Update_def keeps_Returns)
  next
    case dashboardTickMsg
    then show ?thesis using assms(2) by (simp add: Update_def keeps_Returns)
  qed (use rest in \<open>simp_all add: Update_def\<close>)
qed

lemma orphaned_step:
  assumes "minv m p" and "orphaned m p i" and "possible p msg" and "Update F msg m = Returns (m', c)"
  shows "orphaned m' (left p msg @ deploysOf c) i"
proof -
  have "i \<notin> set (answers msg)" using assms(2,3) by (auto simp: orphaned_def possible_def)
  then have "keeps i (Update F msg m)" using Update_busy[OF assms(1)] assms(2) by (simp add: orphaned_def)
  then show ?thesis using assms(2,4) by (auto simp: keeps_def orphaned_def left_def split: list.splits dest: notin_set_remove1)
qed

lemma orphaned_run:
  assumes "mreach F m p" and "orphaned m p i" and "mrun F msgs m p = Some (m', p')"
  shows "orphaned m' p' i"
  using assms
proof (induction msgs arbitrary: m p)
  case (Cons msg msgs)
  then obtain m1 c where s: "possible p msg" "Update F msg m = Returns (m1, c)"
    "mrun F msgs m1 (left p msg @ deploysOf c) = Some (m', p')"
    by (auto split: if_splits outcome.splits)
  from Cons.IH[OF mreach.step[OF Cons.prems(1) s(1,2)] orphaned_step[OF mreach_minv[OF Cons.prems(1)] Cons.prems(2) s(1,2)] s(3)]
  show ?case .
qed simp

text \<open>
  C31: An answer that comes while the form is open is lost for good. When the answer to the deployment of a
  function arrives while the form for another function is open, the form swallows it: whatever happens
  from then on, the function stays marked as being deployed, has no worker, and cannot be deployed again.
\<close>

theorem early_answer_lost:
  assumes "mreach F m p" and "deployForm m \<noteq> None" and "mphase m \<noteq> phaseQuitting" and "i \<in> set p"
    and "mrun F (deployDoneMsg i name fid err # msgs) m p = Some (m', p')"
  shows "orphaned m' p' i"
proof -
  let ?msg = "deployDoneMsg i name fid err"
  note inv = mreach_minv[OF assms(1)]
  have b: "busy (mfunctions m) i" "distinct p" using inv assms(4) by (auto simp: minv_def pend_ok_def)
  have pos: "possible p ?msg" using assms(4) by (simp add: possible_def)
  obtain m1 c where s: "Update F ?msg m = Returns (m1, c)" "mrun F msgs m1 (left p ?msg @ deploysOf c) = Some (m', p')"
    using assms(5) by (auto split: if_splits outcome.splits)
  have "keeps i (Update F ?msg m)" using Update_busy[OF inv b(1)] assms(2,3) by blast
  then have "orphaned m1 (left p ?msg @ deploysOf c) i" using s(1) b(2) by (auto simp: keeps_def orphaned_def left_def)
  from orphaned_run[OF mreach.step[OF assms(1) pos s(1)] this s(2)] show ?thesis .
qed

text \<open>The set-up, the deployment of the first function, and the form of the second one.\<close>

definition example_msgs :: "Msg list" where
  "example_msgs =
     [compileDoneMsg fmempty [] None, stackReadyMsg [] True None, stackPollMsg [] True True None,
      KeyPressMsg ''enter'', KeyPressMsg ''enter'', KeyPressMsg ''right'', KeyPressMsg ''enter'']"

theorem early_answer_lost_witness:
  "\<exists>m p m' p'. mrun example_form example_msgs (newModel ''/src'') [] = Some (m, p) \<and>
     mrun example_form [deployDoneMsg 0 ''hello-demo'' ''7'' None, KeyPressMsg ''esc''] m p = Some (m', p') \<and> orphaned m' p' 0"
proof -
  have "case mrun example_form example_msgs (newModel ''/src'') [] of
      Some (m, p) \<Rightarrow> deployForm m \<noteq> None \<and> mphase m \<noteq> phaseQuitting \<and> 0 \<in> set p \<and>
        mrun example_form [deployDoneMsg 0 ''hello-demo'' ''7'' None, KeyPressMsg ''esc''] m p \<noteq> None
    | None \<Rightarrow> False" by code_simp
  then obtain m p m' p' where r: "mrun example_form example_msgs (newModel ''/src'') [] = Some (m, p)"
    "deployForm m \<noteq> None" "mphase m \<noteq> phaseQuitting" "0 \<in> set p"
    "mrun example_form [deployDoneMsg 0 ''hello-demo'' ''7'' None, KeyPressMsg ''esc''] m p = Some (m', p')"
    by (auto simp del: mrun.simps split: option.splits prod.splits)
  from early_answer_lost[OF mrun_reach[OF mreach.start r(1)] r(2-5)] r show ?thesis by blast
qed

section \<open>Commands in the background\<close>

text \<open>What the library does with a command: it runs the function behind it and gives its result back as a
  message. The model passed is the one the command was made in.\<close>

record ExecEnv =
  xMkdirErr :: "goerr option"
  xErrText :: "goerr \<Rightarrow> string"
  xStream :: "string list \<Rightarrow> StreamEnv"
  xCtxEnded :: bool
  xProbe :: "string \<Rightarrow> int option"
  xNano :: int
  xDeploy :: DeployEnv

fun execCmd :: "ExecEnv \<Rightarrow> 'f model \<Rightarrow> Cmd \<Rightarrow> Shell \<Rightarrow> Shell \<times> Msg list" where
  "execCmd x m uiTickCmd sh = (sh, [uiTickMsg])"
| "execCmd x m dashboardTickCmd sh = (sh, [dashboardTickMsg])"
| "execCmd x m compileFunctionsCmd sh =
     (let (sh1, binaries, output, err) = compileFunctions (xMkdirErr x) (rootDir m) (requesters m) sh
      in (sh1, [compileDoneMsg (case binaries of None \<Rightarrow> fmempty | Some b \<Rightarrow> b) output err]))"
| "execCmd x m startStackCmd sh =
     (let (sh1, _, output, started, err) = startStack (xErrText x) (xStream x) (xCtxEnded x) (rootDir m) (setupStream m) sh
      in (sh1, [stackReadyMsg output started err]))"
| "execCmd x m pollStackCmd sh =
     (let (sh1, output, c, g, err) = pollStack (xProbe x) (rootDir m) sh in (sh1, [stackPollMsg output c g err]))"
| "execCmd x m pollTickCmd sh = (sh, [stackPollTickMsg])"
| "execCmd x m startDozzleCmd sh =
     (let (sh1, containerID, url, err) = startDozzle (xNano x) sh in (sh1, [dozzleStartMsg containerID url err]))"
| "execCmd x m (deployFunctionCmd i path name) sh =
     (case deployFunction (xDeploy x) path name of
        Panics _ \<Rightarrow> (sh, [])
      | Returns (Inl err) \<Rightarrow> (sh, [deployDoneMsg i name [] (Some err)])
      | Returns (Inr fid) \<Rightarrow> (sh, [deployDoneMsg i name fid None]))"
| "execCmd x m shutdownStackCmd sh = (let (sh1, err) = stopStack (rootDir m) sh in (sh1, [stackShutdownDoneMsg err]))"
| "execCmd x m (Batch cs) sh =
     fold (\<lambda>c (sh1, ms). let (sh2, ms2) = execCmd x m c sh1 in (sh2, ms @ ms2)) cs (sh, [])"
| "execCmd x m _ sh = (sh, [])"

text \<open>The messages of a command are handled one after the other; what the commands they return send is
  handled next, as long as \<open>n\<close> allows. Ticks are left out: they only keep the display going.\<close>

fun isTick :: "Msg \<Rightarrow> bool" where
  "isTick uiTickMsg = True"
| "isTick dashboardTickMsg = True"
| "isTick _ = False"

fun settle :: "nat \<Rightarrow> ExecEnv \<Rightarrow> 'f Form \<Rightarrow> 'f model \<Rightarrow> Cmd \<Rightarrow> Shell \<Rightarrow> ('f model \<times> Shell) outcome" where
  "settle 0 x F m c sh = Returns (m, sh)"
| "settle (Suc n) x F m c sh =
     (let (sh1, msgs) = execCmd x m c sh
      in case filter (\<lambda>msg. \<not> isTick msg) msgs of
           [] \<Rightarrow> Returns (m, sh1)
         | msg # _ \<Rightarrow>
             (case Update F msg m of
                Panics e \<Rightarrow> Panics e
              | Returns (m1, c1) \<Rightarrow> settle n x F m1 c1 sh1))"

lemma deployFunction_returns: "\<exists>r. deployFunction env path name = Returns r"
proof -
  have "\<exists>t. compactText s 180 = Returns t" for s using compactText_bound[of 180 s] by auto
  then obtain f where f: "\<And>s. compactText s 180 = Returns (f s)" by metis
  show ?thesis unfolding deployFunction_def f by (simp split: sum.split option.split)
qed

lemma compileLoop_ok:
  assumes "\<And>h args. snd (answer sh h args) = None"
  shows "\<exists>bs out. compileLoop dir rs binaries logs sh =
    (sh\<lparr>ran := ran sh @ map (\<lambda>r. [''go'', ''build'', ''-o'', filepath_Join [dir, BinaryName r], ''./test/functions/'' @ BinaryName r]) rs\<rparr>,
     Some bs, out, None)"
  using assms
proof (induction rs arbitrary: binaries logs sh)
  case (Cons r rs)
  let ?args = "[''go'', ''build'', ''-o'', filepath_Join [dir, BinaryName r], ''./test/functions/'' @ BinaryName r]"
  have a: "snd (answer (sh\<lparr>ran := ran sh @ [?args]\<rparr>) h args) = None" for h args using Cons.prems by simp
  obtain out where o: "answer sh (ran sh) ?args = (out, None)" using Cons.prems[of "ran sh" ?args] by (metis prod.collapse)
  show ?case using Cons.IH[OF a] o by (simp add: Let_def)
qed simp

text \<open>A shell in which every command succeeds.\<close>

definition obliging :: "Shell \<Rightarrow> bool" where
  "obliging sh \<longleftrightarrow> (\<forall>h args. snd (answer sh h args) = None)"

lemma startStack_obliging:
  assumes "obliging sh" and "\<And>args. streamOk (senv args)"
  shows "\<exists>sh' l out. startStack errText senv ctxEnded root logs sh = (sh', l, out, True, None) \<and> obliging sh'"
  using assms
  by (simp add: startStack_def runCommand_def runCommandStream_eq obliging_def split_beta Let_def)

lemma pollStack_obliging:
  assumes "obliging sh"
  shows "\<exists>sh' out. pollStack probe root sh = (sh', out, checkHTTPReady probe (commanderURL @ heartbeatPath),
    checkHTTPReady probe (gatewayURL @ heartbeatPath), None)"
  using assms by (simp add: pollStack_def runCommand_def obliging_def split_beta Let_def)

lemma compile_obliging:
  assumes "obliging sh"
  shows "\<exists>sh' bs out. compileFunctions None root catalog sh = (sh', Some bs, out, None) \<and> obliging sh' \<and>
    (\<forall>r. fmlookup bs (BinaryName r) = Some (filepath_Join [filepath_Join [root, ''tmp'', tmpFunctions], BinaryName r]))"
proof -
  obtain bs out where c: "compileFunctions None root catalog sh =
      (sh\<lparr>ran := ran sh @ map (\<lambda>r. [''go'', ''build'', ''-o'',
         filepath_Join [filepath_Join [root, ''tmp'', tmpFunctions], BinaryName r], ''./test/functions/'' @ BinaryName r]) catalog\<rparr>,
       Some bs, out, None)"
    using compileLoop_ok[of sh "filepath_Join [root, ''tmp'', tmpFunctions]" catalog fmempty "[]"] assms
    by (auto simp: compileFunctions_def obliging_def Let_def)
  then show ?thesis using compileFunctions_catalog[OF c] assms by (auto simp: obliging_def)
qed

text \<open>
  C32: The set-up gets to the dashboard. When every command succeeds and both services answer, the program
  that executes its own commands goes from its initial state through compiling, starting and polling to
  the dashboard in four rounds, the stack counts as started, and every function has the path of the
  binary that was compiled for it.
\<close>

theorem setup_reaches_dashboard:
  fixes F :: "'f Form"
  assumes "obliging sh" and "\<And>args. streamOk (xStream x args)" and "xMkdirErr x = None"
    and "checkHTTPReady (xProbe x) (commanderURL @ heartbeatPath)" and "checkHTTPReady (xProbe x) (gatewayURL @ heartbeatPath)"
  shows "\<exists>m sh'. settle (n + 4) x F (newModel root) initCmd sh = Returns (m, sh') \<and> mphase m = phaseDashboard \<and>
    stackStarted m \<and> setupErr m = None \<and>
    map (\<lambda>e. (requester e, binaryPath e)) (mfunctions m) =
      map (\<lambda>r. (r, filepath_Join [filepath_Join [root, ''tmp'', tmpFunctions], BinaryName r])) catalog"
proof -
  let ?m0 = "newModel root :: 'f model"
  have rq: "requesters ?m0 = catalog" "rootDir ?m0 = root" by (simp_all add: requesters_def newModel_def comp_def)
  obtain sh1 bs out where c: "compileFunctions None root catalog sh = (sh1, Some bs, out, None)" "obliging sh1"
    "\<And>r. fmlookup bs (BinaryName r) = Some (filepath_Join [filepath_Join [root, ''tmp'', tmpFunctions], BinaryName r])"
    using compile_obliging[OF assms(1)] by blast
  have e1: "execCmd x ?m0 initCmd sh = (sh1, [uiTickMsg, compileDoneMsg bs out None])"
    using c(1) assms(3) by (simp add: initCmd_def rq)
  let ?m1 = "fst (onCompileDone bs out None ?m0)"
  have u1: "Update F (compileDoneMsg bs out None) ?m0 = Returns (?m1, startStackCmd)"
    by (simp add: Update_def updateRest_def updateMain_def newModel_def onCompileDone_def Let_def)
  obtain sh2 l out2 where s: "startStack (xErrText x) (xStream x) (xCtxEnded x) (rootDir ?m1) (setupStream ?m1) sh1 =
      (sh2, l, out2, True, None)" "obliging sh2"
    using startStack_obliging[OF c(2), of "xStream x"] assms(2) by blast
  let ?m2 = "fst (onStackReady out2 True None ?m1)"
  have u2: "Update F (stackReadyMsg out2 True None) ?m1 = Returns (?m2, pollStackCmd)"
    by (simp add: Update_def updateRest_def updateMain_def newModel_def onCompileDone_def onStackReady_def Let_def)
  obtain sh3 out3 where p: "pollStack (xProbe x) (rootDir ?m2) sh2 = (sh3, out3, True, True, None)"
    using pollStack_obliging[OF s(2), of "xProbe x" "rootDir ?m2"] assms(4,5) by auto
  let ?m3 = "fst (onStackPoll out3 True True None ?m2)"
  have u3: "Update F (stackPollMsg out3 True True None) ?m2 = Returns (?m3, dashboardTickCmd)"
    by (simp add: Update_def updateRest_def updateMain_def newModel_def onCompileDone_def onStackReady_def onStackPoll_def Let_def)
  have "settle (n + 4) x F ?m0 initCmd sh = Returns (?m3, sh3)"
    by (simp add: eval_nat_numeral e1 u1 s(1) u2 p u3)
  moreover have "map (\<lambda>e. (requester e, binaryPath e)) (mfunctions ?m3) =
      map (\<lambda>r. (r, filepath_Join [filepath_Join [root, ''tmp'', tmpFunctions], BinaryName r])) catalog"
    using c(3) by (simp add: onStackPoll_def onStackReady_def onCompileDone_def newModel_def fmget_def Let_def comp_def)
  ultimately show ?thesis
    by (simp add: onStackPoll_def onStackReady_def onCompileDone_def newModel_def Let_def)
qed

definition example_exec :: ExecEnv where
  "example_exec =
     \<lparr>xMkdirErr = None, xErrText = (\<lambda>_. []), xStream = (\<lambda>_. quietStream), xCtxEnded = False, xProbe = (\<lambda>_. Some 200), xNano = 5,
      xDeploy = \<lparr>readFile = (\<lambda>_. Inr [1]), nameErr = None, partErr = None, payloadErr = None, closeErr = None, buildErr = None,
        upload = (\<lambda>_. Inr \<lparr>daStatusCode = 201, daStatus = ''201 Created'', daBody = ([], None)\<rparr>),
        decodeCreated = (\<lambda>_. Inr (7, ''f''))\<rparr>\<rparr>"

theorem setup_reaches_dashboard_witness:
  "\<exists>m sh'. settle 4 example_exec example_form (newModel ''/src'') initCmd \<lparr>ran = [], answer = (\<lambda>_ _. ([], None))\<rparr> =
      Returns (m, sh') \<and> mphase m = phaseDashboard \<and> stackStarted m"
proof -
  have "obliging \<lparr>ran = [], answer = (\<lambda>_ _. ([], None))\<rparr>" by (simp add: obliging_def)
  moreover have "streamOk (xStream example_exec args)" for args by (simp add: example_exec_def streamOk_def quietStream_def)
  moreover have "xMkdirErr example_exec = None" "checkHTTPReady (xProbe example_exec) (commanderURL @ heartbeatPath)"
    "checkHTTPReady (xProbe example_exec) (gatewayURL @ heartbeatPath)"
    by (simp_all add: example_exec_def checkHTTPReady_def)
  ultimately show ?thesis
    using setup_reaches_dashboard[of "\<lparr>ran = [], answer = (\<lambda>_ _. ([], None))\<rparr>" example_exec 0 example_form "''/src''"]
    by auto
qed

end
