(* ===== verification/TesterView.thy ===== *)
theory TesterView
  imports TesterModel
begin

text \<open>
  What the terminal program shows (\<open>View\<close>, the \<open>render\<close> methods and the styles of \<open>servermore-tester/model.go\<close>), and
  the program as a whole (\<open>run.go\<close>).

  The library that puts a style around a text, places it on the screen or joins texts is a parameter
  (\<open>Screen\<close>), as is the text of an error or of a format. A view is a text, or a panic when an index is out of
  range.
\<close>

section \<open>Styles\<close>

record Border =
  boTop :: string
  boBottom :: string
  boLeft :: string
  boRight :: string
  boTopLeft :: string
  boTopRight :: string
  boBottomLeft :: string
  boBottomRight :: string
  boMiddleLeft :: string
  boMiddleRight :: string
  boMiddle :: string
  boMiddleTop :: string
  boMiddleBottom :: string

definition appBorder :: Border where
  "appBorder =
     \<lparr>boTop = ''-'', boBottom = ''-'', boLeft = ''|'', boRight = ''|'', boTopLeft = ''+'', boTopRight = ''+'',
      boBottomLeft = ''+'', boBottomRight = ''+'', boMiddleLeft = ''|'', boMiddleRight = ''|'', boMiddle = ''-'',
      boMiddleTop = ''+'', boMiddleBottom = ''+''\<rparr>"

definition spinnerFrames :: "string list" where
  "spinnerFrames = [''|'', ''/'', ''-'', [CHR 0x5C]]"

record Style =
  stBold :: bool
  stForeground :: string
  stBackground :: string
  stPadding :: "int \<times> int"
  stBorder :: "(Border \<times> string) option"

definition NewStyle :: Style where
  "NewStyle = \<lparr>stBold = False, stForeground = [], stBackground = [], stPadding = (0, 0), stBorder = None\<rparr>"

record viewStyles =
  sApp :: Style
  sPanel :: Style
  sTitle :: Style
  sMuted :: Style
  sStatus :: Style
  sHelp :: Style
  sError :: Style
  sOutput :: Style
  sSelector :: Style
  sSelectorSelected :: Style
  sFunctionPanel :: Style
  sSectionTitle :: Style
  sFunctionTitle :: Style
  sFieldLabel :: Style
  sFieldValue :: Style
  sSelectedField :: Style

definition newStyles :: viewStyles where
  "newStyles =
     \<lparr>sApp = NewStyle\<lparr>stPadding := (1, 2)\<rparr>,
      sPanel = NewStyle\<lparr>stBorder := Some (appBorder, ''63''), stPadding := (1, 2)\<rparr>,
      sTitle = NewStyle\<lparr>stBold := True, stForeground := ''86''\<rparr>,
      sMuted = NewStyle\<lparr>stForeground := ''246''\<rparr>,
      sStatus = NewStyle\<lparr>stForeground := ''229'', stBackground := ''24'', stPadding := (0, 1)\<rparr>,
      sHelp = NewStyle\<lparr>stForeground := ''243''\<rparr>,
      sError = NewStyle\<lparr>stForeground := ''203'', stBold := True\<rparr>,
      sOutput = NewStyle\<lparr>stForeground := ''250''\<rparr>,
      sSelector = NewStyle\<lparr>stForeground := ''246'', stPadding := (0, 1)\<rparr>,
      sSelectorSelected = NewStyle\<lparr>stForeground := ''16'', stBackground := ''86'', stBold := True, stPadding := (0, 1)\<rparr>,
      sFunctionPanel = NewStyle\<lparr>stBorder := Some (appBorder, ''86''), stPadding := (1, 1)\<rparr>,
      sSectionTitle = NewStyle\<lparr>stBold := True, stForeground := ''111''\<rparr>,
      sFunctionTitle = NewStyle\<lparr>stBold := True, stForeground := ''111''\<rparr>,
      sFieldLabel = NewStyle\<lparr>stForeground := ''246''\<rparr>,
      sFieldValue = NewStyle\<lparr>stForeground := ''229''\<rparr>,
      sSelectedField = NewStyle\<lparr>stForeground := ''16'', stBackground := ''86'', stBold := True\<rparr>\<rparr>"

text \<open>
  The library: a style with an optional width around a text, a text in the middle of the screen, texts
  side by side, the view of the form, and the text of a message.
\<close>

record 'f Screen =
  scRender :: "Style \<Rightarrow> int option \<Rightarrow> string \<Rightarrow> string"
  scPlace :: "int \<Rightarrow> int \<Rightarrow> string \<Rightarrow> string"
  scJoinHorizontal :: "string list \<Rightarrow> string"
  scForm :: "'f \<Rightarrow> string"
  scText :: "gotext \<Rightarrow> string"

abbreviation styled :: "'f Screen \<Rightarrow> (viewStyles \<Rightarrow> Style) \<Rightarrow> viewStyles \<Rightarrow> string \<Rightarrow> string" where
  "styled sc f styles s \<equiv> scRender sc (f styles) None s"

abbreviation lines :: "string list \<Rightarrow> string" where
  "lines ls \<equiv> strings_Join ls [CHR 0x0A]"

definition strings_ToUpper :: "string \<Rightarrow> string" where
  "strings_ToUpper s = map (\<lambda>c. let n = of_char c :: int in if 97 \<le> n \<and> n \<le> 122 then char_of (n - 32) else c) s"

text \<open>What the requesters say about themselves.\<close>

fun Description :: "Requester \<Rightarrow> string" where
  "Description helloRequester = ''Simple greeting JSON responder with a single route.''"
| "Description routesRequester = ''Multi-route function exercising echo, math, sleep, and teapot paths.''"
| "Description echoRequester = ''Reflects request method, headers, and body across multiple routes.''"
| "Description externalRequester = ''Checks health or fetches a todo from the configured upstream API.''"
| "Description counterRequester = ''Stateful counter with count, peek, reset, and slow paths.''"

section \<open>Views\<close>

definition renderQuittingView :: "'f Screen \<Rightarrow> viewStyles \<Rightarrow> 'f model \<Rightarrow> string" where
  "renderQuittingView sc styles m =
     (let body' = [styled sc sTitle styles ''Servermore Tester'', [],
                   styled sc sSectionTitle styles ''Compose stack is going down...'',
                   styled sc sMuted styles ''Please wait while Docker Compose stops the stack.''];
          content = scRender sc (sPanel styles) (Some (maxInt 60 (minInt 100 (width m - 8)))) (lines body')
      in scPlace sc (width m) (height m) content)"

definition renderSetupView :: "'f Screen \<Rightarrow> viewStyles \<Rightarrow> 'f model \<Rightarrow> string outcome" where
  "renderSetupView sc styles m =
     (if \<not> (0 \<le> spinnerIndex m \<and> spinnerIndex m < int (length spinnerFrames)) then Panics ''index out of range''
      else
        (let spinner = spinnerFrames ! nat (spinnerIndex m);
             output = (case (stackStarting m, setupStream m) of (True, Some l) \<Rightarrow> logSnapshot l | _ \<Rightarrow> setupOutput m);
             body' = [styled sc sTitle styles ''Servermore Tester'', [],
                      styled sc sSectionTitle styles (spinner @ '' '' @ setupStatus m),
                      styled sc sMuted styles (scText sc (statusLine m))];
             body1 = (case setupErr m of
                        None \<Rightarrow> body'
                      | Some e \<Rightarrow> body' @ [[], styled sc sError styles (''Error: '' @ scText sc (ErrText e))]);
             finish = (\<lambda>b. scPlace sc (width m) (height m)
                         (scRender sc (sPanel styles) (Some (maxInt 90 (minInt 140 (width m - 4))))
                           (lines (b @ [[], styled sc sHelp styles ''q quits'']))))
         in if strings_TrimSpace output \<noteq> []
            then (case compactText output 800 of
                    Panics msg \<Rightarrow> Panics msg
                  | Returns t \<Rightarrow>
                      Returns (finish (body1 @ [[], styled sc sHelp styles ''Recent command output:'',
                        scRender sc (sOutput styles) (Some (maxInt 60 (width m - 14))) t])))
            else Returns (finish body1)))"

definition renderDeployView :: "'f Screen \<Rightarrow> viewStyles \<Rightarrow> 'f \<Rightarrow> 'f model \<Rightarrow> string outcome" where
  "renderDeployView sc styles form m =
     indexFunction (deployFunctionIndex m) m
       (\<lambda>e. let sections = [styled sc sTitle styles ''Deploy Function'', [],
                 styled sc sMuted styles (''Binary: '' @ BinaryName (requester e)),
                 styled sc sMuted styles (Description (requester e)), [],
                 strings_TrimSpace (scForm sc form), [],
                 styled sc sHelp styles ''enter submits | esc cancels''];
                content = scRender sc (sPanel styles) (Some (maxInt 60 (minInt 90 (width m - 8)))) (lines sections)
            in Returns (scPlace sc (width m) (height m) content))"

definition grafanaURL :: string where
  "grafanaURL = ''http://127.0.0.1:3000''"

definition renderDozzleStatus :: "'f Screen \<Rightarrow> viewStyles \<Rightarrow> 'f model \<Rightarrow> string" where
  "renderDozzleStatus sc styles m =
     (let button = (if dozzleStarting m then ''[ Starting Dozzle... ]''
                    else if dozzleContainerID m \<noteq> [] then ''[ Dozzle running ]''
                    else ''[ d Start Dozzle ]'');
          url = (if dozzleURL m \<noteq> [] then dozzleURL m else ''not started'');
          line = styled sc sFieldLabel styles ''Dozzle: '' @ styled sc sSelectedField styles button @
                 styled sc sFieldLabel styles '' | URL: '' @ styled sc sFieldValue styles url;
          line1 = (if scText sc (dozzleError m) \<noteq> [] then line @ [CHR 0x0A] @ styled sc sError styles (scText sc (dozzleError m)) else line)
      in line1 @ [CHR 0x0A] @ styled sc sFieldLabel styles ''Grafana: '' @ styled sc sFieldValue styles grafanaURL)"

definition renderFunctionSelector :: "'f Screen \<Rightarrow> viewStyles \<Rightarrow> 'f model \<Rightarrow> string" where
  "renderFunctionSelector sc styles m =
     scJoinHorizontal sc
       (map (\<lambda>(index, e). let label = strings_ToUpper (BinaryName (requester e))
                          in if int index = selectedFunction m
                             then styled sc sSelectorSelected styles ('' '' @ label @ '' '')
                             else styled sc sSelector styles ('' '' @ label @ '' ''))
         (enumerate 0 (mfunctions m)))"

definition renderSetting :: "'f Screen \<Rightarrow> viewStyles \<Rightarrow> bool \<Rightarrow> string \<Rightarrow> string \<Rightarrow> string" where
  "renderSetting sc styles selected label val =
     (let renderedValue = (if selected then styled sc sSelectedField styles (''[ '' @ val @ '' ]'')
                           else styled sc sFieldValue styles (''[ '' @ val @ '' ]''))
      in styled sc sFieldLabel styles (label @ '': '') @ renderedValue)"

text \<open>A label with its value, and what is shown of a deployment.\<close>

definition field :: "'f Screen \<Rightarrow> viewStyles \<Rightarrow> string \<Rightarrow> string \<Rightarrow> string" where
  "field sc styles label val = styled sc sFieldLabel styles label @ styled sc sFieldValue styles val"

definition renderDeployment :: "'f Screen \<Rightarrow> viewStyles \<Rightarrow> DeploymentSnapshot \<Rightarrow> 'f model \<Rightarrow> string list" where
  "renderDeployment sc styles snap m =
     (let st = snStats snap; se = snSettings snap
      in [[],
          field sc styles ''Name: '' (snName snap),
          field sc styles ''Function ID: '' (snFunctionID snap),
          [],
          renderSetting sc styles (selectedField m = 0) ''Batch size'' (strconv_FormatInt (BatchSize se)),
          renderSetting sc styles (selectedField m = 1) ''Requests/s'' (strconv_FormatInt (RequestsPerSecond se)),
          renderSetting sc styles (selectedField m = 2) ''Delay (s)'' (strconv_FormatInt (DelayBetweenBatches se)),
          [],
          field sc styles ''Sent: '' (strconv_FormatInt (RequestsSent st)),
          field sc styles ''Responses: '' (strconv_FormatInt (ResponsesReceived st)),
          field sc styles ''Transport errors: '' (strconv_FormatInt (TransportErrors st)),
          field sc styles ''Batches: '' (strconv_FormatInt (BatchesCompleted st))] @
         (if LastPath st \<noteq> [] then [field sc styles ''Last request: '' (LastMethod st @ '' '' @ LastPath st)] else []) @
         (if LastStatusCode st \<noteq> 0 then [field sc styles ''Last status: '' (strconv_FormatInt (LastStatusCode st))] else []) @
         (if \<not> snEnabled snap then [[], styled sc sError styles ''Requests are disabled.''] else []) @
         (if LastDuration st > 0 then [field sc styles ''Last latency: '' (Duration_String (LastDuration st))] else []) @
         (if LastResponse st \<noteq> [] then [field sc styles ''Last response: '' (LastResponse st)] else []) @
         (if LastError st \<noteq> [] then [styled sc sError styles (''Last error: '' @ LastError st)] else []))"

definition renderFunctionPanel :: "'f Screen \<Rightarrow> viewStyles \<Rightarrow> functionEntry \<Rightarrow> int \<Rightarrow> 'f model \<Rightarrow> string outcome" where
  "renderFunctionPanel sc styles e w m =
     (let sections = [styled sc sFunctionTitle styles (strings_ToUpper (BinaryName (requester e))),
                      styled sc sMuted styles (Description (requester e))];
          finish = (\<lambda>ls. scRender sc (sFunctionPanel styles) (Some w) (lines ls))
      in if deploying e then Returns (finish (sections @ [[], styled sc sStatus styles ''Deploying...'']))
         else case deployed e of
                None \<Rightarrow>
                  (let sections1 = sections @ [[], styled sc sSelectedField styles ''[ Deploy function ]'']
                   in if scText sc (deployError e) \<noteq> []
                      then (case compactText (scText sc (deployError e)) 180 of
                              Panics msg \<Rightarrow> Panics msg
                            | Returns t \<Rightarrow> Returns (finish (sections1 @ [styled sc sError styles t])))
                      else Returns (finish sections1))
              | Some d \<Rightarrow> Returns (finish (sections @ renderDeployment sc styles (Snapshot d) m)))"

definition renderDashboardView :: "'f Screen \<Rightarrow> viewStyles \<Rightarrow> 'f model \<Rightarrow> string outcome" where
  "renderDashboardView sc styles m =
     indexFunction (selectedFunction m) m
       (\<lambda>e. case renderFunctionPanel sc styles e (maxInt 60 (minInt 110 (width m - 8))) m of
              Panics msg \<Rightarrow> Panics msg
            | Returns panel \<Rightarrow>
                (let parts = [styled sc sTitle styles ''Servermore Tester'',
                       styled sc sMuted styles ''Compile test binaries, deploy them into the local stack, and keep live traffic running.'',
                       [], renderDozzleStatus sc styles m,
                       [], renderFunctionSelector sc styles m,
                       [], styled sc sStatus styles (scText sc (statusLine m)),
                       [], panel,
                       [], styled sc sHelp styles (''left/right or h/l switch functions | up/down or k/j choose setting | '' @
                             ''0 toggle requests | enter deploy | +/- adjust | d dozzle | q quits'')]
                 in Returns (scRender sc (sApp styles) (Some (maxInt 80 (width m))) (lines parts))))"

definition View :: "'f Screen \<Rightarrow> 'f model \<Rightarrow> string outcome" where
  "View sc m =
     (let styles = newStyles
      in if mphase m = phaseQuitting then Returns (renderQuittingView sc styles m)
         else case deployForm m of
                Some form \<Rightarrow> renderDeployView sc styles form m
              | None \<Rightarrow>
                  (if mphase m = phaseSetup then renderSetupView sc styles m else renderDashboardView sc styles m))"

section \<open>The program\<close>

text \<open>\<open>program\<close> is the library's loop: the state the program ends in and the error of its run. \<open>None\<close> is a
  program that does not end because a worker does not.\<close>

definition tester_Run ::
  "string res \<Rightarrow> (string \<Rightarrow> bool option) \<Rightarrow> ('f model \<Rightarrow> 'f model \<times> goerr option) \<Rightarrow> (deploymentState \<Rightarrow> bool) \<Rightarrow>
   Shell \<Rightarrow> (Shell \<times> goerr option) option" where
  "tester_Run getwd stat program returns sh =
     (case findProjectRoot getwd stat of
        None \<Rightarrow> None
      | Some (Inl err) \<Rightarrow> Some (sh, Some err)
      | Some (Inr root) \<Rightarrow>
          (let (m, err) = program (newModel root)
           in case Shutdown returns m sh of None \<Rightarrow> None | Some (m1, sh1) \<Rightarrow> Some (sh1, err)))"

text \<open>The exit code of \<open>cmd/servermore-tester\<close>.\<close>

definition tester_main :: "(Shell \<times> goerr option) option \<Rightarrow> int option" where
  "tester_main run = map_option (\<lambda>(sh, err). if err \<noteq> None then 1 else 0) run"

section \<open>Views are total\<close>

lemma renderSetupView_returns:
  assumes "cursor_ok m"
  shows "\<exists>s. renderSetupView sc styles m = Returns s"
proof -
  have "length spinnerFrames = 4" by (simp add: spinnerFrames_def)
  then show ?thesis using assms
    by (auto simp: renderSetupView_def cursor_ok_def Let_def compactText_def split: outcome.splits)
qed

lemma renderFunctionPanel_returns: "\<exists>s. renderFunctionPanel sc styles e w m = Returns s"
  by (auto simp: renderFunctionPanel_def Let_def compactText_def split: outcome.splits option.splits)

lemma renderDashboardView_returns:
  assumes "cursor_ok m"
  shows "\<exists>s. renderDashboardView sc styles m = Returns s"
proof -
  obtain panel where "renderFunctionPanel sc styles (mfunctions m ! nat (selectedFunction m))
      (maxInt 60 (minInt 110 (width m - 8))) m = Returns panel"
    using renderFunctionPanel_returns by blast
  then show ?thesis using assms by (simp add: renderDashboardView_def indexFunction_def cursor_ok_def)
qed

lemma renderDeployView_returns:
  assumes "form_ok m" and "deployForm m = Some form"
  shows "\<exists>s. renderDeployView sc styles form m = Returns s"
  using assms by (simp add: renderDeployView_def indexFunction_def form_ok_def idle_def)

lemma View_returns:
  assumes "minv m p"
  shows "\<exists>s. View sc m = Returns s"
  using assms renderSetupView_returns[of m] renderDashboardView_returns[of m] renderDeployView_returns[of m]
  by (auto simp: View_def Let_def minv_def split: option.splits)

text \<open>A list in which one index is treated differently.\<close>

lemma map_enumerate_one:
  assumes "n < length xs"
  shows "map (\<lambda>(i, x). if int i = int n then f x else g x) (enumerate 0 xs) =
    map g (take n xs) @ [f (xs ! n)] @ map g (drop (Suc n) xs)"
  using assms
  by (intro nth_equalityI) (auto simp: nth_enumerate_eq nth_append min_def nth_Cons split: nat.splits
      intro!: arg_cong[where f = "\<lambda>k. g (xs ! k)"])

section \<open>Properties\<close>

text \<open>How the name of a function is shown in the row of functions.\<close>

abbreviation selectorItem :: "'f Screen \<Rightarrow> (viewStyles \<Rightarrow> Style) \<Rightarrow> functionEntry \<Rightarrow> string" where
  "selectorItem sc f e \<equiv> styled sc f newStyles ('' '' @ strings_ToUpper (BinaryName (requester e)) @ '' '')"

text \<open>
  C29: in every state that the terminal program reaches it has something to show: no view indexes out of
  range, whatever the library does with styles. Exactly one function of the dashboard is shown as
  selected, at the place of the cursor and in a style that differs from that of the others, and the cursor
  is on one of the three settings.
\<close>

theorem tester_view_total:
  assumes "mreach F m p"
  shows "(\<exists>s. View sc m = Returns s) \<and> selectedField m \<in> {0, 1, 2} \<and>
    (\<exists>pre x post. mfunctions m = pre @ x # post \<and> int (length pre) = selectedFunction m \<and>
      renderFunctionSelector sc newStyles m =
        scJoinHorizontal sc (map (selectorItem sc sSelector) pre @ [selectorItem sc sSelectorSelected x] @
          map (selectorItem sc sSelector) post)) \<and>
    sSelector newStyles \<noteq> sSelectorSelected newStyles"
proof -
  have inv: "minv m p" by (rule mreach_minv[OF assms])
  then have c: "cursor_ok m" by (simp add: minv_def)
  define n where "n = nat (selectedFunction m)"
  have n: "n < length (mfunctions m)" "selectedFunction m = int n" using c by (auto simp: cursor_ok_def n_def)
  have "renderFunctionSelector sc newStyles m = scJoinHorizontal sc (map (selectorItem sc sSelector) (take n (mfunctions m)) @
      [selectorItem sc sSelectorSelected (mfunctions m ! n)] @ map (selectorItem sc sSelector) (drop (Suc n) (mfunctions m)))"
    unfolding renderFunctionSelector_def Let_def n(2) by (simp only: map_enumerate_one[OF n(1)])
  moreover have "mfunctions m = take n (mfunctions m) @ mfunctions m ! n # drop (Suc n) (mfunctions m)"
    by (rule id_take_nth_drop[OF n(1)])
  moreover have "int (length (take n (mfunctions m))) = selectedFunction m" using n by simp
  moreover have "selectedField m \<in> {0, 1, 2}" using c by (auto simp: cursor_ok_def)
  moreover have "sSelector newStyles \<noteq> sSelectorSelected newStyles" by (simp add: newStyles_def NewStyle_def)
  ultimately show ?thesis using View_returns[OF inv, of sc] by blast
qed

definition exampleScreen :: "(string \<times> bool) Screen" where
  "exampleScreen = \<lparr>scRender = (\<lambda>_ _ s. s), scPlace = (\<lambda>_ _ s. s), scJoinHorizontal = concat, scForm = fst, scText = (\<lambda>_. [])\<rparr>"

theorem tester_view_total_witness:
  "\<exists>s. View exampleScreen (newModel ''/src'' :: (string \<times> bool) model) = Returns s"
  using tester_view_total[OF mreach.start[of example_form "''/src''"], of exampleScreen] by blast

end
