(* ===== verification/Monitoring.thy ===== *)
theory Monitoring
  imports ServerHttp
begin

text \<open>
  Logging and tracing of requests (\<open>pkg/server/monitoring.go\<close>, \<open>HttpMiddleware\<close> of
  \<open>pkg/server/middleware.go\<close>): how the loggers are built, the interceptors around every gRPC call of
  servers and clients, and the middlewares around every HTTP handler.

  A handler returns the context as its holders are afterwards, its result, and the list of
  monitoring events it caused: log records and annotations of the span of its context. The result
  type is a parameter, so that it stands for everything a handler answers and changes. What the
  libraries provide (the logging interceptor, the chaining of interceptors and middlewares, the
  request logger, the recoverer, the tracing and metric middlewares) are parameters, and what the
  sources rely on of their documentation is named: \<open>chain_order\<close>, \<open>logging_contract\<close>, \<open>http_contract\<close>,
  \<open>heartbeat_contract\<close>. A middleware is what it does to the handler of one request; those that look at the
  request get its method or path.
\<close>

section \<open>Options and loggers\<close>

record MonitoringOpts =
  moEnv :: string
  moAppName :: string
  moAppVersion :: string
  moAdditionalAttrs :: "(string, string) fmap"
  moLevel :: int
  moOTELOn :: bool

definition IsDev :: "MonitoringOpts \<Rightarrow> bool" where
  "IsDev o1 \<longleftrightarrow> moEnv o1 \<noteq> ''PROD''"

datatype HandlerKind = TextHandler | JSONHandler

text \<open>\<open>slog.HandlerOptions\<close>; \<open>hoConcise\<close> is the schema whose \<open>ReplaceAttr\<close> is used, if any.\<close>

record HandlerOptions =
  hoLevel :: int
  hoConcise :: "bool option"

record Logger =
  lgKind :: HandlerKind
  lgOptions :: HandlerOptions
  lgAttrs :: "KeyValue list"

definition slogHandler :: "MonitoringOpts \<Rightarrow> HandlerOptions \<Rightarrow> Logger" where
  "slogHandler opts slogOpts =
     \<lparr>lgKind = (if IsDev opts then TextHandler else JSONHandler), lgOptions = slogOpts, lgAttrs = []\<rparr>"

text \<open>\<open>logger.With\<close>.\<close>

definition loggerWith :: "KeyValue list \<Rightarrow> Logger \<Rightarrow> Logger" where
  "loggerWith as l = l\<lparr>lgAttrs := lgAttrs l @ as\<rparr>"

definition slogLogger :: "iterorder \<Rightarrow> MonitoringOpts \<Rightarrow> HandlerOptions \<Rightarrow> Logger" where
  "slogLogger ord opts slogOpts =
     (let logger = loggerWith [(''app'', StringAttr (moAppName opts)), (''env'', StringAttr (moEnv opts))]
                     (slogHandler opts slogOpts);
          logger1 = (if moAppVersion opts \<noteq> []
                     then loggerWith [(''version'', StringAttr (moAppVersion opts))] logger else logger)
      in fold (\<lambda>k. loggerWith [(k, StringAttr (fmget [] (moAdditionalAttrs opts) k))])
           (ord (fmdom (moAdditionalAttrs opts))) logger1)"

text \<open>The logger that becomes the default one.\<close>

definition SetDefaultLogger :: "iterorder \<Rightarrow> MonitoringOpts \<Rightarrow> Logger" where
  "SetDefaultLogger ord opts = slogLogger ord opts \<lparr>hoLevel = moLevel opts, hoConcise = None\<rparr>"

section \<open>Handlers and interceptors\<close>

datatype MonEvent =
    LogRecord Logger int string Fields
  | AccessLog Logger "KeyValue list"
  | SetAttributes "KeyValue list"
  | RecordError goerr
  | SetStatusError gotext

type_synonym 'a Reply = "goerr option \<times> 'a \<times> MonEvent list"

type_synonym ('e, 'q, 'a) UnaryHandler = "'q \<Rightarrow> ('e, 'a Reply) ctxHandler"

text \<open>An interceptor gets the request, the full name of the method and the handler it calls.\<close>

type_synonym ('e, 'q, 'a) UnaryInterceptor =
  "'q \<Rightarrow> string \<Rightarrow> ('e, 'q, 'a) UnaryHandler \<Rightarrow> ('e, 'a Reply) ctxHandler"

text \<open>The interceptors that put a holder into the context (\<open>grpc_context.go\<close>), given what they do to a handler.\<close>

definition holderInterceptor ::
  "(('e, 'a Reply) ctxHandler \<Rightarrow> ('e, 'a Reply) ctxHandler) \<Rightarrow> ('e, 'q, 'a) UnaryInterceptor" where
  "holderInterceptor W req fullMethod handler = W (handler req)"

definition grpcMethodAllowed :: "string \<Rightarrow> string list \<Rightarrow> bool" where
  "grpcMethodAllowed m excludedMethods \<longleftrightarrow> m \<notin> set excludedMethods"

text \<open>\<open>isRec\<close> tells whether the span of a context is recording.\<close>

type_synonym recording = "(string \<times> string) option \<Rightarrow> bool"

definition annotateSpan :: "recording \<Rightarrow> 'e Ctx \<Rightarrow> goerr option \<Rightarrow> MonEvent list" where
  "annotateSpan isRec ctx err =
     (if \<not> isRec (span ctx) then []
      else (let attrs = contextAttributes ctx in if attrs \<noteq> [] then [SetAttributes attrs] else []) @
           (case err of None \<Rightarrow> [] | Some e \<Rightarrow> [RecordError e, SetStatusError (ErrText e)]))"

definition grpcServerTraceInterceptor :: "recording \<Rightarrow> string list \<Rightarrow> ('e, 'q, 'a) UnaryInterceptor" where
  "grpcServerTraceInterceptor isRec logExcludedMethods req fullMethod handler ctx =
     (if \<not> grpcMethodAllowed fullMethod logExcludedMethods then handler req ctx
      else let (ctx', err, resp, ev) = handler req ctx
           in (ctx', err, resp, ev @ annotateSpan isRec ctx' err))"

text \<open>What the logging library is configured with.\<close>

datatype LoggableEvent = StartCall | FinishCall

record 'e LoggingOptions =
  loEvents :: "LoggableEvent list"
  loFieldsFromContext :: "'e Ctx \<Rightarrow> Fields"

type_synonym LoggerFunc = "int \<Rightarrow> string \<Rightarrow> Fields \<Rightarrow> MonEvent"

definition grpcLogger :: "iterorder \<Rightarrow> MonitoringOpts \<Rightarrow> LoggerFunc \<times> 'e LoggingOptions" where
  "grpcLogger ord opts =
     (let logger = slogLogger ord opts \<lparr>hoLevel = moLevel opts, hoConcise = None\<rparr>
      in (LogRecord logger, \<lparr>loEvents = [StartCall, FinishCall], loFieldsFromContext = contextFields\<rparr>))"

text \<open>The logging interceptors of the library, as a function of their configuration.\<close>

type_synonym ('e, 'q, 'a) LoggingLib = "LoggerFunc \<times> 'e LoggingOptions \<Rightarrow> ('e, 'q, 'a) UnaryInterceptor"

definition grpcServerLogger ::
  "('e, 'q, 'a) LoggingLib \<Rightarrow> iterorder \<Rightarrow> MonitoringOpts \<Rightarrow> string list \<Rightarrow> ('e, 'q, 'a) UnaryInterceptor" where
  "grpcServerLogger lib ord opts logExcludedMethods req fullMethod handler =
     (if \<not> grpcMethodAllowed fullMethod logExcludedMethods then handler req
      else lib (grpcLogger ord opts) req fullMethod handler)"

section \<open>Servers\<close>

record ('e, 'q, 'a) GrpcServer =
  gsTraceFilter :: "string \<Rightarrow> bool"
  gsMaxRecvMsgSize :: int
  gsMaxSendMsgSize :: int
  gsInterceptors :: "('e, 'q, 'a) UnaryInterceptor list"

definition InstrumentedGrpcServerWithExcludedMethodLogs ::
  "('e, 'q, 'a) LoggingLib \<Rightarrow> recording \<Rightarrow> iterorder \<Rightarrow> MonitoringOpts \<Rightarrow> string list \<Rightarrow>
   ('e, 'q, 'a) UnaryInterceptor list \<Rightarrow> ('e, 'q, 'a) GrpcServer" where
  "InstrumentedGrpcServerWithExcludedMethodLogs lib isRec ord opts logExcludedMethods interceptors =
     \<lparr>gsTraceFilter = (\<lambda>fullMethod. grpcMethodAllowed fullMethod logExcludedMethods),
      gsMaxRecvMsgSize = GrpcMaxBytes, gsMaxSendMsgSize = GrpcMaxBytes,
      gsInterceptors = interceptors @
        [grpcServerTraceInterceptor isRec logExcludedMethods,
         grpcServerLogger lib ord opts logExcludedMethods]\<rparr>"

definition InstrumentedGrpcServer ::
  "('e, 'q, 'a) LoggingLib \<Rightarrow> recording \<Rightarrow> iterorder \<Rightarrow> MonitoringOpts \<Rightarrow>
   ('e, 'q, 'a) UnaryInterceptor list \<Rightarrow> ('e, 'q, 'a) GrpcServer" where
  "InstrumentedGrpcServer lib isRec ord opts interceptors =
     InstrumentedGrpcServerWithExcludedMethodLogs lib isRec ord opts [] interceptors"

section \<open>Clients\<close>

text \<open>An invoker sends the request; what it answers includes the reply it filled in.\<close>

type_synonym ('e, 'q, 'a) UnaryInvoker = "string \<Rightarrow> 'q \<Rightarrow> ('e, 'a Reply) ctxHandler"

type_synonym ('e, 'q, 'a) UnaryClientInterceptor =
  "string \<Rightarrow> 'q \<Rightarrow> ('e, 'q, 'a) UnaryInvoker \<Rightarrow> ('e, 'a Reply) ctxHandler"

definition grpcClientTraceInterceptor :: "recording \<Rightarrow> string list \<Rightarrow> ('e, 'q, 'a) UnaryClientInterceptor" where
  "grpcClientTraceInterceptor isRec logExcludedMethods m req invoker ctx =
     (if \<not> grpcMethodAllowed m logExcludedMethods then invoker m req ctx
      else let (ctx', err, reply, ev) = invoker m req ctx
           in (ctx', err, reply, ev @ annotateSpan isRec ctx' err))"

type_synonym ('e, 'q, 'a) ClientLoggingLib =
  "LoggerFunc \<times> 'e LoggingOptions \<Rightarrow> ('e, 'q, 'a) UnaryClientInterceptor"

definition grpcClientLogger ::
  "('e, 'q, 'a) ClientLoggingLib \<Rightarrow> iterorder \<Rightarrow> MonitoringOpts \<Rightarrow> string list \<Rightarrow>
   ('e, 'q, 'a) UnaryClientInterceptor" where
  "grpcClientLogger lib ord opts logExcludedMethods m req invoker =
     (if \<not> grpcMethodAllowed m logExcludedMethods then invoker m req
      else lib (grpcLogger ord opts) m req invoker)"

text \<open>The options a connection is made with; \<open>gcTraceFilter\<close> is \<open>None\<close> when every method is traced.\<close>

record ('e, 'q, 'a) GrpcClientOptions =
  gcAddr :: string
  gcTraceFilter :: "(string \<Rightarrow> bool) option"
  gcMaxRecvMsgSize :: int
  gcMaxSendMsgSize :: int
  gcInterceptors :: "('e, 'q, 'a) UnaryClientInterceptor list"

text \<open>\<open>newClient\<close> is \<open>grpc.NewClient\<close>.\<close>

definition LoggingGrpcClientWithExcludedMethodLogs ::
  "(('e, 'q, 'a) GrpcClientOptions \<Rightarrow> 'c res) \<Rightarrow> ('e, 'q, 'a) ClientLoggingLib \<Rightarrow> recording \<Rightarrow> iterorder \<Rightarrow>
   string \<Rightarrow> MonitoringOpts \<Rightarrow> string list \<Rightarrow> 'c res" where
  "LoggingGrpcClientWithExcludedMethodLogs newClient lib isRec ord addr opts logExcludedMethods =
     newClient \<lparr>gcAddr = addr,
       gcTraceFilter = Some (\<lambda>m. grpcMethodAllowed m logExcludedMethods),
       gcMaxRecvMsgSize = GrpcMaxBytes, gcMaxSendMsgSize = GrpcMaxBytes,
       gcInterceptors = [grpcClientTraceInterceptor isRec logExcludedMethods,
                         grpcClientLogger lib ord opts logExcludedMethods]\<rparr>"

definition LoggingGrpcClient ::
  "(('e, 'q, 'a) GrpcClientOptions \<Rightarrow> 'c res) \<Rightarrow> ('e, 'q, 'a) ClientLoggingLib \<Rightarrow> recording \<Rightarrow> iterorder \<Rightarrow>
   string \<Rightarrow> MonitoringOpts \<Rightarrow> 'c res" where
  "LoggingGrpcClient newClient lib isRec ord addr opts =
     LoggingGrpcClientWithExcludedMethodLogs newClient lib isRec ord addr opts []"

definition GrpcClient ::
  "(('e, 'q, 'a) GrpcClientOptions \<Rightarrow> 'c res) \<Rightarrow> recording \<Rightarrow> string \<Rightarrow> 'c res" where
  "GrpcClient newClient isRec addr =
     newClient \<lparr>gcAddr = addr, gcTraceFilter = None,
       gcMaxRecvMsgSize = GrpcMaxBytes, gcMaxSendMsgSize = GrpcMaxBytes,
       gcInterceptors = [grpcClientTraceInterceptor isRec []]\<rparr>"

text \<open>
  The clients of the commander and of the runners (\<open>commander/grpc/client.go\<close>, \<open>runner/grpc/client.go\<close>).
  The client around a connection is generated and not told apart from the connection. The full name
  of the heartbeat method of the runner is a constant of the generated code.
\<close>

definition CreateCommanderClient ::
  "(('e, 'q, 'a) GrpcClientOptions \<Rightarrow> 'c res) \<Rightarrow> ('e, 'q, 'a) ClientLoggingLib \<Rightarrow> recording \<Rightarrow> iterorder \<Rightarrow>
   string \<Rightarrow> MonitoringOpts \<Rightarrow> 'c res" where
  "CreateCommanderClient newClient lib isRec ord addr monitoringOpts =
     (let opts = \<lparr>moEnv = moEnv monitoringOpts,
                  moAppName = moAppName monitoringOpts @ ''-commander-client-'' @ addr,
                  moAppVersion = moAppName monitoringOpts,
                  moAdditionalAttrs = moAdditionalAttrs monitoringOpts,
                  moLevel = moLevel monitoringOpts,
                  moOTELOn = moOTELOn monitoringOpts\<rparr>
      in case LoggingGrpcClient newClient lib isRec ord addr opts of
           Inl err \<Rightarrow> Inl (wrapf ''failed to create runner client for address %q: %w'' [addr] err)
         | Inr conn1 \<Rightarrow> Inr conn1)"

definition CreateRunnerClient ::
  "(('e, 'q, 'a) GrpcClientOptions \<Rightarrow> 'c res) \<Rightarrow> ('e, 'q, 'a) ClientLoggingLib \<Rightarrow> recording \<Rightarrow> iterorder \<Rightarrow>
   string \<Rightarrow> string \<Rightarrow> MonitoringOpts \<Rightarrow> 'c res" where
  "CreateRunnerClient newClient lib isRec ord heartbeatMethod addr monitoringOpts =
     (let opts = \<lparr>moEnv = moEnv monitoringOpts,
                  moAppName = moAppName monitoringOpts @ ''-runner-client-'' @ addr,
                  moAppVersion = moAppName monitoringOpts,
                  moAdditionalAttrs = moAdditionalAttrs monitoringOpts,
                  moLevel = moLevel monitoringOpts,
                  moOTELOn = moOTELOn monitoringOpts\<rparr>
      in case LoggingGrpcClientWithExcludedMethodLogs newClient lib isRec ord addr opts [heartbeatMethod] of
           Inl err \<Rightarrow> Inl (wrapf ''failed to create runner client for address %q: %w'' [addr] err)
         | Inr conn1 \<Rightarrow> Inr conn1)"

section \<open>HTTP middlewares\<close>

text \<open>A panic is a value of its own type: \<open>http.ErrAbortHandler\<close>, or any other.\<close>

datatype HttpPanic = AbortHandler | PanicValue string

type_synonym 'p HttpOut = "HttpPanic option \<times> 'p Writer \<times> MonEvent list"

type_synonym 'p HttpHandler = "'p Writer \<Rightarrow> (ApiError, 'p HttpOut) ctxHandler"

type_synonym 'p HttpMw = "'p HttpHandler \<Rightarrow> 'p HttpHandler"

text \<open>The middlewares that put a holder into the context, as HTTP middlewares.\<close>

definition holderMiddleware ::
  "((ApiError, 'p HttpOut) ctxHandler \<Rightarrow> (ApiError, 'p HttpOut) ctxHandler) \<Rightarrow> 'p HttpMw" where
  "holderMiddleware W next w = W (next w)"

text \<open>The options of the request logger.\<close>

record HttplogOptions =
  hpLevel :: int
  hpRecoverPanics :: bool
  hpLogRequestHeaders :: "string list"

text \<open>The request logger gets the method, the heartbeat its endpoint and the method and path of the request.\<close>

record 'p HttpLibs =
  hlHeartbeat :: "string \<Rightarrow> string \<Rightarrow> string \<Rightarrow> 'p HttpMw"
  hlOtelchi :: "string \<Rightarrow> 'p HttpMw"
  hlRequestLogger :: "Logger \<Rightarrow> HttplogOptions \<Rightarrow> (HttpCtx \<Rightarrow> KeyValue list) \<Rightarrow> string \<Rightarrow> 'p HttpMw"
  hlRecoverer :: "'p HttpMw"
  hlRequestDurationMillis :: "string \<Rightarrow> 'p HttpMw"
  hlRequestInFlight :: "string \<Rightarrow> 'p HttpMw"
  hlResponseSizeBytes :: "string \<Rightarrow> 'p HttpMw"

text \<open>The attributes the request logger adds; \<open>render\<close> is the text of a message or of an error.\<close>

definition logExtraAttrs :: "(gotext \<Rightarrow> string) \<Rightarrow> HttpCtx \<Rightarrow> KeyValue list" where
  "logExtraAttrs render ctx =
     (let attrs = httpContextAttrs ctx
      in case GetAPIError ctx of
           None \<Rightarrow> attrs
         | Some apiErr \<Rightarrow>
             attrs @
             [(''error'', StringAttr (render (ErrText (cause apiErr)))),
              (''api.error.code'', StringAttr (edCode (errorDetail apiErr))),
              (''api.error.status'', IntAttr (edStatus (errorDetail apiErr))),
              (''api.error.instance'', StringAttr (edInstance (errorDetail apiErr))),
              (''api.error.title'', StringAttr (edTitle (errorDetail apiErr))),
              (''api.error.detail'', StringAttr (render (edDetail (errorDetail apiErr))))])"

definition LevelInfo :: int where
  "LevelInfo = 0"

definition CreateHTTPLogger ::
  "'p HttpLibs \<Rightarrow> (gotext \<Rightarrow> string) \<Rightarrow> iterorder \<Rightarrow> MonitoringOpts \<Rightarrow> string \<Rightarrow> 'p HttpMw" where
  "CreateHTTPLogger libs render ord opts meth =
     hlRequestLogger libs
       (slogLogger ord opts \<lparr>hoLevel = moLevel opts, hoConcise = Some (IsDev opts)\<rparr>)
       \<lparr>hpLevel = LevelInfo, hpRecoverPanics = True, hpLogRequestHeaders = [''Origin'']\<rparr>
       (logExtraAttrs render) meth"

text \<open>\<open>otelCfg\<close>, the base configuration of the metric middlewares, is known by its server name.\<close>

definition HttpMiddleware ::
  "'p HttpLibs \<Rightarrow> (gotext \<Rightarrow> string) \<Rightarrow> iterorder \<Rightarrow> string \<Rightarrow> MonitoringOpts \<Rightarrow> 'p HttpMw list \<Rightarrow> string \<Rightarrow>
   'p HttpMw list" where
  "HttpMiddleware libs render ord otelCfg loggingOpts contextMiddlewares meth =
     (let ms = [hlOtelchi libs (moAppName loggingOpts), holderMiddleware WithAPIErrorHolder];
          ms1 = ms @ contextMiddlewares;
          ms2 = ms1 @ [CreateHTTPLogger libs render ord loggingOpts meth, hlRecoverer libs]
      in if moOTELOn loggingOpts
         then ms2 @ [hlRequestDurationMillis libs otelCfg, hlRequestInFlight libs otelCfg,
                     hlResponseSizeBytes libs otelCfg]
         else ms2)"

text \<open>\<open>InjectTraceContext\<close> adds the headers that the global propagator makes of the context.\<close>

definition InjectTraceContext ::
  "('e Ctx \<Rightarrow> (string, string) fmap) \<Rightarrow> 'e Ctx \<Rightarrow> (string, string) fmap \<Rightarrow> (string, string) fmap \<times> goerr option" where
  "InjectTraceContext propagator ctx reqHeader = (reqHeader ++\<^sub>f propagator ctx, None)"

section \<open>What the libraries promise\<close>

text \<open>Interceptors given to \<open>ChainUnaryInterceptor\<close> and middlewares given to a router: the first is outermost.\<close>

definition chain_order :: "(('e, 'q, 'a) UnaryInterceptor list \<Rightarrow> ('e, 'q, 'a) UnaryInterceptor) \<Rightarrow> bool" where
  "chain_order chain \<longleftrightarrow>
     (\<forall>req m h. chain [] req m h = h req) \<and>
     (\<forall>i is req m h. chain (i # is) req m h = i req m (\<lambda>q. chain is q m h))"

definition client_chain_order ::
  "(('e, 'q, 'a) UnaryClientInterceptor list \<Rightarrow> ('e, 'q, 'a) UnaryClientInterceptor) \<Rightarrow> bool" where
  "client_chain_order chain \<longleftrightarrow>
     (\<forall>m req invk. chain [] m req invk = invk m req) \<and>
     (\<forall>i is m req invk. chain (i # is) m req invk = i m req (\<lambda>m' q. chain is m' q invk))"

definition stack_order :: "('p HttpMw list \<Rightarrow> 'p HttpMw) \<Rightarrow> bool" where
  "stack_order stack \<longleftrightarrow> (\<forall>h. stack [] h = h) \<and> (\<forall>m ms h. stack (m # ms) h = m (stack ms h))"

fun isLog :: "MonEvent \<Rightarrow> bool" where
  "isLog (LogRecord l lvl msg fs) = True"
| "isLog _ = False"

text \<open>A logging interceptor calls the handler once, passes its result on, and only adds log records.\<close>

definition logs_around :: "('c \<times> 'a Reply) \<Rightarrow> ('c \<times> 'a Reply) \<Rightarrow> bool" where
  "logs_around inner outer \<longleftrightarrow>
     (\<exists>pre post. list_all isLog (pre @ post) \<and>
       outer = (fst inner, fst (snd inner), fst (snd (snd inner)), pre @ snd (snd (snd inner)) @ post))"

definition logging_contract :: "('e, 'q, 'a) LoggingLib \<Rightarrow> bool" where
  "logging_contract lib \<longleftrightarrow> (\<forall>cfg req m h ctx. logs_around (h req ctx) (lib cfg req m h ctx))"

definition client_logging_contract :: "('e, 'q, 'a) ClientLoggingLib \<Rightarrow> bool" where
  "client_logging_contract lib \<longleftrightarrow> (\<forall>cfg m req invk ctx. logs_around (invk m req ctx) (lib cfg m req invk ctx))"

text \<open>
  The HTTP middlewares: \<open>otelchi\<close> starts a span for the handler; the recoverer turns a panic, other than the
  one that aborts a handler on purpose, into the status 500; the request logger writes at most one record,
  with the attributes it is told to add, after a handler that returned, and with the level \<open>LevelInfo\<close> one
  for every method other than \<open>OPTIONS\<close>; metrics only watch.
\<close>

definition recovers :: "'p HttpMw \<Rightarrow> bool" where
  "recovers m \<longleftrightarrow> (\<forall>h w ctx. m h w ctx =
     (case h w ctx of
        (c, Some (PanicValue p), w', ev) \<Rightarrow> (c, None, WriteHeader 500 w', ev)
      | r \<Rightarrow> r))"

definition logs_request :: "(Logger \<Rightarrow> HttplogOptions \<Rightarrow> (HttpCtx \<Rightarrow> KeyValue list) \<Rightarrow> string \<Rightarrow> 'p HttpMw) \<Rightarrow> bool" where
  "logs_request m \<longleftrightarrow> (\<forall>l opts extra meth h w ctx c w' ev. h w ctx = (c, None, w', ev) \<longrightarrow>
     (\<exists>logged. m l opts extra meth h w ctx = (c, None, w', ev @ (if logged then [AccessLog l (extra c)] else [])) \<and>
       (meth \<noteq> ''OPTIONS'' \<and> hpLevel opts \<le> LevelInfo \<and> hoLevel (lgOptions l) \<le> LevelInfo \<longrightarrow> logged)))"

definition starts_span :: "(HttpCtx \<Rightarrow> string \<times> string) \<Rightarrow> 'p HttpMw \<Rightarrow> bool" where
  "starts_span newSpan m \<longleftrightarrow> (\<forall>h w ctx. m h w ctx =
     (let (c, r) = h w (ctx\<lparr>span := Some (newSpan ctx)\<rparr>) in (c\<lparr>span := span ctx\<rparr>, r)))"

definition http_contract :: "(HttpCtx \<Rightarrow> string \<times> string) \<Rightarrow> 'p HttpLibs \<Rightarrow> bool" where
  "http_contract newSpan libs \<longleftrightarrow>
     (\<forall>name. starts_span newSpan (hlOtelchi libs name)) \<and> logs_request (hlRequestLogger libs) \<and>
     recovers (hlRecoverer libs) \<and>
     (\<forall>cfg. hlRequestDurationMillis libs cfg = id \<and> hlRequestInFlight libs cfg = id \<and>
       hlResponseSizeBytes libs cfg = id)"

text \<open>
  The heartbeat answers \<open>GET\<close> and \<open>HEAD\<close> requests for its endpoint with 200 and does not call the handler. It
  does not care about upper and lower case; all other requests it passes on.
\<close>

definition asciiLower :: "string \<Rightarrow> string" where
  "asciiLower s = map (\<lambda>c. if of_char c \<in> {65 .. 90 :: nat} then char_of (of_char c + 32 :: nat) else c) s"

definition heartbeat_contract :: "string \<Rightarrow> (string \<Rightarrow> string \<Rightarrow> string \<Rightarrow> 'p HttpMw) \<Rightarrow> bool" where
  "heartbeat_contract endpoint m \<longleftrightarrow>
     (\<forall>meth. meth \<in> {''GET'', ''HEAD''} \<longrightarrow> (\<exists>answer. \<forall>h w ctx. m endpoint meth endpoint h w ctx = (ctx, None, answer w, []) \<and>
        (sent w = None \<longrightarrow> (\<exists>hdr. sent (answer w) = Some (200, hdr))))) \<and>
     (\<forall>meth path h. meth \<notin> {''GET'', ''HEAD''} \<or> asciiLower path \<noteq> asciiLower endpoint \<longrightarrow> m endpoint meth path h = h)"

section \<open>Loggers\<close>

lemma loggerWith_fields [simp]:
  "lgKind (loggerWith as l) = lgKind l" "lgOptions (loggerWith as l) = lgOptions l"
  "lgAttrs (loggerWith as l) = lgAttrs l @ as"
  by (simp_all add: loggerWith_def)

lemma fold_loggerWith:
  "lgKind (fold (\<lambda>k. loggerWith [g k]) ks l) = lgKind l"
  "lgOptions (fold (\<lambda>k. loggerWith [g k]) ks l) = lgOptions l"
  "lgAttrs (fold (\<lambda>k. loggerWith [g k]) ks l) = lgAttrs l @ map g ks"
  by (induction ks arbitrary: l) simp_all

lemma slogLogger_fields:
  "lgKind (slogLogger ord opts so) = (if IsDev opts then TextHandler else JSONHandler)"
  "lgOptions (slogLogger ord opts so) = so"
  "lgAttrs (slogLogger ord opts so) =
     [(''app'', StringAttr (moAppName opts)), (''env'', StringAttr (moEnv opts))] @
     (if moAppVersion opts \<noteq> [] then [(''version'', StringAttr (moAppVersion opts))] else []) @
     map (\<lambda>k. (k, StringAttr (fmget [] (moAdditionalAttrs opts) k))) (ord (fmdom (moAdditionalAttrs opts)))"
  by (simp_all add: slogLogger_def slogHandler_def fold_loggerWith Let_def)

lemma distinct_filter_eq:
  assumes "distinct xs" and "k \<in> set xs"
  shows "filter (\<lambda>x. x = k) xs = [k]"
  using assms by (induction xs) (auto simp: filter_empty_conv)

text \<open>Every logger of the program carries every additional attribute exactly once, in whatever order.\<close>

lemma slogLogger_additional:
  assumes "iter_order ord" and "fmlookup (moAdditionalAttrs opts) k = Some v" and "k \<notin> {''app'', ''env'', ''version''}"
  shows "filter (\<lambda>a. fst a = k) (lgAttrs (slogLogger ord opts so)) = [(k, StringAttr v)]"
proof -
  have "filter (\<lambda>x. x = k) (ord (fmdom (moAdditionalAttrs opts))) = [k]"
    by (rule distinct_filter_eq[OF iter_orderD(1)[OF assms(1)]])
      (use assms(2) in \<open>simp add: iter_orderD(2)[OF assms(1)] fmlookup_dom_iff\<close>)
  then show ?thesis using assms(2,3) by (auto simp: slogLogger_fields filter_map o_def)
qed

section \<open>Holders in the context\<close>

text \<open>
  The middlewares and interceptors of \<open>http_context.go\<close>, \<open>grpc_context.go\<close> and \<open>middleware.go\<close> share a
  contract: the next handler runs once in a context with a fresh holder, its result is passed on, and
  the caller finds its own holder again.
\<close>

locale context_holder =
  fixes W :: "('e, 'r) ctxHandler \<Rightarrow> ('e, 'r) ctxHandler"
    and enter :: "'e Ctx \<Rightarrow> 'e Ctx"
    and leave :: "'e Ctx \<Rightarrow> 'e Ctx \<Rightarrow> 'e Ctx"
  assumes runs_next: "W next ctx = (leave ctx (fst (next (enter ctx))), snd (next (enter ctx)))"
    and span_enter: "span (enter ctx) = span ctx"
    and leave_enter: "leave ctx (enter ctx) = ctx"
begin

lemma next_result: "snd (W next ctx) = snd (next (enter ctx))"
  by (simp add: runs_next)

lemma silent_next:
  assumes "next (enter ctx) = (enter ctx, r)"
  shows "W next ctx = (ctx, r)"
  using assms by (simp add: runs_next leave_enter)

end

interpretation createFunctionHolder: context_holder WithCreateFunctionMetaHolder "\<lambda>ctx. ctx\<lparr>createFunctionSlot := Holder None\<rparr>"
  "\<lambda>ctx c. c\<lparr>createFunctionSlot := createFunctionSlot ctx\<rparr>"
  by unfold_locales (simp_all add: WithCreateFunctionMetaHolder_def split: prod.splits)

interpretation downloadFunctionBinaryHolder: context_holder WithDownloadFunctionBinaryMetaHolder "\<lambda>ctx. ctx\<lparr>downloadFunctionBinarySlot := Holder None\<rparr>"
  "\<lambda>ctx c. c\<lparr>downloadFunctionBinarySlot := downloadFunctionBinarySlot ctx\<rparr>"
  by unfold_locales (simp_all add: WithDownloadFunctionBinaryMetaHolder_def split: prod.splits)

interpretation gatewayHolder: context_holder WithGatewayFunctionRequestMetaHolder "\<lambda>ctx. ctx\<lparr>gatewayFunctionRequestSlot := Holder None\<rparr>"
  "\<lambda>ctx c. c\<lparr>gatewayFunctionRequestSlot := gatewayFunctionRequestSlot ctx\<rparr>"
  by unfold_locales (simp_all add: WithGatewayFunctionRequestMetaHolder_def split: prod.splits)

interpretation downloadHolder: context_holder WithDownloadMetaHolder "\<lambda>ctx. ctx\<lparr>downloadSlot := Holder None\<rparr>"
  "\<lambda>ctx c. c\<lparr>downloadSlot := downloadSlot ctx\<rparr>"
  by unfold_locales (simp_all add: WithDownloadMetaHolder_def split: prod.splits)

interpretation guestInvokeHolder: context_holder WithGuestInvokeMetaHolder "\<lambda>ctx. ctx\<lparr>guestInvokeSlot := Holder None\<rparr>"
  "\<lambda>ctx c. c\<lparr>guestInvokeSlot := guestInvokeSlot ctx\<rparr>"
  by unfold_locales (simp_all add: WithGuestInvokeMetaHolder_def split: prod.splits)

interpretation instanceStartHolder: context_holder WithInstanceStartMetaHolder "\<lambda>ctx. ctx\<lparr>instanceStartSlot := Holder None\<rparr>"
  "\<lambda>ctx c. c\<lparr>instanceStartSlot := instanceStartSlot ctx\<rparr>"
  by unfold_locales (simp_all add: WithInstanceStartMetaHolder_def split: prod.splits)

interpretation invokeHolder: context_holder WithInvokeMetaHolder "\<lambda>ctx. ctx\<lparr>invokeSlot := Holder None\<rparr>"
  "\<lambda>ctx c. c\<lparr>invokeSlot := invokeSlot ctx\<rparr>"
  by unfold_locales (simp_all add: WithInvokeMetaHolder_def split: prod.splits)

interpretation routeFunctionHolder: context_holder WithRouteFunctionMetaHolder "\<lambda>ctx. ctx\<lparr>routeFunctionSlot := Holder None\<rparr>"
  "\<lambda>ctx c. c\<lparr>routeFunctionSlot := routeFunctionSlot ctx\<rparr>"
  by unfold_locales (simp_all add: WithRouteFunctionMetaHolder_def split: prod.splits)

interpretation registerRunnerHolder: context_holder WithRegisterRunnerMetaHolder "\<lambda>ctx. ctx\<lparr>registerRunnerSlot := Holder None\<rparr>"
  "\<lambda>ctx c. c\<lparr>registerRunnerSlot := registerRunnerSlot ctx\<rparr>"
  by unfold_locales (simp_all add: WithRegisterRunnerMetaHolder_def split: prod.splits)

interpretation apiErrorHolder: context_holder WithAPIErrorHolder "\<lambda>ctx. ctx\<lparr>apiErrorSlot := Holder None\<rparr>"
  "\<lambda>ctx c. c\<lparr>apiErrorSlot := apiErrorSlot ctx\<rparr>"
  by unfold_locales (simp_all add: WithAPIErrorHolder_def split: prod.splits)

lemmas holders_run_next =
  createFunctionHolder.runs_next
  downloadFunctionBinaryHolder.runs_next
  gatewayHolder.runs_next
  downloadHolder.runs_next
  guestInvokeHolder.runs_next
  instanceStartHolder.runs_next
  invokeHolder.runs_next
  routeFunctionHolder.runs_next
  registerRunnerHolder.runs_next
  apiErrorHolder.runs_next

section \<open>Interceptors leave calls as they are\<close>

lemma chain_orderD:
  assumes "chain_order chain"
  shows "chain [] req m h = h req" and "chain (i # is) req m h = i req m (\<lambda>q. chain is q m h)"
  using assms by (simp_all add: chain_order_def)

lemma client_chain_orderD:
  assumes "client_chain_order chain"
  shows "chain [] m req invk = invk m req" and "chain (i # is) m req invk = i m req (\<lambda>m' q. chain is m' q invk)"
  using assms by (simp_all add: client_chain_order_def)

lemma stack_orderD:
  assumes "stack_order stack"
  shows "stack [] h = h" and "stack (m # ms) h = m (stack ms h)"
  using assms by (simp_all add: stack_order_def)

lemma logs_aroundE:
  assumes "logs_around (c, err, a, ev) outer"
  obtains pre post where "list_all isLog (pre @ post)" and "outer = (c, err, a, pre @ ev @ post)"
  using assms by (auto simp: logs_around_def)

text \<open>
  What the two innermost interceptors of every server and of every client add to a call: nothing for an
  excluded method, log records around the events of the handler and then the annotation of the span
  for all others.
\<close>

definition observed :: "bool \<Rightarrow> recording \<Rightarrow> ('e Ctx \<times> 'a Reply) \<Rightarrow> ('e Ctx \<times> 'a Reply) \<Rightarrow> bool" where
  "observed allowed isRec inner outer \<longleftrightarrow>
     (case inner of (ctx, err, a, ev) \<Rightarrow>
        if \<not> allowed then outer = inner
        else \<exists>pre post. list_all isLog (pre @ post) \<and> outer = (ctx, err, a, pre @ ev @ post @ annotateSpan isRec ctx err))"

lemma observed_around:
  assumes "logs_around inner (ctx', err, a, evs)"
  shows "observed True isRec inner (ctx', err, a, evs @ annotateSpan isRec ctx' err)"
proof -
  obtain c e r ev where i: "inner = (c, e, r, ev)" by (cases inner) auto
  from assms[unfolded i] obtain pre post where "list_all isLog (pre @ post)"
      and "(ctx', err, a, evs) = (c, e, r, pre @ ev @ post)"
    by (rule logs_aroundE)
  then show ?thesis unfolding observed_def i by auto
qed

lemma instrumented_core:
  assumes ch: "chain_order chain" and lg: "logging_contract lib"
  shows "observed (grpcMethodAllowed m excluded) isRec (h req ctx)
    (chain [grpcServerTraceInterceptor isRec excluded, grpcServerLogger lib ord opts excluded] req m h ctx)"
proof (cases "grpcMethodAllowed m excluded")
  case True
  obtain c e r ev where l: "lib (grpcLogger ord opts) req m h ctx = (c, e, r, ev)" by (metis prod_cases4)
  have "logs_around (h req ctx) (c, e, r, ev)"
    using lg unfolding logging_contract_def l[symmetric] by blast
  from observed_around[OF this, of isRec] show ?thesis
    using True l by (simp add: chain_orderD[OF ch] grpcServerTraceInterceptor_def grpcServerLogger_def)
next
  case False
  then show ?thesis
    by (simp add: observed_def chain_orderD[OF ch] grpcServerTraceInterceptor_def grpcServerLogger_def
        split: prod.splits)
qed

lemma client_core:
  assumes ch: "client_chain_order chain" and lg: "client_logging_contract lib"
  shows "observed (grpcMethodAllowed m excluded) isRec (invk m req ctx)
    (chain [grpcClientTraceInterceptor isRec excluded, grpcClientLogger lib ord opts excluded] m req invk ctx)"
proof (cases "grpcMethodAllowed m excluded")
  case True
  obtain c e r ev where l: "lib (grpcLogger ord opts) m req invk ctx = (c, e, r, ev)" by (metis prod_cases4)
  have "logs_around (invk m req ctx) (c, e, r, ev)"
    using lg unfolding client_logging_contract_def l[symmetric] by blast
  from observed_around[OF this, of isRec] show ?thesis
    using True l by (simp add: client_chain_orderD[OF ch] grpcClientTraceInterceptor_def grpcClientLogger_def)
next
  case False
  then show ?thesis
    by (simp add: observed_def client_chain_orderD[OF ch] grpcClientTraceInterceptor_def grpcClientLogger_def
        split: prod.splits)
qed

text \<open>What a span gets of a call: the attributes the handler recorded, and its error.\<close>

lemma annotateSpan_iff:
  "SetAttributes as \<in> set (annotateSpan isRec ctx err) \<longleftrightarrow>
     isRec (span ctx) \<and> as = contextAttributes ctx \<and> as \<noteq> []"
  "RecordError e \<in> set (annotateSpan isRec ctx err) \<longleftrightarrow> isRec (span ctx) \<and> err = Some e"
  by (auto simp: annotateSpan_def Let_def split: option.splits)

section \<open>HTTP requests\<close>

text \<open>The recoverer and, inside it, the metrics: a panic of the handler becomes the status 500.\<close>

definition recovered :: "HttpPanic option \<Rightarrow> 'p Writer \<Rightarrow> 'p Writer" where
  "recovered pn w = (case pn of None \<Rightarrow> w | Some _ \<Rightarrow> WriteHeader 500 w)"

abbreviation httpMetrics :: "'p HttpLibs \<Rightarrow> string \<Rightarrow> bool \<Rightarrow> 'p HttpMw list" where
  "httpMetrics libs cfg on \<equiv>
     (if on then [hlRequestDurationMillis libs cfg, hlRequestInFlight libs cfg, hlResponseSizeBytes libs cfg] else [])"

lemma recoverer_stack:
  assumes st: "stack_order stack" and lib: "http_contract newSpan libs"
    and h: "h w ctx = (c, pn, w', ev)" and pn: "pn \<noteq> Some AbortHandler"
  shows "stack (hlRecoverer libs # httpMetrics libs cfg on) h w ctx = (c, None, recovered pn w', ev)"
proof -
  have m: "stack (httpMetrics libs cfg on) h = h"
    using lib by (simp add: stack_orderD[OF st] http_contract_def)
  have "recovers (hlRecoverer libs)" using lib by (simp add: http_contract_def)
  then have "hlRecoverer libs h w ctx = (c, None, recovered pn w', ev)"
    using h pn by (auto simp: recovers_def recovered_def split: option.splits HttpPanic.splits)
  then show ?thesis by (simp only: stack_orderD(2)[OF st] m)
qed

abbreviation httpLogger :: "iterorder \<Rightarrow> MonitoringOpts \<Rightarrow> Logger" where
  "httpLogger ord opts \<equiv> slogLogger ord opts \<lparr>hoLevel = moLevel opts, hoConcise = Some (IsDev opts)\<rparr>"

text \<open>The record of a request, if it is logged.\<close>

abbreviation accessLog :: "bool \<Rightarrow> Logger \<Rightarrow> KeyValue list \<Rightarrow> MonEvent list" where
  "accessLog logged l attrs \<equiv> (if logged then [AccessLog l attrs] else [])"

lemma logs_requestD:
  assumes "logs_request m" and "h w ctx = (c, None, w', ev)"
  shows "\<exists>logged. m l opts extra meth h w ctx = (c, None, w', ev @ accessLog logged l (extra c)) \<and>
    (meth \<noteq> ''OPTIONS'' \<and> hpLevel opts \<le> LevelInfo \<and> hoLevel (lgOptions l) \<le> LevelInfo \<longrightarrow> logged)"
  using assms unfolding logs_request_def by blast

lemma logger_stack:
  assumes st: "stack_order stack" and lib: "http_contract newSpan libs" and lvl: "moLevel opts \<le> 0"
    and h: "h w ctx = (c, pn, w', ev)" and pn: "pn \<noteq> Some AbortHandler"
  shows "\<exists>logged. (meth \<noteq> ''OPTIONS'' \<longrightarrow> logged) \<and>
    stack (CreateHTTPLogger libs render ord opts meth # hlRecoverer libs # httpMetrics libs cfg on) h w ctx =
      (c, None, recovered pn w', ev @ accessLog logged (httpLogger ord opts) (logExtraAttrs render c))"
proof -
  have r: "stack (hlRecoverer libs # httpMetrics libs cfg on) h w ctx = (c, None, recovered pn w', ev)"
    by (rule recoverer_stack[where h = h and w = w and ctx = ctx, OF st lib h pn])
  have "logs_request (hlRequestLogger libs)" using lib by (simp add: http_contract_def)
  from logs_requestD[where h = "stack (hlRecoverer libs # httpMetrics libs cfg on) h" and w = w and ctx = ctx, OF this r,
      of "httpLogger ord opts" "\<lparr>hpLevel = LevelInfo, hpRecoverPanics = True, hpLogRequestHeaders = [''Origin'']\<rparr>" "logExtraAttrs render" meth]
  obtain logged where lg: "hlRequestLogger libs (httpLogger ord opts)
        \<lparr>hpLevel = LevelInfo, hpRecoverPanics = True, hpLogRequestHeaders = [''Origin'']\<rparr> (logExtraAttrs render) meth
        (stack (hlRecoverer libs # httpMetrics libs cfg on) h) w ctx =
      (c, None, recovered pn w', ev @ accessLog logged (httpLogger ord opts) (logExtraAttrs render c))"
    and imp: "meth \<noteq> ''OPTIONS'' \<and> LevelInfo \<le> LevelInfo \<and> hoLevel (lgOptions (httpLogger ord opts)) \<le> LevelInfo \<longrightarrow> logged"
    unfolding HttplogOptions.select_convs by blast
  have "hoLevel (lgOptions (httpLogger ord opts)) \<le> LevelInfo"
    using lvl by (simp add: slogLogger_fields LevelInfo_def)
  with imp have "meth \<noteq> ''OPTIONS'' \<longrightarrow> logged" by simp
  moreover have "stack (CreateHTTPLogger libs render ord opts meth # hlRecoverer libs # httpMetrics libs cfg on) h w ctx =
      (c, None, recovered pn w', ev @ accessLog logged (httpLogger ord opts) (logExtraAttrs render c))"
    unfolding stack_orderD(2)[OF st, of "CreateHTTPLogger libs render ord opts meth"]
    unfolding CreateHTTPLogger_def by (rule lg)
  ultimately show ?thesis by blast
qed

text \<open>
  The whole stack of a server: the handler runs in a context with a span, a fresh holder for the API
  error and the fresh holders \<open>enter\<close> of the context middlewares. They are given by what they do to a
  stack behind them.
\<close>

lemma http_stack:
  assumes st: "stack_order stack" and lib: "http_contract newSpan libs" and lvl: "moLevel opts \<le> 0"
    and hold: "\<And>ms ctx. stack (mws @ ms) h w ctx =
      (leave ctx (fst (stack ms h w (enter ctx))), snd (stack ms h w (enter ctx)))"
    and h: "h w (enter (ctx\<lparr>span := Some (newSpan ctx), apiErrorSlot := Holder None\<rparr>)) = (c, pn, w', ev)"
    and pn: "pn \<noteq> Some AbortHandler"
  shows "\<exists>logged. (meth \<noteq> ''OPTIONS'' \<longrightarrow> logged) \<and>
    stack (HttpMiddleware libs render ord cfg opts mws meth) h w ctx =
    ((leave (ctx\<lparr>span := Some (newSpan ctx), apiErrorSlot := Holder None\<rparr>) c)\<lparr>apiErrorSlot := apiErrorSlot ctx, span := span ctx\<rparr>,
     None, recovered pn w', ev @ accessLog logged (httpLogger ord opts) (logExtraAttrs render c))"
proof -
  let ?inner = "CreateHTTPLogger libs render ord opts meth # hlRecoverer libs # httpMetrics libs cfg (moOTELOn opts)"
  have ms: "HttpMiddleware libs render ord cfg opts mws meth =
      hlOtelchi libs (moAppName opts) # holderMiddleware WithAPIErrorHolder # mws @ ?inner"
    by (simp add: HttpMiddleware_def Let_def)
  have sp: "starts_span newSpan (hlOtelchi libs (moAppName opts))" using lib by (simp add: http_contract_def)
  obtain logged where lg: "meth \<noteq> ''OPTIONS'' \<longrightarrow> logged"
    and "stack ?inner h w (enter (ctx\<lparr>span := Some (newSpan ctx), apiErrorSlot := Holder None\<rparr>)) =
      (c, None, recovered pn w', ev @ accessLog logged (httpLogger ord opts) (logExtraAttrs render c))"
    using logger_stack[where h = h and w = w and on = "moOTELOn opts" and meth = meth, OF st lib lvl h pn] by blast
  then have "stack (HttpMiddleware libs render ord cfg opts mws meth) h w ctx =
    ((leave (ctx\<lparr>span := Some (newSpan ctx), apiErrorSlot := Holder None\<rparr>) c)\<lparr>apiErrorSlot := apiErrorSlot ctx, span := span ctx\<rparr>,
     None, recovered pn w', ev @ accessLog logged (httpLogger ord opts) (logExtraAttrs render c))"
    unfolding ms stack_orderD(2)[OF st] sp[unfolded starts_span_def, rule_format] holderMiddleware_def
      apiErrorHolder.runs_next hold
    by simp
  with lg show ?thesis by blast
qed

end
