(* ===== verification/Telemetry.thy ===== *)
theory Telemetry
  imports Monitoring CommanderService RunnerServer
begin

text \<open>
  Providers and instruments of OpenTelemetry (\<open>InitOTEL\<close> and what it calls in \<open>pkg/server/monitoring.go\<close>), the
  metrics of the commander (\<open>pkg/commander/metrics.go\<close>) and of a runner (\<open>pkg/runner/metrics.go\<close>), and the
  load of a runner's machine (\<open>pkg/runner/system_metrics.go\<close>).

  A provider is known by the options it was made with. Exporters, the creation of instruments and the
  readings of the machine are answers of libraries and come in as arguments. What is acquired and
  given back is recorded as a list of actions; a list of errors stands for what \<open>errors.Join\<close> makes of
  them, and the empty list for nil. Durations are nanoseconds; their conversion to seconds as a
  floating point number is left to the library.
\<close>

section \<open>Resources\<close>

datatype Resource =
    TracerProvider | MeterProvider | Callback | Database | Poller | HttpServer | GrpcServer
  | CommanderConn | RunnerConns | GuestProcess nat | GuestConn nat

datatype Action = Acquire Resource | Release Resource

text \<open>What is held after a list of actions, and whether each of them made sense: nothing is acquired that is
  held, and nothing released that is not.\<close>

fun heldFrom :: "Resource list \<Rightarrow> Action list \<Rightarrow> Resource list" where
  "heldFrom rs [] = rs"
| "heldFrom rs (Acquire r # as) = heldFrom (r # rs) as"
| "heldFrom rs (Release r # as) = heldFrom (remove1 r rs) as"

fun balancedFrom :: "Resource list \<Rightarrow> Action list \<Rightarrow> bool" where
  "balancedFrom rs [] \<longleftrightarrow> True"
| "balancedFrom rs (Acquire r # as) \<longleftrightarrow> r \<notin> set rs \<and> balancedFrom (r # rs) as"
| "balancedFrom rs (Release r # as) \<longleftrightarrow> r \<in> set rs \<and> balancedFrom (remove1 r rs) as"

abbreviation held :: "Action list \<Rightarrow> Resource set" where
  "held as \<equiv> set (heldFrom [] as)"

abbreviation balanced :: "Action list \<Rightarrow> bool" where
  "balanced as \<equiv> balancedFrom [] as"

text \<open>A closer that reports an error does not count as a release.\<close>

definition closing :: "Resource \<Rightarrow> goerr option \<Rightarrow> Action list" where
  "closing r err = (case err of None \<Rightarrow> [Release r] | Some _ \<Rightarrow> [])"

definition errors_Join :: "goerr option list \<Rightarrow> goerr list" where
  "errors_Join es = List.map_filter (\<lambda>e. e) es"

section \<open>Providers\<close>

datatype 'x ProviderOption = AlwaysSample | WithResource "KeyValue list" | WithExporter "'x option"

type_synonym 'x Provider = "'x ProviderOption list"

record 'x OtelEnv =
  oeResourceErr :: "goerr option"
  oeTraceExporter :: "'x option \<times> goerr option"
  oeMetricExporter :: "'x option \<times> goerr option"
  oeMeterShutdown :: "goerr option"
  oeTracerShutdown :: "goerr option"

text \<open>The batcher is added before the error of the exporter is looked at.\<close>

definition InitTracerProvider :: "'x OtelEnv \<Rightarrow> KeyValue list \<Rightarrow> MonitoringOpts \<Rightarrow> 'x Provider res" where
  "InitTracerProvider env attrs opts =
     (let tracerOpts = [AlwaysSample, WithResource attrs]
      in if moOTELOn opts
         then (let (exporter, err) = oeTraceExporter env; tracerOpts1 = tracerOpts @ [WithExporter exporter]
               in case err of
                    Some e \<Rightarrow> Inl (wrapf ''failed to initialize exporter: %w'' [] e)
                  | None \<Rightarrow> Inr tracerOpts1)
         else Inr tracerOpts)"

definition InitMeter :: "'x OtelEnv \<Rightarrow> KeyValue list \<Rightarrow> MonitoringOpts \<Rightarrow> 'x Provider res" where
  "InitMeter env attrs opts =
     (let providerOpts = [WithResource attrs]
      in if moOTELOn opts
         then (case oeMetricExporter env of
                 (exporter, Some e) \<Rightarrow> Inl (wrapf ''failed to initialize exporter: %w'' [] e)
               | (exporter, None) \<Rightarrow> Inr (providerOpts @ [WithExporter exporter]))
         else Inr providerOpts)"

text \<open>The providers and propagators that the packages find with \<open>otel.Get...\<close>.\<close>

record 'x OtelGlobals =
  ogTracerProvider :: "'x Provider option"
  ogMeterProvider :: "'x Provider option"
  ogPropagators :: "string list"

definition resourceAttrs :: "MonitoringOpts \<Rightarrow> KeyValue list" where
  "resourceAttrs opts =
     [(''service.name'', StringAttr (moAppName opts)),
      (''service.version'', StringAttr (moAppVersion opts)),
      (''deployment.environment.name'', StringAttr (moEnv opts))]"

definition InitOTEL ::
  "'x OtelEnv \<Rightarrow> MonitoringOpts \<Rightarrow> 'x OtelGlobals \<Rightarrow> 'x OtelGlobals \<times> Action list \<times> 'x Provider res" where
  "InitOTEL env opts g =
     (case oeResourceErr env of
        Some err \<Rightarrow> (g, [], Inl (wrapf ''failed to initialize resource: %w'' [] err))
      | None \<Rightarrow>
          (case InitTracerProvider env (resourceAttrs opts) opts of
             Inl err \<Rightarrow> (g, [], Inl (wrapf ''failed to initialize tracer provider: %w'' [] err))
           | Inr tp \<Rightarrow>
               (case InitMeter env (resourceAttrs opts) opts of
                  Inl err \<Rightarrow>
                    (g, [Acquire TracerProvider], Inl (wrapf ''failed to initialize meter provider: %w'' [] err))
                | Inr mp \<Rightarrow>
                    (g\<lparr>ogTracerProvider := Some tp, ogMeterProvider := Some mp,
                       ogPropagators := [''tracecontext'', ''baggage'']\<rparr>,
                     [Acquire TracerProvider, Acquire MeterProvider], Inr mp))))"

text \<open>The closer that \<open>InitOTEL\<close> returns.\<close>

definition otelShutdown :: "'x OtelEnv \<Rightarrow> Action list \<times> goerr list" where
  "otelShutdown env =
     (closing MeterProvider (oeMeterShutdown env) @ closing TracerProvider (oeTracerShutdown env),
      errors_Join [oeMeterShutdown env, oeTracerShutdown env])"

text \<open>The base configuration is known by the name of the server and its provider.\<close>

definition InitHttpOTEL ::
  "'x OtelEnv \<Rightarrow> MonitoringOpts \<Rightarrow> 'x OtelGlobals \<Rightarrow>
   'x OtelGlobals \<times> Action list \<times> (string \<times> 'x Provider) res" where
  "InitHttpOTEL env opts g =
     (case InitOTEL env opts g of
        (g', as, Inl err) \<Rightarrow> (g', as, Inl (wrapf ''OTEL initialization failed: %w'' [] err))
      | (g', as, Inr mp) \<Rightarrow> (g', as, Inr (moAppName opts, mp)))"

section \<open>Instruments\<close>

text \<open>
  A meter keeps the callbacks that are registered with it and the instruments each observes.
  \<open>meInstrument\<close> is the error of creating the instrument of a name, \<open>meRegister\<close> that of registering.
\<close>

record MeterEnv =
  meInstrument :: "string \<Rightarrow> goerr option"
  meRegister :: "goerr option"

record Meter =
  mtCallbacks :: "(nat, string list) fmap"
  mtNext :: nat

fun createInstruments :: "MeterEnv \<Rightarrow> string list \<Rightarrow> goerr option" where
  "createInstruments env [] = None"
| "createInstruments env (name # names) =
     (case meInstrument env name of Some err \<Rightarrow> Some err | None \<Rightarrow> createInstruments env names)"

definition RegisterCallback :: "MeterEnv \<Rightarrow> string list \<Rightarrow> Meter \<Rightarrow> Meter \<times> nat res" where
  "RegisterCallback env instruments m =
     (case meRegister env of
        Some err \<Rightarrow> (m, Inl err)
      | None \<Rightarrow> (m\<lparr>mtCallbacks := fmupd (mtNext m) instruments (mtCallbacks m), mtNext := mtNext m + 1\<rparr>, Inr (mtNext m)))"

definition Unregister :: "nat \<Rightarrow> Meter \<Rightarrow> Meter" where
  "Unregister reg m = m\<lparr>mtCallbacks := fmdrop reg (mtCallbacks m)\<rparr>"

definition unregisterAll :: "nat option list \<Rightarrow> Meter \<Rightarrow> Meter" where
  "unregisterAll regs m = fold (\<lambda>reg. case reg of None \<Rightarrow> id | Some r \<Rightarrow> Unregister r) regs m"

type_synonym Observation = "string \<times> int \<times> KeyValue list"

section \<open>Metrics of the commander\<close>

record CommanderMetrics =
  cmRunnersGauge :: string
  cmCachedInstancesGauge :: string
  cmRegistrations :: "nat option list"

definition NewCommanderMetrics :: "MeterEnv \<Rightarrow> Meter \<Rightarrow> Meter \<times> CommanderMetrics res" where
  "NewCommanderMetrics env m =
     (case createInstruments env [''commander_runners_gauge'', ''commander_cached_instances_gauge''] of
        Some err \<Rightarrow> (m, Inl err)
      | None \<Rightarrow>
          (case RegisterCallback env [''commander_runners_gauge'', ''commander_cached_instances_gauge''] m of
             (m', Inl err) \<Rightarrow> (m', Inl err)
           | (m', Inr reg) \<Rightarrow>
               (m', Inr \<lparr>cmRunnersGauge = ''commander_runners_gauge'',
                         cmCachedInstancesGauge = ''commander_cached_instances_gauge'',
                         cmRegistrations = [Some reg]\<rparr>)))"

definition commanderCallback ::
  "'w CommanderDB \<Rightarrow> 'c RoutingCache \<Rightarrow> 'w \<Rightarrow> 'c \<Rightarrow> 'w \<times> Observation list \<times> goerr option" where
  "commanderCallback d cch w c =
     (let (w', runns) = dbGetAllRunners d w;
          cachedInstances = rcCachedInstancesCount cch c
      in (w',
          (case runns of Inr rs \<Rightarrow> [(''commander_runners_gauge'', int (length rs), [])] | Inl _ \<Rightarrow> []) @
          (case cachedInstances of Inr n \<Rightarrow> [(''commander_cached_instances_gauge'', int n, [])] | Inl _ \<Rightarrow> []),
          (case runns of
             Inl err \<Rightarrow> Some err
           | Inr _ \<Rightarrow> (case cachedInstances of Inl err \<Rightarrow> Some err | Inr _ \<Rightarrow> None))))"

definition CommanderMetrics_Close :: "CommanderMetrics option \<Rightarrow> Meter \<Rightarrow> Meter" where
  "CommanderMetrics_Close cm m = (case cm of None \<Rightarrow> m | Some x \<Rightarrow> unregisterAll (cmRegistrations x) m)"

text \<open>\<open>CommanderService.Close\<close>: the service may be nil, and its metrics too.\<close>

definition CommanderService_Close :: "CommanderMetrics option option \<Rightarrow> Meter \<Rightarrow> Meter" where
  "CommanderService_Close svc m =
     (case svc of None \<Rightarrow> m | Some None \<Rightarrow> m | Some (Some metrics) \<Rightarrow> CommanderMetrics_Close (Some metrics) m)"

section \<open>Metrics of a runner\<close>

record RunnerMetrics =
  rmPrepareDownloadDur :: string
  rmPrepareStartDur :: string
  rmInvokeQueueWait :: string
  rmInvokeGuestDuration :: string
  rmInstanceQueueDepth :: string
  rmInstancesActive :: string
  rmRegistrations :: "nat option list"

definition NewRunnerMetrics :: "MeterEnv \<Rightarrow> Meter \<Rightarrow> Meter \<times> RunnerMetrics res" where
  "NewRunnerMetrics env m =
     (case createInstruments env
             [''runner_prepare_download_duration_seconds'', ''runner_prepare_start_duration_seconds'',
              ''runner_invoke_queue_wait_seconds'', ''runner_invoke_guest_duration_seconds'',
              ''runner_instance_queue_depth'', ''runner_instances_active''] of
        Some err \<Rightarrow> (m, Inl err)
      | None \<Rightarrow>
          (case RegisterCallback env [''runner_instances_active'', ''runner_instance_queue_depth''] m of
             (m', Inl err) \<Rightarrow> (m', Inl err)
           | (m', Inr reg) \<Rightarrow>
               (m', Inr \<lparr>rmPrepareDownloadDur = ''runner_prepare_download_duration_seconds'',
                         rmPrepareStartDur = ''runner_prepare_start_duration_seconds'',
                         rmInvokeQueueWait = ''runner_invoke_queue_wait_seconds'',
                         rmInvokeGuestDuration = ''runner_invoke_guest_duration_seconds'',
                         rmInstanceQueueDepth = ''runner_instance_queue_depth'',
                         rmInstancesActive = ''runner_instances_active'',
                         rmRegistrations = [Some reg]\<rparr>)))"

definition runnerCallback ::
  "iterorder \<Rightarrow> int \<Rightarrow> ('q, 'rt) InstancesStates \<Rightarrow> Observation list \<times> goerr option" where
  "runnerCallback ord now is =
     (let depths = RunnerInstances.QueueDepths now 0 is
      in ((''runner_instances_active'', int (ActiveInstancesCount is), []) #
          map (\<lambda>instanceID. (''runner_instance_queue_depth'', uint (fmget 0 depths instanceID),
                              [(''instance_id'', StringAttr instanceID)]))
            (ord (fmdom depths)), None))"

definition RunnerMetrics_Close :: "RunnerMetrics option \<Rightarrow> Meter \<Rightarrow> Meter" where
  "RunnerMetrics_Close rm m = (case rm of None \<Rightarrow> m | Some x \<Rightarrow> unregisterAll (rmRegistrations x) m)"

text \<open>\<open>runnerGrpcServer.Close\<close>: the server may be nil, and its metrics too.\<close>

definition runnerGrpcServer_Close :: "RunnerMetrics option option \<Rightarrow> Meter \<Rightarrow> Meter" where
  "runnerGrpcServer_Close r m =
     (case r of None \<Rightarrow> m | Some None \<Rightarrow> m | Some (Some metrics) \<Rightarrow> RunnerMetrics_Close (Some metrics) m)"

text \<open>What is recorded in the histograms: the instrument and the duration.\<close>

type_synonym Measurement = "string \<times> int"

definition RecordPrepareDownload :: "RunnerMetrics option \<Rightarrow> int \<Rightarrow> Measurement list" where
  "RecordPrepareDownload m took = (case m of None \<Rightarrow> [] | Some x \<Rightarrow> [(rmPrepareDownloadDur x, took)])"

definition RecordPrepareStart :: "RunnerMetrics option \<Rightarrow> int \<Rightarrow> Measurement list" where
  "RecordPrepareStart m took = (case m of None \<Rightarrow> [] | Some x \<Rightarrow> [(rmPrepareStartDur x, took)])"

definition RecordInvokeQueueWait :: "RunnerMetrics option \<Rightarrow> int \<Rightarrow> Measurement list" where
  "RecordInvokeQueueWait m took = (case m of None \<Rightarrow> [] | Some x \<Rightarrow> [(rmInvokeQueueWait x, took)])"

definition RecordInvokeGuestDuration :: "RunnerMetrics option \<Rightarrow> int \<Rightarrow> Measurement list" where
  "RecordInvokeGuestDuration m took = (case m of None \<Rightarrow> [] | Some x \<Rightarrow> [(rmInvokeGuestDuration x, took)])"

section \<open>The load of the machine\<close>

record SystemMetrics =
  smCPUPercent :: "64 word"
  smUnusedMemoryBytes :: uint64

record SystemMetricsCollector =
  lastCallTime :: int

definition NewSystemMetricsCollector :: "int \<Rightarrow> SystemMetricsCollector" where
  "NewSystemMetricsCollector now = \<lparr>lastCallTime = now\<rparr>"

text \<open>
  \<open>cpuPercent\<close> measures over an interval and blocks for that long; its percentages are the bits of floating
  point numbers. \<open>virtualMemory\<close> is the available memory.
\<close>

definition Collect ::
  "(int \<Rightarrow> 64 word list res) \<Rightarrow> uint64 res \<Rightarrow> int \<Rightarrow> SystemMetricsCollector \<Rightarrow>
   SystemMetricsCollector \<times> SystemMetrics \<times> goerr option" where
  "Collect cpuPercent virtualMemory now mc =
     (let metrics = \<lparr>smCPUPercent = 0, smUnusedMemoryBytes = 0\<rparr>;
          interval = now - lastCallTime mc;
          mc' = mc\<lparr>lastCallTime := now\<rparr>;
          interval1 = (if interval > 100000000 then 100000000 else interval)
      in case cpuPercent interval1 of
           Inl err \<Rightarrow> (mc', metrics, Some (wrapf ''failed to get CPU stats: %w'' [] err))
         | Inr cpuPercents \<Rightarrow>
             (let metrics1 = (case cpuPercents of [] \<Rightarrow> metrics | p # _ \<Rightarrow> metrics\<lparr>smCPUPercent := p\<rparr>)
              in case virtualMemory of
                   Inl err \<Rightarrow> (mc', metrics1, Some (wrapf ''failed to get memory stats: %w'' [] err))
                 | Inr available \<Rightarrow> (mc', metrics1\<lparr>smUnusedMemoryBytes := available\<rparr>, None)))"

section \<open>Providers are all there or none\<close>

definition exportersOk :: "'x OtelEnv \<Rightarrow> MonitoringOpts \<Rightarrow> bool" where
  "exportersOk env opts \<longleftrightarrow>
     oeResourceErr env = None \<and> (moOTELOn opts \<longrightarrow> snd (oeTraceExporter env) = None \<and> snd (oeMetricExporter env) = None)"

lemma InitTracerProvider_iff:
  "(\<exists>tp. InitTracerProvider env as opts = Inr tp) \<longleftrightarrow> (moOTELOn opts \<longrightarrow> snd (oeTraceExporter env) = None)"
  by (auto simp: InitTracerProvider_def Let_def split: prod.splits option.splits)

lemma InitMeter_iff:
  "(\<exists>mp. InitMeter env as opts = Inr mp) \<longleftrightarrow> (moOTELOn opts \<longrightarrow> snd (oeMetricExporter env) = None)"
  by (auto simp: InitMeter_def Let_def split: prod.splits option.splits)

text \<open>
  Initialisation succeeds exactly when the resource and, if telemetry is on, both exporters can be
  made; only then the providers of the process are set, and both have to be shut down. Otherwise nothing is
  set, but a tracer provider stays open when only the meter failed.
\<close>

lemma InitOTEL_spec:
  assumes "InitOTEL env opts g = (g', as, r)"
  shows "(\<exists>mp. r = Inr mp) \<longleftrightarrow> exportersOk env opts"
    and "exportersOk env opts \<Longrightarrow> as = [Acquire TracerProvider, Acquire MeterProvider] \<and>
      ogMeterProvider g' \<noteq> None \<and> ogTracerProvider g' \<noteq> None \<and> r = Inr (the (ogMeterProvider g'))"
    and "\<not> exportersOk env opts \<Longrightarrow> g' = g \<and> as = (if oeResourceErr env = None \<and> moOTELOn opts \<and>
      snd (oeTraceExporter env) = None then [Acquire TracerProvider] else [])"
  using assms
  by (auto simp: InitOTEL_def exportersOk_def InitTracerProvider_def InitMeter_def Let_def
      split: option.splits sum.splits prod.splits if_splits)

lemma InitHttpOTEL_spec:
  assumes "InitHttpOTEL env opts g = (g', as, r)"
  shows "(\<exists>cfg. r = Inr cfg) \<longleftrightarrow> exportersOk env opts"
    and "exportersOk env opts \<Longrightarrow> as = [Acquire TracerProvider, Acquire MeterProvider]"
    and "\<not> exportersOk env opts \<Longrightarrow> as = (if oeResourceErr env = None \<and> moOTELOn opts \<and>
      snd (oeTraceExporter env) = None then [Acquire TracerProvider] else [])"
proof -
  obtain g1 as1 r1 where i: "InitOTEL env opts g = (g1, as1, r1)" by (metis prod_cases3)
  have "as = as1" and "(\<exists>cfg. r = Inr cfg) \<longleftrightarrow> (\<exists>mp. r1 = Inr mp)"
    using assms i by (auto simp: InitHttpOTEL_def split: sum.splits)
  then show "(\<exists>cfg. r = Inr cfg) \<longleftrightarrow> exportersOk env opts"
    and "exportersOk env opts \<Longrightarrow> as = [Acquire TracerProvider, Acquire MeterProvider]"
    and "\<not> exportersOk env opts \<Longrightarrow> as = (if oeResourceErr env = None \<and> moOTELOn opts \<and>
      snd (oeTraceExporter env) = None then [Acquire TracerProvider] else [])"
    using InitOTEL_spec[OF i] by simp_all
qed

lemma errors_Join_nil [simp]: "errors_Join es = [] \<longleftrightarrow> (\<forall>e \<in> set es. e = None)"
  by (induction es) (auto simp: errors_Join_def List.map_filter_def)

section \<open>Callbacks are registered once and taken back\<close>

definition meter_inv :: "Meter \<Rightarrow> bool" where
  "meter_inv m \<longleftrightarrow> (\<forall>i. mtNext m \<le> i \<longrightarrow> fmlookup (mtCallbacks m) i = None)"

lemma RegisterCallback_cases:
  assumes "RegisterCallback env names m = (m', r)"
  obtains (failed) err where "r = Inl err" and "m' = m" and "meRegister env = Some err"
  | (registered) "r = Inr (mtNext m)" and "mtCallbacks m' = fmupd (mtNext m) names (mtCallbacks m)" and "mtNext m' = mtNext m + 1"
    and "meRegister env = None"
  using assms by (auto simp: RegisterCallback_def split: option.splits)

lemma unregister_registered:
  assumes "meter_inv m" and "mtCallbacks m' = fmupd (mtNext m) names (mtCallbacks m)"
  shows "mtCallbacks (unregisterAll [Some (mtNext m)] m') = mtCallbacks m"
  using assms by (auto simp: unregisterAll_def Unregister_def meter_inv_def intro!: fmap_ext)

text \<open>Creating the metrics of a process registers exactly one callback, or none when it fails, and closing
  them takes exactly this callback back.\<close>

lemma commander_metrics_close:
  assumes "meter_inv m" and "NewCommanderMetrics env m = (m', r)"
  shows "case r of Inl _ \<Rightarrow> m' = m
    | Inr cm \<Rightarrow> mtCallbacks m' = fmupd (mtNext m) [cmRunnersGauge cm, cmCachedInstancesGauge cm] (mtCallbacks m) \<and>
        mtCallbacks (CommanderService_Close (Some (Some cm)) m') = mtCallbacks m"
  using assms
  by (auto simp: NewCommanderMetrics_def CommanderService_Close_def CommanderMetrics_Close_def
      unregister_registered elim!: RegisterCallback_cases split: option.splits prod.splits sum.splits)

lemma runner_metrics_close:
  assumes "meter_inv m" and "NewRunnerMetrics env m = (m', r)"
  shows "case r of Inl _ \<Rightarrow> m' = m
    | Inr rm \<Rightarrow> mtCallbacks m' = fmupd (mtNext m) [rmInstancesActive rm, rmInstanceQueueDepth rm] (mtCallbacks m) \<and>
        mtCallbacks (runnerGrpcServer_Close (Some (Some rm)) m') = mtCallbacks m"
  using assms
  by (auto simp: NewRunnerMetrics_def runnerGrpcServer_Close_def RunnerMetrics_Close_def
      unregister_registered elim!: RegisterCallback_cases split: option.splits prod.splits sum.splits)

section \<open>Gauges tell the truth\<close>

lemma commander_gauges:
  assumes inv: "db_inv t"
    and cb: "commanderCallback (SQLiteCommanderDB neverDone sqlQueries) (inMemoryRoutingCache ord) t c = (t', obs, err)"
  shows "same_rows funsOf runnsOf t t' \<and>
    obs = (if err = None then [(''commander_runners_gauge'', int (card (runnsOf t)), [])] else []) @
      [(''commander_cached_instances_gauge'', int (fcard (fmdom (instanceRunner c))), [])]"
proof -
  obtain r where g: "dbGetAllRunners (SQLiteCommanderDB neverDone sqlQueries) t = (t', r)"
    using cb by (auto simp: commanderCallback_def Let_def split: prod.splits)
  have rows: "same_rows funsOf runnsOf t t'"
    and rs: "\<And>rs. r = Inr rs \<Longrightarrow> set rs = runnsOf t \<and> distinct (map Addr rs)"
    using sqlite.all_runners[OF inv g] by auto
  have "length rs = card (runnsOf t)" if "r = Inr rs" for rs
    using rs[OF that] by (metis distinct_card distinct_map)
  with rows show ?thesis
    using cb g by (auto simp: commanderCallback_def Let_def inMemoryRoutingCache_def CachedInstancesCount_def split: sum.splits)
qed

text \<open>A runner reports the number of its instances and, for each whose timer has not run out, the length of
  its queue; the order in which they are visited does not matter.\<close>

lemma runner_gauges:
  assumes "iter_order ord" and "queues_bounded is"
  shows "set (fst (runnerCallback ord now is)) =
    insert (''runner_instances_active'', int (fcard (fmdom (instanceStates is))), [])
     {(''runner_instance_queue_depth'', int (length (queue s)), [(''instance_id'', StringAttr i)]) | i s.
       fmlookup (instanceStates is) i = Some s \<and> now \<le> lastUsedTimerEnd s}"
proof -
  let ?d = "RunnerInstances.QueueDepths now 0 is"
  have d: "fmlookup ?d i = (case fmlookup (instanceStates is) i of None \<Rightarrow> None
      | Some s \<Rightarrow> if now \<le> lastUsedTimerEnd s then Some (of_nat (length (queue s))) else None)" for i
    by (auto simp: RunnerInstances.QueueDepths_def split: option.splits)
  have u: "uint (of_nat (length (queue s)) :: uint32) = int (length (queue s))"
    if "fmlookup (instanceStates is) i = Some s" for i s
  proof -
    have "length (queue s) \<le> 100" using assms(2) that by (auto simp: queues_bounded_def InvocationsQueueMaxLen_def)
    then show ?thesis by (simp add: uint_nat unat_of_nat)
  qed
  have dom: "x \<in> set (ord (fmdom ?d)) \<longleftrightarrow> (\<exists>s. fmlookup (instanceStates is) x = Some s \<and> now \<le> lastUsedTimerEnd s)" for x
    by (auto simp: iter_orderD(2)[OF assms(1)] fmlookup_dom_iff d split: option.splits if_splits)
  have "set (map (\<lambda>i. (''runner_instance_queue_depth'', uint (fmget 0 ?d i), [(''instance_id'', StringAttr i)])) (ord (fmdom ?d))) =
     {(''runner_instance_queue_depth'', int (length (queue s)), [(''instance_id'', StringAttr i)]) | i s.
       fmlookup (instanceStates is) i = Some s \<and> now \<le> lastUsedTimerEnd s}" (is "?L = ?R")
  proof (intro set_eqI iffI)
    show "x \<in> ?R" if "x \<in> ?L" for x
      using that by (auto simp: dom fmget_def d u)
    show "x \<in> ?L" if "x \<in> ?R" for x
    proof -
      from that obtain i s where x: "x = (''runner_instance_queue_depth'', int (length (queue s)), [(''instance_id'', StringAttr i)])"
        and i: "fmlookup (instanceStates is) i = Some s" "now \<le> lastUsedTimerEnd s" by blast
      have "fmget 0 ?d i = of_nat (length (queue s))" using i by (simp add: fmget_def d)
      then show ?thesis using x i u[OF i(1)] dom by (auto intro!: image_eqI[of _ _ i])
    qed
  qed
  then show ?thesis by (simp add: runnerCallback_def Let_def ActiveInstancesCount_def)
qed

section \<open>The load of the machine\<close>

text \<open>The machine is measured over at most a tenth of a second, whatever the time since the last heartbeat, and
  over what has passed since then when that is shorter.\<close>

lemma Collect_interval:
  "Collect (\<lambda>i. if i = min (now - lastCallTime mc) 100000000 then cpu i else Inl e) memo now mc = Collect cpu memo now mc"
  "lastCallTime (fst (Collect cpu memo now mc)) = now"
  by (simp_all add: Collect_def Let_def min_def split: sum.splits)

lemma Collect_ok:
  assumes "cpu (min (now - lastCallTime mc) 100000000) = Inr ps" and "memo = Inr m"
  shows "snd (Collect cpu memo now mc) = (\<lparr>smCPUPercent = (if ps = [] then 0 else hd ps), smUnusedMemoryBytes = m\<rparr>, None)"
  using assms by (simp add: Collect_def Let_def min_def not_le split: if_splits list.splits)

lemma Collect_failed:
  "snd (snd (Collect cpu memo now mc)) \<noteq> None \<longleftrightarrow>
     (\<exists>e. cpu (min (now - lastCallTime mc) 100000000) = Inl e) \<or> (\<exists>e. memo = Inl e)"
  by (cases "cpu (min (now - lastCallTime mc) 100000000)"; cases memo)
    (simp_all add: Collect_def Let_def min_def not_le split: if_splits)

end
