(* ===== verification/Processes.thy ===== *)
theory Processes
  imports Telemetry CommanderHandlers Gateway "HOL-Library.Sublist"
begin

text \<open>
  The three server processes from \<open>main\<close> to exit: configuration (\<open>pkg/server/config.go\<close>), the \<open>Run\<close> functions
  (\<open>pkg/commander/run.go\<close>, \<open>pkg/runner/run.go\<close>, \<open>pkg/gateway/run.go\<close>), opening the database
  (\<open>pkg/commander/db.go\<close>) and the \<open>main\<close> functions under \<open>cmd\<close>.

  \<open>Run\<close> is a function of its configuration and of the answers it gets from libraries and from the
  operating system (\<open>RunEnv\<close>), among them what ends its wait: a signal, or a server that stops. It gives
  the error it returns, as the list of the joined errors, or a panic, together with the list of what it
  acquired and released. Deferred calls come last, in reverse order, on every way out. A closer that
  reports an error has released nothing. A server that ended by itself no longer runs, which counts as its
  release unless its closer is called after that; the poller ends when the context of \<open>Run\<close> does. What
  the handlers of a runner start while it serves, the processes of the guests and the connections to them,
  is acquired by its \<open>Run\<close> too.
\<close>

section \<open>Configuration\<close>

definition LoadConfigFromYAML ::
  "(string \<Rightarrow> bytes res) \<Rightarrow> (bytes \<Rightarrow> 'c res) \<Rightarrow> string \<Rightarrow> 'c res" where
  "LoadConfigFromYAML readFile unmarshal configPath =
     (if configPath = [] then Inl (Errorf ''config path is required'' [] None)
      else case readFile configPath of
             Inl err \<Rightarrow> Inl (wrapf ''read config %q: %w'' [configPath] err)
           | Inr configBytes \<Rightarrow>
               (case unmarshal configBytes of
                  Inl err \<Rightarrow> Inl (wrapf ''decode config %q: %w'' [configPath] err)
                | Inr config \<Rightarrow> Inr config))"

text \<open>The configuration, or the exit code of the process. The flag is the one that was parsed.\<close>

definition ParseFlagsAndLoadConfig ::
  "(string \<Rightarrow> bytes res) \<Rightarrow> (bytes \<Rightarrow> 'c res) \<Rightarrow> string \<Rightarrow> int + 'c" where
  "ParseFlagsAndLoadConfig readFile unmarshal configPath =
     (if configPath = [] then Inl 2
      else case LoadConfigFromYAML readFile unmarshal configPath of Inl err \<Rightarrow> Inl 1 | Inr config \<Rightarrow> Inr config)"

text \<open>The exit code of a process; a panic that nobody recovers ends it with 2.\<close>

definition main ::
  "(string \<Rightarrow> bytes res) \<Rightarrow> (bytes \<Rightarrow> 'c res) \<Rightarrow> string \<Rightarrow> ('c \<Rightarrow> goerr list outcome \<times> Action list) \<Rightarrow> int" where
  "main readFile unmarshal configPath run =
     (case ParseFlagsAndLoadConfig readFile unmarshal configPath of
        Inl code \<Rightarrow> code
      | Inr config \<Rightarrow>
          (case fst (run config) of Panics msg \<Rightarrow> 2 | Returns errs \<Rightarrow> if errs \<noteq> [] then 1 else 0))"

section \<open>Shared steps\<close>

text \<open>\<open>net.JoinHostPort\<close>.\<close>

definition net_JoinHostPort :: "string \<Rightarrow> string \<Rightarrow> string" where
  "net_JoinHostPort host port =
     (if CHR '':'' \<in> set host then ''['' @ host @ '']:'' @ port else host @ '':'' @ port)"

text \<open>\<open>CloseWithCtx\<close>: the closer runs, and its error is only logged.\<close>

definition CloseWithCtx :: "(Action list \<times> goerr list) option \<Rightarrow> Action list outcome" where
  "CloseWithCtx closer =
     assertThat (closer \<noteq> None) ''caller send nil closer''
      (case closer of Some (as, errs) \<Rightarrow> Returns as | None \<Rightarrow> Returns [])"

type_synonym 'a run = "'a outcome \<times> Action list"

text \<open>What is done before, and what a deferred call does after, the rest of the function.\<close>

definition doing :: "Action list \<Rightarrow> 'a run \<Rightarrow> 'a run" where
  "doing as r = (fst r, as @ snd r)"

definition deferring :: "Action list \<Rightarrow> 'a run \<Rightarrow> 'a run" where
  "deferring as r = (fst r, snd r @ as)"

text \<open>The deferred \<open>cancel\<close> ends the context of \<open>Run\<close>, and with it the poller if it is still running.\<close>

definition cancelling :: "'a run \<Rightarrow> 'a run" where
  "cancelling r = deferring (if Poller \<in> held (snd r) then [Release Poller] else []) r"

definition returning :: "'a \<Rightarrow> 'a run" where
  "returning x = (Returns x, [])"

text \<open>
  What the goroutine of a server sends on its channel when the server stops: nothing, then the channel is
  closed, if it was told to stop, and its error otherwise. HTTP and gRPC servers in turn.
\<close>

definition ErrServerClosed :: goerr where
  "ErrServerClosed = ErrExternal ''http: Server closed''"

definition ErrServerStopped :: goerr where
  "ErrServerStopped = ErrExternal ''grpc: the server has been stopped''"

definition httpServeErr :: "goerr option \<Rightarrow> goerr option" where
  "httpServeErr res =
     (case res of None \<Rightarrow> None | Some err \<Rightarrow> if err \<noteq> ErrServerClosed then Some err else None)"

definition grpcServeErr :: "goerr option \<Rightarrow> goerr option" where
  "grpcServeErr res =
     (case res of
        None \<Rightarrow> None
      | Some err \<Rightarrow> if err \<noteq> ErrServerStopped then Some (wrapf ''grpc server failed to serve: %w'' [] err) else None)"

section \<open>Opening the database\<close>

record DbEnv =
  deOpen :: "goerr option"
  dePing :: "goerr option"
  deMigrations :: "goerr option"
  deDriver :: "goerr option"
  deMigrate :: "goerr option"
  deUp :: "goerr option"

definition ErrNoChange :: goerr where
  "ErrNoChange = ErrExternal ''no change''"

definition migrateUp :: "DbEnv \<Rightarrow> goerr option" where
  "migrateUp env =
     (case deMigrations env of
        Some err \<Rightarrow> Some (wrapf ''failed to read migrations: %w'' [] err)
      | None \<Rightarrow>
          (case deDriver env of
             Some err \<Rightarrow> Some (wrapf ''failed to create sqlite migrate driver: %w'' [] err)
           | None \<Rightarrow>
               (case deMigrate env of
                  Some err \<Rightarrow> Some (wrapf ''failed to initialize migrate: %w'' [] err)
                | None \<Rightarrow>
                    (case deUp env of
                       Some err \<Rightarrow>
                         (if err \<noteq> ErrNoChange then Some (wrapf ''migrate up failed: %w'' [] err) else None)
                     | None \<Rightarrow> None))))"

definition NewSQLiteDB :: "DbEnv \<Rightarrow> Action list \<times> unit res" where
  "NewSQLiteDB env =
     (case deOpen env of
        Some err \<Rightarrow> ([], Inl err)
      | None \<Rightarrow>
          (case dePing env of
             Some err \<Rightarrow> ([Acquire Database], Inl (wrapf ''ping failed: %w'' [] err))
           | None \<Rightarrow>
               (case migrateUp env of
                  Some err \<Rightarrow> ([Acquire Database], Inl (wrapf ''migrate db schema failed: %w'' [] err))
                | None \<Rightarrow> ([Acquire Database], Inr ()))))"

text \<open>\<open>SQLiteCommanderDB.Close\<close>.\<close>

definition SQLiteDB_Close :: "goerr option \<Rightarrow> Action list \<times> goerr option" where
  "SQLiteDB_Close err = (closing Database err, err)"

text \<open>The logger that the migrations write to: newlines at the end of a format are cut off.\<close>

definition strings_TrimRight :: "string \<Rightarrow> string \<Rightarrow> string" where
  "strings_TrimRight s cutset = rev (dropWhile (\<lambda>c. c \<in> set cutset) (rev s))"

definition slogLogger_Printf :: "string \<Rightarrow> string list \<Rightarrow> gotext" where
  "slogLogger_Printf format v = Fmt (strings_TrimRight format [CHR 0x0A]) v"

section \<open>The commander\<close>

record CommanderConfig =
  ccAppName :: string
  ccEnv :: string
  ccOTELOn :: bool
  ccHost :: string
  ccHttpPort :: string
  ccGrpcPort :: string
  ccDbURI :: string
  ccFuncStorageRoot :: string
  ccRunnerHeartbeatPoll :: int
  ccRunnerOverloadedQueueSize :: goint
  ccInstanceOverloadedQueueSize :: goint

definition GrpcAddr :: "CommanderConfig \<Rightarrow> string" where
  "GrpcAddr c = net_JoinHostPort (ccHost c) (ccGrpcPort c)"

text \<open>What ends the wait of \<open>Run\<close>: a signal, or a server that stopped, with what serving returned.\<close>

datatype RunEvent = Interrupted | HttpEnded "goerr option" | GrpcEnded "goerr option"

text \<open>The runner and the gateway have one server each.\<close>

datatype ServeEvent = Signalled | Ended "goerr option"

record 'x RunEnv =
  reOtel :: "'x OtelEnv"
  reGlobals :: "'x OtelGlobals"
  reMeter :: MeterEnv
  reMeterState :: Meter
  reFs :: FS
  reDb :: DbEnv
  reListen :: "goerr option"
  reEvent :: RunEvent
  reDbClose :: "goerr option"
  reHttpShutdown :: "goerr option"

definition createMiddleware ::
  "'p HttpLibs \<Rightarrow> (gotext \<Rightarrow> string) \<Rightarrow> iterorder \<Rightarrow> string \<Rightarrow> MonitoringOpts \<Rightarrow> string \<Rightarrow> 'p HttpMw list" where
  "createMiddleware libs render ord otelCfg loggingOpts meth =
     HttpMiddleware libs render ord otelCfg loggingOpts
       [holderMiddleware WithCreateFunctionMetaHolder, holderMiddleware WithDownloadFunctionBinaryMetaHolder] meth"

text \<open>
  An HTTP server: its address, the middleware around its router and those around each route, for the method
  and path of a request, and the handler of parameter errors.
\<close>

record 'p HttpServerSpec =
  hsAddr :: string
  hsHeartbeat :: "string \<Rightarrow> string \<Rightarrow> 'p HttpMw"
  hsMiddlewares :: "string \<Rightarrow> 'p HttpMw list"
  hsErrorHandler :: "string \<Rightarrow> goerr \<Rightarrow> 'p exchange \<Rightarrow> 'p exchange"

definition HeartbeatEndpoint :: string where
  "HeartbeatEndpoint = ''/monitoring/heartbeat''"

definition commanderHttpServerOf ::
  "'p HttpLibs \<Rightarrow> (gotext \<Rightarrow> string) \<Rightarrow> iterorder \<Rightarrow> string \<Rightarrow> MonitoringOpts \<Rightarrow> CommanderConfig \<Rightarrow> 'p HttpServerSpec" where
  "commanderHttpServerOf libs render ord otelCfg monitoringOpts conf =
     \<lparr>hsAddr = net_JoinHostPort (ccHost conf) (ccHttpPort conf),
      hsHeartbeat = hlHeartbeat libs HeartbeatEndpoint,
      hsMiddlewares = createMiddleware libs render ord otelCfg monitoringOpts, hsErrorHandler = ErrorHandlerFunc\<rparr>"

text \<open>\<open>NewCommanderServer\<close> and \<open>newCommanderGrpcServer\<close> never fail. The address is the one listened on.\<close>

definition runHttp :: "CommanderConfig \<Rightarrow> Action list \<times> string res" where
  "runHttp conf = ([Acquire HttpServer], Inr (net_JoinHostPort (ccHost conf) (ccHttpPort conf)))"

definition runGrpc :: "CommanderConfig \<Rightarrow> 'x RunEnv \<Rightarrow> Action list \<times> string res" where
  "runGrpc conf env =
     (case reListen env of
        Some err \<Rightarrow> ([], Inl (wrapf ''failed to listen on addr %q: %w'' [GrpcAddr conf] err))
      | None \<Rightarrow> ([Acquire GrpcServer], Inr (GrpcAddr conf)))"

text \<open>The interceptors of the gRPC server that \<open>runGrpc\<close> starts.\<close>

definition commanderGrpcServerOf ::
  "('e, 'q, 'a) LoggingLib \<Rightarrow> recording \<Rightarrow> iterorder \<Rightarrow> MonitoringOpts \<Rightarrow> ('e, 'q, 'a) GrpcServer" where
  "commanderGrpcServerOf lib isRec ord monitoringOpts =
     InstrumentedGrpcServer lib isRec ord monitoringOpts
       [holderInterceptor WithRegisterRunnerMetaHolder, holderInterceptor WithRouteFunctionMetaHolder]"

text \<open>The closers of \<open>errors.Join\<close>, called in this order.\<close>

definition commanderShutdown :: "'x RunEnv \<Rightarrow> goerr list run" where
  "commanderShutdown env =
     (let (das, derr) = SQLiteDB_Close (reDbClose env); (oas, oerrs) = otelShutdown (reOtel env)
      in doing (das @ closing HttpServer (reHttpShutdown env) @ [Release GrpcServer] @ oas)
           (returning (errors_Join [derr, reHttpShutdown env] @ oerrs)))"

text \<open>The \<open>select\<close> of \<open>Run\<close> and what follows it.\<close>

definition commanderWait :: "'x RunEnv \<Rightarrow> goerr list run" where
  "commanderWait env =
     (case reEvent env of
        Interrupted \<Rightarrow> doing [Release Poller] (commanderShutdown env)
      | HttpEnded res \<Rightarrow>
          (case httpServeErr res of
             Some err \<Rightarrow> doing [Release HttpServer] (returning [wrapf ''http server failed: %w'' [] err])
           | None \<Rightarrow> commanderShutdown env)
      | GrpcEnded res \<Rightarrow>
          (case grpcServeErr res of
             Some err \<Rightarrow> doing [Release GrpcServer] (returning [wrapf ''grpc server failed: %w'' [] err])
           | None \<Rightarrow> commanderShutdown env))"

text \<open>From the start of the poller on; a poll interval that is not positive makes its assertion fail.\<close>

definition commanderServe :: "CommanderConfig \<Rightarrow> 'x RunEnv \<Rightarrow> goerr list run" where
  "commanderServe conf env =
     (if \<not> 0 < ccRunnerHeartbeatPoll conf
      then (Panics ''RunnerHeartbeatPoll can't be 0 or less, it was %d'', [])
      else doing [Acquire Poller]
        (case runHttp conf of
           (has, Inl err) \<Rightarrow> doing has (returning [wrapf ''http server failed: %w'' [] err])
         | (has, Inr _) \<Rightarrow>
             doing has
               (case runGrpc conf env of
                  (gas, Inl err) \<Rightarrow>
                    doing gas (returning [wrapf ''http server failed: %w'' [] err])
                | (gas, Inr _) \<Rightarrow> doing gas (commanderWait env))))"

definition commanderOpts :: "CommanderConfig \<Rightarrow> MonitoringOpts" where
  "commanderOpts conf =
     \<lparr>moEnv = ccEnv conf, moAppName = ccAppName conf, moAppVersion = [], moAdditionalAttrs = fmempty, moLevel = 0,
      moOTELOn = ccOTELOn conf\<rparr>"

definition commander_Run :: "CommanderConfig \<Rightarrow> 'x RunEnv \<Rightarrow> goerr list run" where
  "commander_Run conf env = cancelling
     (case InitHttpOTEL (reOtel env) (commanderOpts conf) (reGlobals env) of
        (g, oas, Inl err) \<Rightarrow> doing oas (returning [wrapf ''OTEL initialization failed: %w'' [] err])
      | (g, oas, Inr otelCfg) \<Rightarrow>
          doing oas
            (case NewFSFunctionStorage (ccFuncStorageRoot conf) (reFs env) of
               Panics msg \<Rightarrow> (Panics msg, [])
             | Returns (fs, Inl err) \<Rightarrow> returning [wrapf ''failed to initialize function storage: %w'' [] err]
             | Returns (fs, Inr storage) \<Rightarrow>
                 (case NewSQLiteDB (reDb env) of
                    (das, Inl err) \<Rightarrow> doing das (returning [wrapf ''failed to initialize db: %w'' [] err])
                  | (das, Inr _) \<Rightarrow>
                      doing das
                        (case NewCommanderMetrics (reMeter env) (reMeterState env) of
                           (m, Inl err) \<Rightarrow> returning [wrapf ''failed to initialize commander service: %w'' [] err]
                         | (m, Inr metrics) \<Rightarrow>
                             doing [Acquire Callback] (deferring [Release Callback] (commanderServe conf env))))))"

section \<open>The runner\<close>

record RunnerConfig =
  rcAppName :: string
  rcCommitHash :: string
  rcEnv :: string
  rcOTELOn :: bool
  rcAddr :: string
  rcCommanderHost :: string
  rcCommanderHttpPort :: string
  rcCommanderGrpcPort :: string
  rcInstanceShutdownAfter :: int
  rcInstanceGracePeriod :: int
  rcFuncStorageRoot :: string

definition runnerOpts :: "RunnerConfig \<Rightarrow> MonitoringOpts" where
  "runnerOpts conf =
     \<lparr>moEnv = rcEnv conf, moAppName = rcAppName conf, moAppVersion = rcCommitHash conf, moAdditionalAttrs = fmempty,
      moLevel = 0, moOTELOn = rcOTELOn conf\<rparr>"

text \<open>
  \<open>rrServed\<close> is what the handlers and the workers did to the processes and connections of the guests from the
  start of the server to the end of its wait.
\<close>

record 'x RunnerRunEnv =
  rrOtel :: "'x OtelEnv"
  rrGlobals :: "'x OtelGlobals"
  rrMeter :: MeterEnv
  rrMeterState :: Meter
  rrFs :: FS
  rrHttpClient :: "goerr option"
  rrGrpcClient :: "goerr option"
  rrListen :: "goerr option"
  rrRegister :: "string \<Rightarrow> int res"
  rrServed :: "RtWorld \<Rightarrow> RtWorld"
  rrEvent :: ServeEvent

text \<open>
  \<open>newRunnerGrpcServer\<close> with what it acquires: the connection to the commander, which its closer gives back,
  and the callback of the metrics. An error after the connection was made returns without closing it.
\<close>

definition newRunner ::
  "RunnerConfig \<Rightarrow> 'x RunnerRunEnv \<Rightarrow> Action list \<times> (FS \<times> 'q runnerGrpcServer res) outcome" where
  "newRunner conf env =
     (let metricsErr = (case snd (NewRunnerMetrics (rrMeter env) (rrMeterState env)) of Inl err \<Rightarrow> Some err | Inr _ \<Rightarrow> None);
          connected = (case CreateDirIfNotExists (rcFuncStorageRoot conf) (rrFs env) of
                         Returns (fs, None) \<Rightarrow> rrHttpClient env = None \<and> rrGrpcClient env = None | _ \<Rightarrow> False);
          r = newRunnerGrpcServer (rrHttpClient env) (rrGrpcClient env) metricsErr (rcFuncStorageRoot conf)
                (rcInstanceShutdownAfter conf) (rcInstanceGracePeriod conf) (rrFs env)
      in ((if connected then [Acquire CommanderConn] else []) @
          (if connected \<and> metricsErr = None then [Acquire Callback] else []), r))"

text \<open>The interceptors of the gRPC server; \<open>heartbeatMethod\<close> is the full name of the heartbeat method.\<close>

definition runnerGrpcServerOf ::
  "('e, 'q, 'a) LoggingLib \<Rightarrow> recording \<Rightarrow> iterorder \<Rightarrow> string \<Rightarrow> MonitoringOpts \<Rightarrow> ('e, 'q, 'a) GrpcServer" where
  "runnerGrpcServerOf lib isRec ord heartbeatMethod monitoringOpts =
     InstrumentedGrpcServerWithExcludedMethodLogs lib isRec ord monitoringOpts [heartbeatMethod]
       [holderInterceptor WithDownloadMetaHolder, holderInterceptor WithInstanceStartMetaHolder,
        holderInterceptor WithInvokeMetaHolder]"

definition runnerWait :: "'x RunnerRunEnv \<Rightarrow> goerr list run" where
  "runnerWait env =
     (case rrEvent env of
        Signalled \<Rightarrow>
          (case CloseWithCtx (Some (otelShutdown (rrOtel env))) of
             Panics msg \<Rightarrow> doing [Release GrpcServer, Release CommanderConn] (Panics msg, [])
           | Returns oas \<Rightarrow> doing ([Release GrpcServer, Release CommanderConn] @ oas) (returning []))
      | Ended res \<Rightarrow>
          doing [Release GrpcServer, Release CommanderConn]
            (returning (case grpcServeErr res of Some err \<Rightarrow> [err] | None \<Rightarrow> [])))"

text \<open>The guests that are there when the wait ends.\<close>

definition guestsOf :: "RtWorld \<Rightarrow> Resource list" where
  "guestsOf w =
     map GuestProcess (sorted_list_of_fset (fmdom (processes w))) @
     map GuestConn (sorted_list_of_fset (fmdom (connections w)))"

definition runnerServe :: "RunnerConfig \<Rightarrow> 'x RunnerRunEnv \<Rightarrow> 'q runnerGrpcServer \<Rightarrow> goerr list run" where
  "runnerServe conf env srv =
     (case rrListen env of
        Some err \<Rightarrow> returning [wrapf ''failed to listen on addr %q: %w'' [rcAddr conf] err]
      | None \<Rightarrow>
          doing (Acquire GrpcServer # map Acquire (guestsOf (rrServed env (world srv))))
            (case registerWithCommander (rrRegister env) (rcAddr conf) srv of
               (srv1, Some err) \<Rightarrow>
                 doing [Release GrpcServer, Release CommanderConn]
                   (returning [wrapf ''failed to register runner: %w'' [] err])
             | (srv1, None) \<Rightarrow> runnerWait env))"

definition runner_Run :: "'q itself \<Rightarrow> RunnerConfig \<Rightarrow> 'x RunnerRunEnv \<Rightarrow> goerr list run" where
  "runner_Run q conf env =
     (case InitOTEL (rrOtel env) (runnerOpts conf) (rrGlobals env) of
        (g, oas, Inl err) \<Rightarrow> doing oas (returning [wrapf ''OTEL initialization failed: %w'' [] err])
      | (g, oas, Inr mp) \<Rightarrow>
          doing oas
            (case newRunner conf env of
               (nas, Panics msg) \<Rightarrow> doing nas (Panics msg, [])
             | (nas, Returns (fs, Inl err)) \<Rightarrow>
                 doing nas (returning [wrapf ''failed to initialize runner: %w'' [] err])
             | (nas, Returns (fs, Inr (srv :: 'q runnerGrpcServer))) \<Rightarrow>
                 doing nas (deferring [Release Callback] (runnerServe conf env srv))))"

section \<open>The gateway\<close>

record GatewayConfig =
  gcfAppName :: string
  gcfEnv :: string
  gcfOTELOn :: bool
  gcfAddress :: string
  gcfCommanderAddr :: string
  gcfCommanderClientOpts :: MonitoringOpts
  gcfRunnerClientOpts :: MonitoringOpts

definition gatewayOpts :: "GatewayConfig \<Rightarrow> MonitoringOpts" where
  "gatewayOpts conf =
     \<lparr>moEnv = gcfEnv conf, moAppName = gcfAppName conf, moAppVersion = [], moAdditionalAttrs = fmempty, moLevel = 0,
      moOTELOn = gcfOTELOn conf\<rparr>"

definition clientOpts :: "GatewayConfig \<Rightarrow> MonitoringOpts \<Rightarrow> MonitoringOpts" where
  "clientOpts conf opts = opts\<lparr>moOTELOn := gcfOTELOn conf \<or> moOTELOn opts\<rparr>"

record 'x GatewayRunEnv =
  grOtel :: "'x OtelEnv"
  grGlobals :: "'x OtelGlobals"
  grHttpShutdown :: "goerr option"
  grEvent :: ServeEvent

text \<open>
  The handler starts without connections to runners. The router is known by its middlewares, for the method
  and path of a request, and the pattern of its route.
\<close>

definition createHttpHandler ::
  "'p HttpLibs \<Rightarrow> (gotext \<Rightarrow> string) \<Rightarrow> iterorder \<Rightarrow> string \<Rightarrow> MonitoringOpts \<Rightarrow>
   gatewayHandler \<times> (HttpRequest \<Rightarrow> 'p HttpMw list) \<times> string" where
  "createHttpHandler libs render ord otelCfg monitoringOpts =
     (\<lparr>gwRunners = fmempty, gwConns = fmempty, gwNext = 0\<rparr>,
      (\<lambda>r. hlHeartbeat libs HeartbeatEndpoint (hrMethod r) (hrPath r) #
         HttpMiddleware libs render ord otelCfg monitoringOpts [holderMiddleware WithGatewayFunctionRequestMetaHolder]
           (hrMethod r)),
      ''/{'' @ FunctionIdPathParam @ ''}/*'')"

definition gatewayWait :: "'x GatewayRunEnv \<Rightarrow> goerr list run" where
  "gatewayWait env =
     (case grEvent env of
        Signalled \<Rightarrow> doing (closing HttpServer (grHttpShutdown env)) (returning (errors_Join [grHttpShutdown env]))
      | Ended res \<Rightarrow>
          (case httpServeErr res of
             Some err \<Rightarrow> doing [Release HttpServer] (returning [wrapf ''http server failed: %w'' [] err])
           | None \<Rightarrow> doing (closing HttpServer (grHttpShutdown env)) (returning (errors_Join [grHttpShutdown env]))))"

text \<open>\<open>createCommanderClient\<close> makes the client with the given address and options.\<close>

definition gateway_Run ::
  "(string \<Rightarrow> MonitoringOpts \<Rightarrow> 'c res) \<Rightarrow> GatewayConfig \<Rightarrow> 'x GatewayRunEnv \<Rightarrow> goerr list run" where
  "gateway_Run createCommanderClient conf env =
     (case InitHttpOTEL (grOtel env) (gatewayOpts conf) (grGlobals env) of
        (g, oas, Inl err) \<Rightarrow> doing oas (returning [wrapf ''failed to initialize OTEL: %w'' [] err])
      | (g, oas, Inr otelCfg) \<Rightarrow>
          doing oas
            (deferring (case CloseWithCtx (Some (otelShutdown (grOtel env))) of Returns as \<Rightarrow> as | Panics msg \<Rightarrow> [])
              (case createCommanderClient (gcfCommanderAddr conf) (clientOpts conf (gcfCommanderClientOpts conf)) of
                 Inl err \<Rightarrow> returning [wrapf ''failed to connect to commander: %w'' [] err]
               | Inr conn1 \<Rightarrow>
                   doing [Acquire CommanderConn]
                     (deferring [Release CommanderConn]
                       (doing [Acquire RunnerConns]
                         (deferring [Release RunnerConns]
                           (doing [Acquire HttpServer] (gatewayWait env))))))))"

section \<open>The programs\<close>

definition commander_main ::
  "(string \<Rightarrow> bytes res) \<Rightarrow> (bytes \<Rightarrow> CommanderConfig res) \<Rightarrow> string \<Rightarrow> 'x RunEnv \<Rightarrow> int" where
  "commander_main readFile unmarshal configPath env =
     main readFile unmarshal configPath (\<lambda>config. commander_Run config env)"

definition runner_main ::
  "'q itself \<Rightarrow> (string \<Rightarrow> bytes res) \<Rightarrow> (bytes \<Rightarrow> RunnerConfig res) \<Rightarrow> string \<Rightarrow> 'x RunnerRunEnv \<Rightarrow> int" where
  "runner_main q readFile unmarshal configPath env =
     main readFile unmarshal configPath (\<lambda>config. runner_Run q config env)"

definition gateway_main ::
  "(string \<Rightarrow> bytes res) \<Rightarrow> (bytes \<Rightarrow> GatewayConfig res) \<Rightarrow> string \<Rightarrow> (string \<Rightarrow> MonitoringOpts \<Rightarrow> 'c res) \<Rightarrow>
   'x GatewayRunEnv \<Rightarrow> int" where
  "gateway_main readFile unmarshal configPath createCommanderClient env =
     main readFile unmarshal configPath (\<lambda>config. gateway_Run createCommanderClient config env)"

section \<open>Runs and what they hold\<close>

lemma run_simps [simp]:
  "fst (doing as r) = fst r" "snd (doing as r) = as @ snd r"
  "fst (deferring as r) = fst r" "snd (deferring as r) = snd r @ as"
  "fst (returning x) = Returns x" "snd (returning x) = []"
  "fst (cancelling r) = fst r"
  "snd (cancelling r) = snd r @ (if Poller \<in> held (snd r) then [Release Poller] else [])"
  by (simp_all add: doing_def deferring_def returning_def cancelling_def)

lemma CloseWithCtx_otel [simp]:
  "CloseWithCtx (Some (otelShutdown env)) =
     Returns (closing MeterProvider (oeMeterShutdown env) @ closing TracerProvider (oeTracerShutdown env))"
  by (simp add: CloseWithCtx_def otelShutdown_def)

lemma heldFrom_append: "heldFrom rs (as @ bs) = heldFrom (heldFrom rs as) bs"
  by (induction rs as rule: heldFrom.induct) simp_all

lemma balancedFrom_append: "balancedFrom rs (as @ bs) \<longleftrightarrow> balancedFrom rs as \<and> balancedFrom (heldFrom rs as) bs"
  by (induction rs as rule: balancedFrom.induct) simp_all

text \<open>Acquiring and then releasing.\<close>

lemma heldFrom_acquire: "heldFrom rs (map Acquire xs) = rev xs @ rs"
  by (induction xs arbitrary: rs) simp_all

lemma balancedFrom_acquire: "balancedFrom rs (map Acquire xs) \<longleftrightarrow> distinct xs \<and> set xs \<inter> set rs = {}"
  by (induction xs arbitrary: rs) auto

lemma released_held:
  assumes "distinct rs" and "distinct ys" and "set ys \<subseteq> set rs"
  shows "balancedFrom rs (map Release ys) \<and> set (heldFrom rs (map Release ys)) = set rs - set ys"
  using assms
proof (induction ys arbitrary: rs)
  case (Cons y ys)
  then have "distinct (remove1 y rs)" "set ys \<subseteq> set (remove1 y rs)" by auto
  with Cons.IH[of "remove1 y rs"] Cons.prems show ?case by auto
qed simp

lemma subseq_distinct:
  assumes "subseq ys xs" and "distinct xs"
  shows "distinct ys \<and> set ys \<subseteq> set xs"
  using assms by (induction rule: list_emb.induct) auto

lemma nested_held:
  assumes "as = map Acquire xs @ map Release ys" and "distinct xs" and "distinct ys" and "set ys \<subseteq> set xs"
  shows "balanced as" and "held as = set xs - set ys"
  using assms released_held[of "rev xs" ys]
  by (simp_all add: heldFrom_append balancedFrom_append heldFrom_acquire balancedFrom_acquire)

lemma heldFrom_closing: "heldFrom rs (closing r err) = (if err = None then remove1 r rs else rs)"
  by (cases err) (simp_all add: closing_def)

lemma balancedFrom_closing: "balancedFrom rs (closing r err) \<longleftrightarrow> err = None \<longrightarrow> r \<in> set rs"
  by (cases err) (simp_all add: closing_def)

text \<open>What telemetry leaves: a tracer provider when only the meter could not be made, and the providers whose
  closers failed.\<close>

definition otelUnfinished :: "'x OtelEnv \<Rightarrow> MonitoringOpts \<Rightarrow> Resource set" where
  "otelUnfinished env opts =
     (if oeResourceErr env = None \<and> moOTELOn opts \<and> snd (oeTraceExporter env) = None then {TracerProvider} else {})"

definition otelUnclosed :: "'x OtelEnv \<Rightarrow> Resource set" where
  "otelUnclosed env =
     (if oeMeterShutdown env = None then {} else {MeterProvider}) \<union>
     (if oeTracerShutdown env = None then {} else {TracerProvider})"

section \<open>How the gateway ends\<close>

definition gatewayConnects :: "(string \<Rightarrow> MonitoringOpts \<Rightarrow> 'c res) \<Rightarrow> GatewayConfig \<Rightarrow> bool" where
  "gatewayConnects cc conf \<longleftrightarrow>
     (\<exists>c. cc (gcfCommanderAddr conf) (clientOpts conf (gcfCommanderClientOpts conf)) = Inr c)"

definition gatewayServerFailed :: "'x GatewayRunEnv \<Rightarrow> bool" where
  "gatewayServerFailed env \<longleftrightarrow> (\<exists>e. grEvent env = Ended e \<and> httpServeErr e \<noteq> None)"

text \<open>What the gateway releases, in this order; the server first.\<close>

definition gatewayReleased :: "(string \<Rightarrow> MonitoringOpts \<Rightarrow> 'c res) \<Rightarrow> GatewayConfig \<Rightarrow> 'x GatewayRunEnv \<Rightarrow> Resource list" where
  "gatewayReleased cc conf env =
     (if gatewayConnects cc conf
      then (if gatewayServerFailed env \<or> grHttpShutdown env = None then [HttpServer] else []) @ [RunnerConns, CommanderConn]
      else []) @
     (if oeMeterShutdown (grOtel env) = None then [MeterProvider] else []) @
     (if oeTracerShutdown (grOtel env) = None then [TracerProvider] else [])"

definition gatewayLeft :: "(string \<Rightarrow> MonitoringOpts \<Rightarrow> 'c res) \<Rightarrow> GatewayConfig \<Rightarrow> 'x GatewayRunEnv \<Rightarrow> Resource set" where
  "gatewayLeft cc conf env =
     (if \<not> exportersOk (grOtel env) (gatewayOpts conf) then otelUnfinished (grOtel env) (gatewayOpts conf)
      else otelUnclosed (grOtel env) \<union>
        (if gatewayConnects cc conf \<and> \<not> gatewayServerFailed env \<and> grHttpShutdown env \<noteq> None then {HttpServer} else {}))"

lemma closing_release: "closing r err = map Release (if err = None then [r] else [])"
  by (cases err) (simp_all add: closing_def)

lemma gatewayWait_actions:
  "snd (gatewayWait env) = map Release (if gatewayServerFailed env \<or> grHttpShutdown env = None then [HttpServer] else [])"
  by (auto simp: gatewayWait_def gatewayServerFailed_def closing_release split: ServeEvent.splits option.splits)

lemma gateway_Run_actions:
  assumes "exportersOk (grOtel env) (gatewayOpts conf)"
  shows "snd (gateway_Run cc conf env) =
    map Acquire ([TracerProvider, MeterProvider] @ (if gatewayConnects cc conf then [CommanderConn, RunnerConns, HttpServer] else [])) @
    map Release (gatewayReleased cc conf env)"
proof -
  obtain g as r where i: "InitHttpOTEL (grOtel env) (gatewayOpts conf) (grGlobals env) = (g, as, r)" by (metis prod_cases3)
  then obtain cfg where "r = Inr cfg" "as = [Acquire TracerProvider, Acquire MeterProvider]"
    using InitHttpOTEL_spec[OF i] assms by blast
  with i show ?thesis
    by (auto simp: gateway_Run_def gatewayConnects_def gatewayReleased_def gatewayWait_actions closing_release split: sum.splits)
qed

lemma gateway_Run_no_otel:
  assumes "\<not> exportersOk (grOtel env) (gatewayOpts conf)"
  shows "\<exists>xs. snd (gateway_Run cc conf env) = map Acquire xs \<and> distinct xs \<and> set xs = gatewayLeft cc conf env"
proof -
  obtain g as r where i: "InitHttpOTEL (grOtel env) (gatewayOpts conf) (grGlobals env) = (g, as, r)" by (metis prod_cases3)
  then obtain e where "r = Inl e" using InitHttpOTEL_spec(1)[OF i] assms by (cases r) auto
  with i have "snd (gateway_Run cc conf env) = map Acquire (if oeResourceErr (grOtel env) = None \<and>
      moOTELOn (gatewayOpts conf) \<and> snd (oeTraceExporter (grOtel env)) = None then [TracerProvider] else [])"
    using InitHttpOTEL_spec(3)[OF i assms] by (simp add: gateway_Run_def)
  then show ?thesis using assms by (intro exI conjI) (auto simp: gatewayLeft_def otelUnfinished_def)
qed

lemma gateway_actions:
  "\<exists>xs ys. snd (gateway_Run cc conf env) = map Acquire xs @ map Release ys \<and> distinct xs \<and> subseq ys (rev xs) \<and>
     set xs - set ys = gatewayLeft cc conf env"
proof (cases "exportersOk (grOtel env) (gatewayOpts conf)")
  case True
  let ?xs = "[TracerProvider, MeterProvider] @ (if gatewayConnects cc conf then [CommanderConn, RunnerConns, HttpServer] else [])"
  have "subseq (gatewayReleased cc conf env) (rev ?xs)"
    by (auto simp: gatewayReleased_def)
  moreover have "set ?xs - set (gatewayReleased cc conf env) = gatewayLeft cc conf env"
    using True by (auto simp: gatewayReleased_def gatewayLeft_def otelUnclosed_def)
  ultimately show ?thesis
    by (intro exI[of _ ?xs] exI[of _ "gatewayReleased cc conf env"]) (simp add: gateway_Run_actions[OF True])
next
  case False
  from gateway_Run_no_otel[OF this, of cc] obtain xs
    where "snd (gateway_Run cc conf env) = map Acquire xs" "distinct xs" "set xs = gatewayLeft cc conf env" by blast
  then show ?thesis by (intro exI[of _ xs] exI[of _ "[]"]) simp
qed

lemma gateway_Run_result:
  "fst (gateway_Run cc conf env) = Returns [] \<longleftrightarrow>
     exportersOk (grOtel env) (gatewayOpts conf) \<and> gatewayConnects cc conf \<and> \<not> gatewayServerFailed env \<and>
     grHttpShutdown env = None"
proof -
  obtain g as r where i: "InitHttpOTEL (grOtel env) (gatewayOpts conf) (grGlobals env) = (g, as, r)" by (metis prod_cases3)
  then show ?thesis
    using InitHttpOTEL_spec(1)[OF i]
    by (auto simp: gateway_Run_def gatewayConnects_def gatewayServerFailed_def gatewayWait_def
        split: sum.splits ServeEvent.splits option.splits)
qed

section \<open>How the commander ends\<close>

definition storageOk :: "CommanderConfig \<Rightarrow> 'x RunEnv \<Rightarrow> bool" where
  "storageOk conf env \<longleftrightarrow> (\<exists>fs s. NewFSFunctionStorage (ccFuncStorageRoot conf) (reFs env) = Returns (fs, Inr s))"

definition metricsOk :: "'x RunEnv \<Rightarrow> bool" where
  "metricsOk env \<longleftrightarrow> (\<exists>m cm. NewCommanderMetrics (reMeter env) (reMeterState env) = (m, Inr cm))"

definition commanderStarts :: "CommanderConfig \<Rightarrow> 'x RunEnv \<Rightarrow> bool" where
  "commanderStarts conf env \<longleftrightarrow>
     exportersOk (reOtel env) (commanderOpts conf) \<and> storageOk conf env \<and> snd (NewSQLiteDB (reDb env)) = Inr () \<and>
     metricsOk env \<and> 0 < ccRunnerHeartbeatPoll conf \<and> reListen env = None"

definition commanderClosersOk :: "'x RunEnv \<Rightarrow> bool" where
  "commanderClosersOk env \<longleftrightarrow>
     reDbClose env = None \<and> reHttpShutdown env = None \<and> oeMeterShutdown (reOtel env) = None \<and>
     oeTracerShutdown (reOtel env) = None"

lemma NewSQLiteDB_actions:
  "fst (NewSQLiteDB env) = (if deOpen env = None then [Acquire Database] else [])"
  "snd (NewSQLiteDB env) = Inr () \<Longrightarrow> deOpen env = None"
  by (simp_all add: NewSQLiteDB_def split: option.splits)

text \<open>The database opens exactly when it can be reached and its schema is up to date or can be brought up to date.\<close>

lemma NewSQLiteDB_ok:
  "snd (NewSQLiteDB env) = Inr () \<longleftrightarrow>
     deOpen env = None \<and> dePing env = None \<and> deMigrations env = None \<and> deDriver env = None \<and> deMigrate env = None \<and>
     (deUp env = None \<or> deUp env = Some ErrNoChange)"
  by (auto simp: NewSQLiteDB_def migrateUp_def split: option.splits if_splits)

text \<open>Everything that was acquired when the \<open>select\<close> is reached, and what the ways out of it release.\<close>

abbreviation commanderAcquired :: "Action list" where
  "commanderAcquired \<equiv> [Acquire TracerProvider, Acquire MeterProvider, Acquire Database, Acquire Callback,
     Acquire Poller, Acquire HttpServer, Acquire GrpcServer]"

lemma commander_Run_started:
  assumes "commanderStarts conf env"
  shows "commander_Run conf env = cancelling (doing commanderAcquired (deferring [Release Callback] (commanderWait env)))"
proof -
  obtain g as r where i: "InitHttpOTEL (reOtel env) (commanderOpts conf) (reGlobals env) = (g, as, r)" by (metis prod_cases3)
  obtain cfg where cfg: "r = Inr cfg" "as = [Acquire TracerProvider, Acquire MeterProvider]"
    using InitHttpOTEL_spec[OF i] assms by (auto simp: commanderStarts_def)
  obtain fs s where fs: "NewFSFunctionStorage (ccFuncStorageRoot conf) (reFs env) = Returns (fs, Inr s)"
    using assms by (auto simp: commanderStarts_def storageOk_def)
  obtain m cm where m: "NewCommanderMetrics (reMeter env) (reMeterState env) = (m, Inr cm)"
    using assms by (auto simp: commanderStarts_def metricsOk_def)
  have db: "NewSQLiteDB (reDb env) = ([Acquire Database], Inr ())"
    using assms NewSQLiteDB_actions[of "reDb env"] by (simp add: commanderStarts_def prod_eq_iff)
  show ?thesis
    unfolding commander_Run_def
    using assms by (simp add: i cfg fs m db commanderServe_def commanderStarts_def runHttp_def runGrpc_def
        doing_def deferring_def)
qed

text \<open>How the run ends when the start fails: an error or a panic, and what is left.\<close>

definition commanderLeft :: "CommanderConfig \<Rightarrow> 'x RunEnv \<Rightarrow> Resource set" where
  "commanderLeft conf env =
     (if \<not> exportersOk (reOtel env) (commanderOpts conf)
      then (if oeResourceErr (reOtel env) = None \<and> ccOTELOn conf \<and> snd (oeTraceExporter (reOtel env)) = None
            then {TracerProvider} else {})
      else {TracerProvider, MeterProvider} \<union>
        (if \<not> storageOk conf env then {}
         else (if deOpen (reDb env) = None then {Database} else {}) \<union>
           (if snd (NewSQLiteDB (reDb env)) = Inr () \<and> metricsOk env \<and> 0 < ccRunnerHeartbeatPoll conf
            then {HttpServer} else {})))"

lemma commander_Run_not_started:
  assumes "\<not> commanderStarts conf env"
  shows "fst (commander_Run conf env) \<noteq> Returns []" and "balanced (snd (commander_Run conf env))"
    and "held (snd (commander_Run conf env)) = commanderLeft conf env"
proof -
  obtain g as r where i: "InitHttpOTEL (reOtel env) (commanderOpts conf) (reGlobals env) = (g, as, r)" by (metis prod_cases3)
  note spec = InitHttpOTEL_spec[OF i]
  obtain das dr where db: "NewSQLiteDB (reDb env) = (das, dr)" by fastforce
  have das: "das = (if deOpen (reDb env) = None then [Acquire Database] else [])"
    using NewSQLiteDB_actions(1)[of "reDb env"] db by simp
  obtain m mr where m: "NewCommanderMetrics (reMeter env) (reMeterState env) = (m, mr)" by fastforce
  let ?goal = "fst (commander_Run conf env) \<noteq> Returns [] \<and> balanced (snd (commander_Run conf env)) \<and>
    held (snd (commander_Run conf env)) = commanderLeft conf env"
  have ?goal
  proof (cases r)
    case (Inl e)
    then have no: "\<not> exportersOk (reOtel env) (commanderOpts conf)" using spec(1) by simp
    then show ?thesis using Inl i spec(3) by (auto simp: commander_Run_def commanderLeft_def commanderOpts_def)
  next
    case ok: (Inr cfg)
    then have ex: "exportersOk (reOtel env) (commanderOpts conf)"
      and as: "as = [Acquire TracerProvider, Acquire MeterProvider]" using spec(1,2) by simp_all
    show ?thesis
    proof (cases "storageOk conf env")
      case False
      then show ?thesis using ok i ex as
        by (auto simp: commander_Run_def commanderLeft_def storageOk_def split: outcome.splits sum.splits prod.splits)
    next
      case True
      then obtain fs s where fs: "NewFSFunctionStorage (ccFuncStorageRoot conf) (reFs env) = Returns (fs, Inr s)"
        by (auto simp: storageOk_def)
      show ?thesis
      proof (cases dr)
        case (Inl e)
        then show ?thesis using ok i ex as fs True db das by (auto simp: commander_Run_def commanderLeft_def)
      next
        case dok: (Inr u)
        then have op: "deOpen (reDb env) = None" using NewSQLiteDB_actions(2)[of "reDb env"] db by simp
        show ?thesis
        proof (cases mr)
          case (Inl e)
          then have "\<not> metricsOk env" using m by (simp add: metricsOk_def)
          then show ?thesis using Inl ok i ex as fs True db das dok op m
            by (auto simp: commander_Run_def commanderLeft_def)
        next
          case mok: (Inr cm)
          then have "metricsOk env" using m by (simp add: metricsOk_def)
          then show ?thesis using assms ok i ex as fs True db das dok op m mok
            by (auto simp: commander_Run_def commanderLeft_def commanderStarts_def commanderServe_def runHttp_def
                runGrpc_def split: option.splits)
        qed
      qed
    qed
  qed
  then show "fst (commander_Run conf env) \<noteq> Returns []" and "balanced (snd (commander_Run conf env))"
    and "held (snd (commander_Run conf env)) = commanderLeft conf env"
    by simp_all
qed

text \<open>What the ways out of the \<open>select\<close> leave, and the error they return.\<close>

definition serverFailed :: "RunEvent \<Rightarrow> bool" where
  "serverFailed ev \<longleftrightarrow>
     (case ev of
        Interrupted \<Rightarrow> False
      | HttpEnded res \<Rightarrow> httpServeErr res \<noteq> None
      | GrpcEnded res \<Rightarrow> grpcServeErr res \<noteq> None)"

definition leftAfter :: "'x RunEnv \<Rightarrow> Resource set" where
  "leftAfter env =
     (if serverFailed (reEvent env)
      then {TracerProvider, MeterProvider, Database} \<union>
        (case reEvent env of HttpEnded _ \<Rightarrow> {GrpcServer} | _ \<Rightarrow> {HttpServer})
      else (if reDbClose env = None then {} else {Database}) \<union>
        (if reHttpShutdown env = None then {} else {HttpServer}) \<union> otelUnclosed (reOtel env))"

lemma leftAfter_empty: "leftAfter env = {} \<longleftrightarrow> \<not> serverFailed (reEvent env) \<and> commanderClosersOk env"
  by (auto simp: leftAfter_def commanderClosersOk_def otelUnclosed_def)

lemma leftAfter_frame: "Callback \<notin> leftAfter env" "Poller \<notin> leftAfter env"
  by (auto simp: leftAfter_def otelUnclosed_def split: RunEvent.splits)

lemma commanderWait_failed:
  assumes "serverFailed (reEvent env)"
  shows "\<exists>e. fst (commanderWait env) = Returns [e]"
    and "snd (commanderWait env) = [Release (case reEvent env of HttpEnded _ \<Rightarrow> HttpServer | _ \<Rightarrow> GrpcServer)]"
  using assms by (auto simp: commanderWait_def serverFailed_def split: RunEvent.splits option.splits)

lemma commanderWait_closed:
  assumes "\<not> serverFailed (reEvent env)"
  shows "commanderWait env =
    doing (if reEvent env = Interrupted then [Release Poller] else []) (commanderShutdown env)"
  using assms by (auto simp: commanderWait_def serverFailed_def doing_def split: RunEvent.splits option.splits)

lemma commanderShutdown_spec:
  "snd (commanderShutdown env) = map Release
     ((if reDbClose env = None then [Database] else []) @ (if reHttpShutdown env = None then [HttpServer] else []) @
      [GrpcServer] @ (if oeMeterShutdown (reOtel env) = None then [MeterProvider] else []) @
      (if oeTracerShutdown (reOtel env) = None then [TracerProvider] else []))"
  "fst (commanderShutdown env) = Returns [] \<longleftrightarrow> commanderClosersOk env"
  by (simp_all add: commanderShutdown_def SQLiteDB_Close_def otelShutdown_def closing_release commanderClosersOk_def)

text \<open>What a started commander holds after the releases \<open>rs\<close> of its wait, with or without the end of the poller.\<close>

lemma commander_released:
  assumes "snd r = map Release ((if b then [Poller] else []) @ rs)" and "distinct rs"
    and "set rs \<subseteq> {TracerProvider, MeterProvider, Database, HttpServer, GrpcServer}"
  defines "R \<equiv> cancelling (doing commanderAcquired (deferring [Release Callback] r))"
  shows "balanced (snd R)" and "held (snd R) = {TracerProvider, MeterProvider, Database, HttpServer, GrpcServer} - set rs"
proof -
  let ?xs = "[TracerProvider, MeterProvider, Database, Callback, Poller, HttpServer, GrpcServer]"
  have xs: "commanderAcquired = map Acquire ?xs" "distinct ?xs" by simp_all
  have nr: "Callback \<notin> set rs" "Poller \<notin> set rs" using assms(3) by auto
  let ?ys = "if b then Poller # rs @ [Callback] else rs @ [Callback, Poller]"
  have "snd R = map Acquire ?xs @ map Release ?ys"
  proof (cases b)
    case True
    have "held (map Acquire ?xs @ map Release (Poller # rs @ [Callback])) = set ?xs - set (Poller # rs @ [Callback])"
      by (rule nested_held(2)[OF refl xs(2)]) (use assms(2,3) nr in auto)
    then show ?thesis using True by (simp add: R_def assms(1))
  next
    case False
    have "held (map Acquire ?xs @ map Release (rs @ [Callback])) = set ?xs - set (rs @ [Callback])"
      by (rule nested_held(2)[OF refl xs(2)]) (use assms(2,3) nr in auto)
    with nr have "Poller \<in> held (map Acquire ?xs @ map Release (rs @ [Callback]))" by simp
    then show ?thesis using False by (simp add: R_def assms(1))
  qed
  note n = nested_held[OF this xs(2)]
  have "distinct ?ys" "set ?ys \<subseteq> set ?xs" using assms(2,3) nr by auto
  from n[OF this] show "balanced (snd R)" and "held (snd R) = {TracerProvider, MeterProvider, Database, HttpServer, GrpcServer} - set rs"
    using nr by auto
qed

lemma commander_Run_started_exit:
  assumes "commanderStarts conf env"
  shows "(fst (commander_Run conf env) = Returns [] \<longleftrightarrow> \<not> serverFailed (reEvent env) \<and> commanderClosersOk env) \<and>
    balanced (snd (commander_Run conf env)) \<and> held (snd (commander_Run conf env)) = leftAfter env"
proof (cases "serverFailed (reEvent env)")
  case True
  let ?rs = "[case reEvent env of HttpEnded _ \<Rightarrow> HttpServer | _ \<Rightarrow> GrpcServer]"
  have "snd (commanderWait env) = map Release ((if False then [Poller] else []) @ ?rs)"
    using commanderWait_failed(2)[OF True] by simp
  note h = commander_released[OF this]
  have "leftAfter env = {TracerProvider, MeterProvider, Database, HttpServer, GrpcServer} - set ?rs"
    using True by (auto simp: leftAfter_def serverFailed_def split: RunEvent.splits)
  moreover have "set ?rs \<subseteq> {TracerProvider, MeterProvider, Database, HttpServer, GrpcServer}"
    by (auto split: RunEvent.splits)
  ultimately have "balanced (snd (commander_Run conf env)) \<and> held (snd (commander_Run conf env)) = leftAfter env"
    using h[OF distinct_singleton] by (simp only: commander_Run_started[OF assms])
  moreover have "fst (commander_Run conf env) \<noteq> Returns []"
    using commanderWait_failed(1)[OF True] by (auto simp: commander_Run_started[OF assms])
  ultimately show ?thesis using True by simp
next
  case False
  let ?rs = "(if reDbClose env = None then [Database] else []) @ (if reHttpShutdown env = None then [HttpServer] else []) @
      [GrpcServer] @ (if oeMeterShutdown (reOtel env) = None then [MeterProvider] else []) @
      (if oeTracerShutdown (reOtel env) = None then [TracerProvider] else [])"
  have "snd (commanderWait env) = map Release ((if reEvent env = Interrupted then [Poller] else []) @ ?rs)"
    using commanderShutdown_spec(1)[of env] by (simp add: commanderWait_closed[OF False])
  note h = commander_released[OF this]
  have "leftAfter env = {TracerProvider, MeterProvider, Database, HttpServer, GrpcServer} - set ?rs"
    using False by (auto simp: leftAfter_def otelUnclosed_def)
  moreover have "distinct ?rs" "set ?rs \<subseteq> {TracerProvider, MeterProvider, Database, HttpServer, GrpcServer}" by auto
  ultimately have "balanced (snd (commander_Run conf env)) \<and> held (snd (commander_Run conf env)) = leftAfter env"
    using h by (simp only: commander_Run_started[OF assms])
  moreover have "fst (commander_Run conf env) = fst (commanderShutdown env)"
    by (simp add: commander_Run_started[OF assms] commanderWait_closed[OF False])
  ultimately show ?thesis using False commanderShutdown_spec(2)[of env] by simp
qed

text \<open>On an ordinary shutdown the database is the first to go: both servers still run after it, and the callback of the
  metrics, which reads it, is still registered.\<close>

lemma commander_closes_database_first:
  assumes "commanderStarts conf env" and "reEvent env = Interrupted" and "commanderClosersOk env"
  shows "\<exists>before after. snd (commander_Run conf env) = before @ Release Database # after \<and>
    held (before @ [Release Database]) = {TracerProvider, MeterProvider, Callback, HttpServer, GrpcServer}"
  unfolding commander_Run_started[OF assms(1)]
  by (rule exI[of _ "commanderAcquired @ [Release Poller]"],
      rule exI[of _ "[Release HttpServer, Release GrpcServer, Release MeterProvider, Release TracerProvider, Release Callback]"])
    (use assms(2,3) in \<open>auto simp: commanderWait_def commanderShutdown_def SQLiteDB_Close_def otelShutdown_def
      commanderClosersOk_def closing_def\<close>)

section \<open>How a runner ends\<close>

definition runnerConnects :: "RunnerConfig \<Rightarrow> 'x RunnerRunEnv \<Rightarrow> bool" where
  "runnerConnects conf env \<longleftrightarrow>
     (\<exists>fs. CreateDirIfNotExists (rcFuncStorageRoot conf) (rrFs env) = Returns (fs, None)) \<and>
     rrHttpClient env = None \<and> rrGrpcClient env = None"

definition runnerMetricsOk :: "'x RunnerRunEnv \<Rightarrow> bool" where
  "runnerMetricsOk env \<longleftrightarrow> (\<exists>rm. snd (NewRunnerMetrics (rrMeter env) (rrMeterState env)) = Inr rm)"

lemma newRunner_actions:
  "fst (newRunner conf env) =
     (if runnerConnects conf env then [Acquire CommanderConn] else []) @
     (if runnerConnects conf env \<and> runnerMetricsOk env then [Acquire Callback] else [])"
  by (auto simp: newRunner_def Let_def runnerConnects_def runnerMetricsOk_def
      split: outcome.splits prod.splits option.splits sum.splits)

lemma newRunner_result:
  "(\<exists>fs srv. snd (newRunner conf env) = Returns (fs, Inr srv)) \<longleftrightarrow> runnerConnects conf env \<and> runnerMetricsOk env"
  by (auto simp: newRunner_def newRunnerGrpcServer_def Let_def runnerConnects_def runnerMetricsOk_def
      split: outcome.splits prod.splits option.splits sum.splits)

definition runnerStarts :: "RunnerConfig \<Rightarrow> 'x RunnerRunEnv \<Rightarrow> bool" where
  "runnerStarts conf env \<longleftrightarrow>
     exportersOk (rrOtel env) (runnerOpts conf) \<and> runnerConnects conf env \<and> runnerMetricsOk env \<and> rrListen env = None"

definition runnerRegisters :: "RunnerConfig \<Rightarrow> 'x RunnerRunEnv \<Rightarrow> bool" where
  "runnerRegisters conf env \<longleftrightarrow> (\<exists>i. rrRegister env (rcAddr conf) = Inr i)"

text \<open>The guests a runner has when its wait ends; a new server has none before it serves.\<close>

definition runnerGuests :: "'x RunnerRunEnv \<Rightarrow> Resource list" where
  "runnerGuests env = guestsOf (rrServed env \<lparr>processes = fmempty, connections = fmempty, nextHandle = 0\<rparr>)"

definition runnerLeft :: "RunnerConfig \<Rightarrow> 'x RunnerRunEnv \<Rightarrow> Resource set" where
  "runnerLeft conf env =
     (if \<not> exportersOk (rrOtel env) (runnerOpts conf) then otelUnfinished (rrOtel env) (runnerOpts conf)
      else if runnerStarts conf env
      then set (runnerGuests env) \<union>
        (if runnerRegisters conf env \<and> rrEvent env = Signalled then otelUnclosed (rrOtel env)
         else {TracerProvider, MeterProvider})
      else {TracerProvider, MeterProvider} \<union> (if runnerConnects conf env then {CommanderConn} else {}))"

lemma guestsOf_iff:
  "distinct (guestsOf w)"
  "x \<in> set (guestsOf w) \<longleftrightarrow> (\<exists>i. x = GuestProcess i \<and> i |\<in>| fmdom (processes w)) \<or> (\<exists>i. x = GuestConn i \<and> i |\<in>| fmdom (connections w))"
  by (auto simp: guestsOf_def distinct_map inj_on_def sorted_list_of_fset.rep_eq)

lemma registerWithCommander_iff:
  "snd (registerWithCommander (rrRegister env) (rcAddr conf) srv) = None \<longleftrightarrow> runnerRegisters conf env"
  by (auto simp: registerWithCommander_def runnerRegisters_def split: sum.splits)

lemma runnerServe_exit:
  "fst (runnerServe conf env srv) = Returns [] \<longleftrightarrow>
     rrListen env = None \<and> runnerRegisters conf env \<and> (\<forall>e. rrEvent env = Ended e \<longrightarrow> grpcServeErr e = None)"
  "snd (runnerServe conf env srv) =
     (if rrListen env = None
      then map Acquire (GrpcServer # guestsOf (rrServed env (world srv))) @
        map Release ([GrpcServer, CommanderConn] @
          (if runnerRegisters conf env \<and> rrEvent env = Signalled
           then (if oeMeterShutdown (rrOtel env) = None then [MeterProvider] else []) @
             (if oeTracerShutdown (rrOtel env) = None then [TracerProvider] else []) else []))
      else [])"
  using registerWithCommander_iff[of env conf srv]
  by (auto simp: runnerServe_def runnerWait_def closing_release split: option.splits prod.splits ServeEvent.splits)

lemma newRunner_world:
  assumes "snd (newRunner conf env) = Returns (fs, Inr srv)"
  shows "guestsOf (rrServed env (world srv)) = runnerGuests env"
  using assms by (auto simp: newRunner_def newRunnerGrpcServer_def Let_def runnerGuests_def
      split: outcome.splits prod.splits option.splits sum.splits)

text \<open>The actions of a runner that got as far as its server.\<close>

lemma runner_actions_held:
  assumes "distinct gs" and "\<And>g. g \<in> set gs \<Longrightarrow> \<exists>i. g = GuestProcess i \<or> g = GuestConn i"
    and "as = map Acquire ([TracerProvider, MeterProvider, CommanderConn, Callback, GrpcServer] @ gs) @
      map Release ([GrpcServer, CommanderConn] @ os @ [Callback])"
    and "distinct os" and "set os \<subseteq> {MeterProvider, TracerProvider}"
  shows "balanced as" and "held as = set gs \<union> ({TracerProvider, MeterProvider} - set os)"
proof -
  let ?xs = "[TracerProvider, MeterProvider, CommanderConn, Callback, GrpcServer] @ gs"
  let ?ys = "[GrpcServer, CommanderConn] @ os @ [Callback]"
  have g: "x \<notin> set gs" if "x \<in> {TracerProvider, MeterProvider, CommanderConn, Callback, GrpcServer}" for x
    using assms(2)[of x] that by auto
  have "distinct ?xs" using assms(1) g by auto
  moreover have "distinct ?ys" "set ?ys \<subseteq> set ?xs" using assms(4,5) by auto
  ultimately have "balanced as" and h: "held as = set ?xs - set ?ys" by (rule nested_held[OF assms(3)])+
  then show "balanced as" by simp
  have "set gs \<inter> set ?ys = {}" using g assms(5) by auto
  then show "held as = set gs \<union> ({TracerProvider, MeterProvider} - set os)" unfolding h by auto
qed

lemma runner_served_exit:
  assumes ex: "exportersOk (rrOtel env) (runnerOpts conf)" and ok: "runnerConnects conf env" "runnerMetricsOk env"
    and gs: "guestsOf (rrServed env (world srv)) = runnerGuests env"
  defines "R \<equiv> doing [Acquire TracerProvider, Acquire MeterProvider, Acquire CommanderConn, Acquire Callback]
    (deferring [Release Callback] (runnerServe conf env srv))"
  shows "(fst R = Returns [] \<longleftrightarrow> runnerStarts conf env \<and> runnerRegisters conf env \<and>
      (\<forall>e. rrEvent env = Ended e \<longrightarrow> grpcServeErr e = None)) \<and>
    balanced (snd R) \<and> held (snd R) = runnerLeft conf env"
proof (cases "rrListen env = None")
  case True
  let ?os = "if runnerRegisters conf env \<and> rrEvent env = Signalled
    then (if oeMeterShutdown (rrOtel env) = None then [MeterProvider] else []) @
      (if oeTracerShutdown (rrOtel env) = None then [TracerProvider] else []) else []"
  have g: "distinct (runnerGuests env)" "\<And>x. x \<in> set (runnerGuests env) \<Longrightarrow> \<exists>i. x = GuestProcess i \<or> x = GuestConn i"
    by (auto simp: runnerGuests_def guestsOf_iff)
  have "snd R = map Acquire ([TracerProvider, MeterProvider, CommanderConn, Callback, GrpcServer] @ runnerGuests env) @
      map Release ([GrpcServer, CommanderConn] @ ?os @ [Callback])"
    by (simp add: R_def runnerServe_exit True gs)
  note h = runner_actions_held[OF g this]
  have "runnerLeft conf env = set (runnerGuests env) \<union> ({TracerProvider, MeterProvider} - set ?os)"
    using True ex ok by (auto simp: runnerLeft_def runnerStarts_def otelUnclosed_def)
  moreover have "distinct ?os" "set ?os \<subseteq> {MeterProvider, TracerProvider}" by auto
  moreover have "fst R = Returns [] \<longleftrightarrow> runnerStarts conf env \<and> runnerRegisters conf env \<and>
      (\<forall>e. rrEvent env = Ended e \<longrightarrow> grpcServeErr e = None)"
    using True ex ok by (auto simp: R_def runnerServe_exit runnerStarts_def)
  ultimately show ?thesis using h by (simp only: simp_thms)
next
  case False
  then show ?thesis using ex ok by (auto simp: R_def runnerServe_exit runnerStarts_def runnerLeft_def)
qed

lemma runner_Run_exit:
  fixes q :: "'q itself"
  shows "fst (runner_Run q conf env) = Returns [] \<longleftrightarrow>
     runnerStarts conf env \<and> runnerRegisters conf env \<and> (\<forall>e. rrEvent env = Ended e \<longrightarrow> grpcServeErr e = None)"
    and "balanced (snd (runner_Run q conf env))"
    and "held (snd (runner_Run q conf env)) = runnerLeft conf env"
proof -
  obtain g as r where i: "InitOTEL (rrOtel env) (runnerOpts conf) (rrGlobals env) = (g, as, r)" by (metis prod_cases3)
  note spec = InitOTEL_spec[OF i]
  let ?R = "runner_Run q conf env"
  have "(fst ?R = Returns [] \<longleftrightarrow> runnerStarts conf env \<and> runnerRegisters conf env \<and> (\<forall>e. rrEvent env = Ended e \<longrightarrow> grpcServeErr e = None)) \<and>
    balanced (snd ?R) \<and> held (snd ?R) = runnerLeft conf env"
  proof (cases "exportersOk (rrOtel env) (runnerOpts conf)")
    case False
    then obtain e where "r = Inl e" using spec(1) by (cases r) auto
    with False show ?thesis using i spec(3)
      by (auto simp: runner_Run_def runnerLeft_def runnerStarts_def otelUnfinished_def)
  next
    case ex: True
    obtain mp where r: "r = Inr mp" and as: "as = [Acquire TracerProvider, Acquire MeterProvider]"
      using spec(1,2) ex by blast
    obtain nas nr where n: "(newRunner conf env :: Action list \<times> (FS \<times> 'q runnerGrpcServer res) outcome) = (nas, nr)"
      by fastforce
    have na: "nas = (if runnerConnects conf env then [Acquire CommanderConn] else []) @
        (if runnerConnects conf env \<and> runnerMetricsOk env then [Acquire Callback] else [])"
      using arg_cong[OF n, of fst] by (simp add: newRunner_actions)
    have "nr = snd (newRunner conf env)" using n by simp
    then have nres: "(\<exists>fs srv. nr = Returns (fs, Inr srv)) \<longleftrightarrow> runnerConnects conf env \<and> runnerMetricsOk env"
      by (simp only: newRunner_result)
    show ?thesis
    proof (cases "runnerConnects conf env \<and> runnerMetricsOk env")
      case True
      then obtain fs srv where s: "nr = Returns (fs, Inr srv)" using nres by auto
      have "?R = doing (as @ nas) (deferring [Release Callback] (runnerServe conf env srv))"
        by (simp add: runner_Run_def i r n s doing_def deferring_def)
      moreover have "guestsOf (rrServed env (world srv)) = runnerGuests env" using newRunner_world[of conf env fs srv] n s by simp
      ultimately show ?thesis using runner_served_exit[OF ex, of srv] True na as by simp
    next
      case False
      then have "\<And>fs srv. nr \<noteq> Returns (fs, Inr srv)" using nres by auto
      then have "fst ?R \<noteq> Returns []" and "snd ?R = as @ nas"
        by (auto simp: runner_Run_def i r n split: outcome.splits sum.splits)
      then show ?thesis using False na as ex by (auto simp: runnerStarts_def runnerLeft_def)
    qed
  qed
  then show "fst ?R = Returns [] \<longleftrightarrow>
     runnerStarts conf env \<and> runnerRegisters conf env \<and> (\<forall>e. rrEvent env = Ended e \<longrightarrow> grpcServeErr e = None)"
    and "balanced (snd ?R)" and "held (snd ?R) = runnerLeft conf env" by simp_all
qed

section \<open>Properties of the processes\<close>

text \<open>A process whose configuration can be loaded exits with code 0 exactly when its \<open>Run\<close> returns nil.\<close>

lemma main_zero:
  assumes "readFile path = Inr bs" and "unmarshal bs = Inr conf" and "path \<noteq> []"
  shows "main readFile unmarshal path run = 0 \<longleftrightarrow> fst (run conf) = Returns []"
  using assms by (auto simp: main_def ParseFlagsAndLoadConfig_def LoadConfigFromYAML_def split: outcome.splits)

text \<open>Without one it exits with another code and runs nothing.\<close>

lemma main_no_config:
  "path = [] \<Longrightarrow> main readFile unmarshal path run = 2"
  "path \<noteq> [] \<Longrightarrow> readFile path = Inl e \<Longrightarrow> main readFile unmarshal path run = 1"
  "path \<noteq> [] \<Longrightarrow> readFile path = Inr bs \<Longrightarrow> unmarshal bs = Inl e \<Longrightarrow> main readFile unmarshal path run = 1"
  by (simp_all add: main_def ParseFlagsAndLoadConfig_def LoadConfigFromYAML_def)

text \<open>An environment in which every call succeeds and the process is interrupted.\<close>

definition calmOtel :: "unit OtelEnv" where
  "calmOtel = \<lparr>oeResourceErr = None, oeTraceExporter = (Some (), None), oeMetricExporter = (Some (), None),
     oeMeterShutdown = None, oeTracerShutdown = None\<rparr>"

definition noGlobals :: "unit OtelGlobals" where
  "noGlobals = \<lparr>ogTracerProvider = None, ogMeterProvider = None, ogPropagators = []\<rparr>"

definition calmRunEnv :: "RunEvent \<Rightarrow> unit RunEnv" where
  "calmRunEnv ev = \<lparr>reOtel = calmOtel, reGlobals = noGlobals,
     reMeter = \<lparr>meInstrument = (\<lambda>_. None), meRegister = None\<rparr>, reMeterState = \<lparr>mtCallbacks = fmempty, mtNext = 0\<rparr>,
     reFs = \<lparr>nodes = fmupd ''/data'' DirNode fmempty, faults = []\<rparr>,
     reDb = \<lparr>deOpen = None, dePing = None, deMigrations = None, deDriver = None, deMigrate = None, deUp = Some ErrNoChange\<rparr>,
     reListen = None, reEvent = ev, reDbClose = None, reHttpShutdown = None\<rparr>"

definition exampleCommander :: CommanderConfig where
  "exampleCommander = \<lparr>ccAppName = ''commander'', ccEnv = ''PROD'', ccOTELOn = True, ccHost = ''localhost'',
     ccHttpPort = ''80'', ccGrpcPort = ''81'', ccDbURI = ''db'', ccFuncStorageRoot = ''/data'', ccRunnerHeartbeatPoll = 1,
     ccRunnerOverloadedQueueSize = 1, ccInstanceOverloadedQueueSize = 1\<rparr>"

definition exampleGateway :: GatewayConfig where
  "exampleGateway = \<lparr>gcfAppName = ''gateway'', gcfEnv = ''PROD'', gcfOTELOn = True, gcfAddress = '':8080'',
     gcfCommanderAddr = ''c:81'', gcfCommanderClientOpts = commanderOpts exampleCommander,
     gcfRunnerClientOpts = commanderOpts exampleCommander\<rparr>"

text \<open>
  C15: the gateway exits with code 0 exactly when its configuration is loaded, telemetry starts, the client of
  the commander can be made, its server does not fail and is shut down in time. On every way out it
  first acquires and then releases in the reverse order, each at most once: the server before the
  connections to the runners, the connection to the commander after them and the providers last. What is left
  is \<open>gatewayLeft\<close>: the tracer provider when only the meter provider could not be made, otherwise the
  providers whose closers failed and the server if its shutdown failed; never a connection.
\<close>

theorem gateway_exit:
  fixes conf :: GatewayConfig and env :: "'x GatewayRunEnv" and cc :: "string \<Rightarrow> MonitoringOpts \<Rightarrow> 'c res"
  assumes "readFile path = Inr bs" and "unmarshal bs = Inr conf" and "path \<noteq> []"
  defines "run \<equiv> gateway_Run cc conf env"
  shows "(gateway_main readFile unmarshal path cc env = 0 \<longleftrightarrow>
      exportersOk (grOtel env) (gatewayOpts conf) \<and> gatewayConnects cc conf \<and> \<not> gatewayServerFailed env \<and>
      grHttpShutdown env = None) \<and>
    (\<exists>xs ys. distinct xs \<and> snd run = map Acquire xs @ map Release ys \<and> subseq ys (rev xs)) \<and>
    balanced (snd run) \<and> held (snd run) = gatewayLeft cc conf env \<and>
    CommanderConn \<notin> held (snd run) \<and> RunnerConns \<notin> held (snd run)"
proof -
  have m: "gateway_main readFile unmarshal path cc env = 0 \<longleftrightarrow> fst run = Returns []"
    unfolding gateway_main_def run_def by (rule main_zero[where readFile = readFile and unmarshal = unmarshal and bs = bs, OF assms(1-3)])
  obtain xs ys where a: "snd run = map Acquire xs @ map Release ys" "distinct xs" "subseq ys (rev xs)"
      "set xs - set ys = gatewayLeft cc conf env"
    using gateway_actions[of cc conf env] unfolding run_def by blast
  have "distinct ys" "set ys \<subseteq> set xs"
    using a(2,3) subseq_distinct[of ys "rev xs"] by auto
  from nested_held[OF a(1,2) this] have "balanced (snd run)" "held (snd run) = gatewayLeft cc conf env" using a(4) by auto
  moreover have "CommanderConn \<notin> gatewayLeft cc conf env" "RunnerConns \<notin> gatewayLeft cc conf env"
    by (auto simp: gatewayLeft_def otelUnfinished_def otelUnclosed_def)
  ultimately show ?thesis using m gateway_Run_result[of cc conf env] a(1-3) unfolding run_def by blast
qed

theorem gateway_exit_witness:
  "gateway_main (\<lambda>_. Inr []) (\<lambda>_. Inr exampleGateway) ''g.yaml'' (\<lambda>_ _. Inr ())
     \<lparr>grOtel = calmOtel, grGlobals = noGlobals, grHttpShutdown = None, grEvent = Signalled\<rparr> = 0 \<and>
   held (snd (gateway_Run (\<lambda>_ _. Inr ()) exampleGateway
     \<lparr>grOtel = calmOtel, grGlobals = noGlobals, grHttpShutdown = Some ErrContext, grEvent = Signalled\<rparr>)) = {HttpServer} \<and>
   held (snd (gateway_Run (\<lambda>_ _. Inr ()) exampleGateway
     \<lparr>grOtel = calmOtel\<lparr>oeMetricExporter := (None, Some ErrContext)\<rparr>, grGlobals = noGlobals, grHttpShutdown = None,
      grEvent = Signalled\<rparr>)) = {TracerProvider}"
proof -
  note calm = gateway_exit[where bs = "[]" and readFile = "\<lambda>_. Inr []" and unmarshal = "\<lambda>_. Inr exampleGateway"
      and conf = exampleGateway and path = "''g.yaml''" and cc = "\<lambda>_ _. Inr ()", simplified]
  have ex: "exportersOk calmOtel (gatewayOpts exampleGateway)" "gatewayConnects (\<lambda>_ _. Inr ()) exampleGateway"
      "otelUnclosed calmOtel = {}"
    by (simp_all add: exportersOk_def calmOtel_def gatewayConnects_def otelUnclosed_def)
  have no: "\<not> exportersOk (calmOtel\<lparr>oeMetricExporter := (None, Some ErrContext)\<rparr>) (gatewayOpts exampleGateway)"
      "otelUnfinished (calmOtel\<lparr>oeMetricExporter := (None, Some ErrContext)\<rparr>) (gatewayOpts exampleGateway) = {TracerProvider}"
    by (simp_all add: exportersOk_def otelUnfinished_def calmOtel_def gatewayOpts_def exampleGateway_def)
  show ?thesis
    using calm[of "\<lparr>grOtel = calmOtel, grGlobals = noGlobals, grHttpShutdown = None, grEvent = Signalled\<rparr>"]
      calm[of "\<lparr>grOtel = calmOtel, grGlobals = noGlobals, grHttpShutdown = Some ErrContext, grEvent = Signalled\<rparr>"]
      calm[of "\<lparr>grOtel = calmOtel\<lparr>oeMetricExporter := (None, Some ErrContext)\<rparr>, grGlobals = noGlobals,
        grHttpShutdown = None, grEvent = Signalled\<rparr>"] ex no
    by (simp add: gatewayLeft_def gatewayServerFailed_def)
qed

text \<open>
  C16: the commander exits with code 0 exactly when its configuration is loaded, everything it needs starts,
  it is then ended other than by the failure of a server, and all closers succeed; nothing is left open
  then. It never releases twice, and callback and poller end on every way out. When one of its
  servers fails, the other server, the database and the telemetry providers are left open; on a shutdown
  what is left is exactly what a closer failed to close, and a start that fails leaves what \<open>commanderLeft\<close>
  says: the HTTP server is left running when the gRPC server cannot listen.
\<close>

theorem commander_exit:
  fixes conf :: CommanderConfig and env :: "'x RunEnv"
  assumes "readFile path = Inr bs" and "unmarshal bs = Inr conf" and "path \<noteq> []"
  defines "run \<equiv> commander_Run conf env"
  shows "(commander_main readFile unmarshal path env = 0 \<longleftrightarrow>
      commanderStarts conf env \<and> \<not> serverFailed (reEvent env) \<and> commanderClosersOk env) \<and>
    balanced (snd run) \<and> Callback \<notin> held (snd run) \<and> Poller \<notin> held (snd run) \<and>
    (commander_main readFile unmarshal path env = 0 \<longrightarrow> held (snd run) = {}) \<and>
    (commanderStarts conf env \<longrightarrow> held (snd run) = leftAfter env) \<and>
    (\<not> commanderStarts conf env \<longrightarrow> held (snd run) = commanderLeft conf env)"
proof -
  have m: "commander_main readFile unmarshal path env = 0 \<longleftrightarrow> fst run = Returns []"
    unfolding commander_main_def run_def by (rule main_zero[where readFile = readFile and unmarshal = unmarshal and bs = bs, OF assms(1-3)])
  show ?thesis
  proof (cases "commanderStarts conf env")
    case True
    from commander_Run_started_exit[OF this] show ?thesis
      using m True leftAfter_empty[of env] leftAfter_frame[of env] by (auto simp: run_def)
  next
    case False
    from commander_Run_not_started[OF this] show ?thesis
      using m False by (auto simp: run_def commanderLeft_def)
  qed
qed

lemma data_clean: "filepath_Clean ''/data'' = ''/data''"
  by code_simp

lemma data_dir:
  "CreateDirIfNotExists ''/data'' \<lparr>nodes = fmupd ''/data'' DirNode fmempty, faults = []\<rparr> =
     Returns (\<lparr>nodes = fmupd ''/data'' DirNode fmempty, faults = []\<rparr>, None)"
  by (simp add: CreateDirIfNotExists_def os_Stat_def popFault_def nextFault_def Let_def data_clean)

lemma calm_starts: "commanderStarts exampleCommander (calmRunEnv ev)"
  by (simp add: commanderStarts_def exampleCommander_def calmRunEnv_def exportersOk_def calmOtel_def storageOk_def
      metricsOk_def NewSQLiteDB_ok NewFSFunctionStorage_def data_dir NewCommanderMetrics_def RegisterCallback_def)

theorem commander_exit_witness:
  "commander_main (\<lambda>_. Inr []) (\<lambda>_. Inr exampleCommander) ''c.yaml'' (calmRunEnv Interrupted) = 0 \<and>
   held (snd (commander_Run exampleCommander (calmRunEnv (HttpEnded (Some ErrContext))))) =
     {TracerProvider, MeterProvider, Database, GrpcServer}"
proof -
  note calm = commander_exit[where bs = "[]" and readFile = "\<lambda>_. Inr []" and unmarshal = "\<lambda>_. Inr exampleCommander"
      and conf = exampleCommander and path = "''c.yaml''", simplified]
  have "commanderClosersOk (calmRunEnv Interrupted)"
    by (simp add: commanderClosersOk_def calmRunEnv_def calmOtel_def)
  moreover have "\<not> serverFailed (reEvent (calmRunEnv Interrupted))"
    by (simp add: serverFailed_def calmRunEnv_def)
  moreover have "leftAfter (calmRunEnv (HttpEnded (Some ErrContext))) =
      {TracerProvider, MeterProvider, Database, GrpcServer}"
    by (auto simp: leftAfter_def serverFailed_def calmRunEnv_def httpServeErr_def ErrServerClosed_def)
  ultimately show ?thesis
    using calm[of "calmRunEnv Interrupted"] calm[of "calmRunEnv (HttpEnded (Some ErrContext))"]
      calm_starts[of Interrupted] calm_starts[of "HttpEnded (Some ErrContext)"] by simp
qed

definition exampleRunner :: RunnerConfig where
  "exampleRunner = \<lparr>rcAppName = ''runner'', rcCommitHash = ''c0ffee'', rcEnv = ''PROD'', rcOTELOn = True, rcAddr = '':9090'',
     rcCommanderHost = ''c'', rcCommanderHttpPort = ''80'', rcCommanderGrpcPort = ''81'', rcInstanceShutdownAfter = 1,
     rcInstanceGracePeriod = 1, rcFuncStorageRoot = ''/data''\<rparr>"

definition calmRunnerEnv :: "ServeEvent \<Rightarrow> unit RunnerRunEnv" where
  "calmRunnerEnv ev = \<lparr>rrOtel = calmOtel, rrGlobals = noGlobals,
     rrMeter = \<lparr>meInstrument = (\<lambda>_. None), meRegister = None\<rparr>, rrMeterState = \<lparr>mtCallbacks = fmempty, mtNext = 0\<rparr>,
     rrFs = \<lparr>nodes = fmupd ''/data'' DirNode fmempty, faults = []\<rparr>, rrHttpClient = None, rrGrpcClient = None,
     rrListen = None, rrRegister = (\<lambda>_. Inr 1),
     rrServed = (\<lambda>w. fst (dial '':7'' (fst (spawn ''/data/f'' ''GUEST_ADDR=:7'' True w)))), rrEvent = ev\<rparr>"

lemma calm_runner:
  "runnerStarts exampleRunner (calmRunnerEnv ev) \<and> runnerRegisters exampleRunner (calmRunnerEnv ev)"
  by (simp add: runnerStarts_def runnerRegisters_def exampleRunner_def calmRunnerEnv_def exportersOk_def calmOtel_def
      runnerConnects_def runnerMetricsOk_def data_dir NewRunnerMetrics_def RegisterCallback_def)

text \<open>
  C17: a runner exits with code 0 exactly when its configuration is loaded, it starts, registers with the
  commander and is ended by a signal or by the end of its server without an error. It never releases
  twice, never leaves its gRPC server or its callback behind, and what it does leave is \<open>runnerLeft\<close>: the
  processes of all guests it still has and the connections to them, whatever ended it, since nothing stops
  them; after a signal besides these only a provider whose closer failed, otherwise both providers, and the
  connection to the commander too when it cannot listen.
\<close>

theorem runner_exit:
  fixes conf :: RunnerConfig and env :: "'x RunnerRunEnv" and q :: "'q itself"
  assumes "readFile path = Inr bs" and "unmarshal bs = Inr conf" and "path \<noteq> []"
  defines "run \<equiv> runner_Run q conf env"
  shows "(runner_main q readFile unmarshal path env = 0 \<longleftrightarrow>
      runnerStarts conf env \<and> runnerRegisters conf env \<and> (\<forall>e. rrEvent env = Ended e \<longrightarrow> grpcServeErr e = None)) \<and>
    balanced (snd run) \<and> held (snd run) = runnerLeft conf env \<and>
    set (runnerGuests env) \<inter> held (snd run) = (if runnerStarts conf env then set (runnerGuests env) else {}) \<and>
    GrpcServer \<notin> held (snd run) \<and> Callback \<notin> held (snd run)"
proof -
  have "runner_main q readFile unmarshal path env = 0 \<longleftrightarrow> fst run = Returns []"
    unfolding runner_main_def run_def by (rule main_zero[where readFile = readFile and unmarshal = unmarshal and bs = bs, OF assms(1-3)])
  moreover have "GrpcServer \<notin> runnerLeft conf env" "Callback \<notin> runnerLeft conf env"
    and "set (runnerGuests env) \<inter> runnerLeft conf env = (if runnerStarts conf env then set (runnerGuests env) else {})"
    by (auto simp: runnerLeft_def runnerStarts_def otelUnfinished_def otelUnclosed_def runnerGuests_def guestsOf_iff)
  ultimately show ?thesis using runner_Run_exit[of q conf env] by (simp add: run_def)
qed

theorem runner_exit_witness:
  "runner_main TYPE(unit) (\<lambda>_. Inr []) (\<lambda>_. Inr exampleRunner) ''r.yaml'' (calmRunnerEnv Signalled) = 0 \<and>
   held (snd (runner_Run TYPE(unit) exampleRunner (calmRunnerEnv Signalled))) = {GuestProcess 0, GuestConn 1}"
proof -
  note calm = runner_exit[where bs = "[]" and readFile = "\<lambda>_. Inr []" and unmarshal = "\<lambda>_. Inr exampleRunner"
      and conf = exampleRunner and path = "''r.yaml''" and q = "TYPE(unit)", simplified]
  have ex: "exportersOk (rrOtel (calmRunnerEnv ev)) (runnerOpts exampleRunner)" for ev
    by (simp add: exportersOk_def calmRunnerEnv_def calmOtel_def)
  have gs: "set (runnerGuests (calmRunnerEnv Signalled)) = {GuestProcess 0, GuestConn 1}"
    by (auto simp: runnerGuests_def guestsOf_iff calmRunnerEnv_def spawn_def dial_def Let_def)
  show ?thesis
    using calm[of "calmRunnerEnv Signalled"] calm_runner[of Signalled] ex[of Signalled] gs
    by (simp add: runnerLeft_def otelUnclosed_def calmRunnerEnv_def calmOtel_def)
qed

section \<open>Calls and requests are observed, not changed\<close>

definition exampleChain :: "('e, 'q, 'a) UnaryInterceptor list \<Rightarrow> ('e, 'q, 'a) UnaryInterceptor" where
  "exampleChain is req m h = foldr (\<lambda>i k q. i q m k) is h req"

lemma exampleChain_order: "chain_order exampleChain"
  by (simp add: chain_order_def exampleChain_def)

text \<open>
  C14: around every call of a runner's gRPC server the monitoring changes neither the answer nor the effects
  of the handler. The handler runs in a context with fresh holders; the log gets records before and after
  it, and the span what the handler recorded in its holders and its error. A heartbeat, which is
  polled all the time, causes no log record and no annotation at all.
\<close>

theorem runner_calls_observed:
  fixes ctx :: "'e Ctx"
  assumes "chain_order chain" and "logging_contract lib"
    and "h req (ctx\<lparr>downloadSlot := Holder None, instanceStartSlot := Holder None, invokeSlot := Holder None\<rparr>) = (c, err, a, ev)"
  shows "\<exists>pre post. list_all isLog (pre @ post) \<and>
    chain (gsInterceptors (runnerGrpcServerOf lib isRec ord hb opts)) req m h ctx =
      (c\<lparr>downloadSlot := downloadSlot ctx, instanceStartSlot := instanceStartSlot ctx, invokeSlot := invokeSlot ctx\<rparr>, err, a,
       if m = hb then ev else pre @ ev @ post @ annotateSpan isRec c err)"
proof -
  let ?inner = "[grpcServerTraceInterceptor isRec [hb], grpcServerLogger lib ord opts [hb]]"
  let ?ctx = "ctx\<lparr>downloadSlot := Holder None, instanceStartSlot := Holder None, invokeSlot := Holder None\<rparr>"
  have "observed (grpcMethodAllowed m [hb]) isRec (h req ?ctx) (chain ?inner req m h ?ctx)"
    by (rule instrumented_core[OF assms(1,2)])
  then obtain pre post where p: "list_all isLog (pre @ post)" "chain ?inner req m h ?ctx =
      (c, err, a, if m = hb then ev else pre @ ev @ post @ annotateSpan isRec c err)"
    unfolding assms(3) observed_def grpcMethodAllowed_def
    by (cases "m = hb") (auto simp del: list_all_append intro: that[of "[]" "[]"])
  have i: "gsInterceptors (runnerGrpcServerOf lib isRec ord hb opts) =
      holderInterceptor WithDownloadMetaHolder # holderInterceptor WithInstanceStartMetaHolder #
      holderInterceptor WithInvokeMetaHolder # ?inner"
    by (simp add: runnerGrpcServerOf_def InstrumentedGrpcServerWithExcludedMethodLogs_def)
  show ?thesis
    unfolding i chain_orderD(2)[OF assms(1), of "holderInterceptor W" for W] holderInterceptor_def holders_run_next
    using p by (intro exI[of _ pre] exI[of _ post]) simp
qed

text \<open>A logging library as the contract has it, which logs with a fixed logger.\<close>

definition exampleLib :: "('e, 'q, 'a) LoggingLib" where
  "exampleLib cfg req m h ctx =
     (let (ctx', err, a, ev) = h req ctx; l = slogHandler (runnerOpts exampleRunner) \<lparr>hoLevel = 0, hoConcise = None\<rparr>
      in (ctx', err, a, [LogRecord l 0 ''started call'' (loFieldsFromContext (snd cfg) ctx)] @ ev @
            [LogRecord l 0 ''finished call'' (loFieldsFromContext (snd cfg) ctx')]))"

lemma exampleLib_contract: "logging_contract (exampleLib :: ('e, 'q, 'a) LoggingLib)"
  unfolding logging_contract_def
proof (intro allI)
  fix cfg :: "LoggerFunc \<times> 'e LoggingOptions" and req m ctx and h :: "('e, 'q, 'a) UnaryHandler"
  obtain c e a ev where h: "h req ctx = (c, e, a, ev)" by (metis prod_cases4)
  show "logs_around (h req ctx) (exampleLib cfg req m h ctx)"
    unfolding logs_around_def h exampleLib_def Let_def prod.case
    by (rule exI[of _ "[LogRecord (slogHandler (runnerOpts exampleRunner) \<lparr>hoLevel = 0, hoConcise = None\<rparr>) 0
          ''started call'' (loFieldsFromContext (snd cfg) ctx)]"],
        rule exI[of _ "[LogRecord (slogHandler (runnerOpts exampleRunner) \<lparr>hoLevel = 0, hoConcise = None\<rparr>) 0
          ''finished call'' (loFieldsFromContext (snd cfg) c)]"]) simp
qed

theorem runner_calls_observed_witness:
  "\<exists>c evs. exampleChain (gsInterceptors (runnerGrpcServerOf exampleLib (\<lambda>_. True) sorted_list_of_fset ''hb''
       (runnerOpts exampleRunner))) () ''invoke'' (\<lambda>_ ctx. (ctx, Some ErrContext, 7 :: int, [])) (emptyCtx :: unit Ctx) =
     (c, Some ErrContext, 7, evs) \<and> RecordError ErrContext \<in> set evs"
proof -
  let ?h = "\<lambda>_ ctx. (ctx, Some ErrContext, 7 :: int, [])"
  let ?ctx = "(emptyCtx :: unit Ctx)\<lparr>downloadSlot := Holder None, instanceStartSlot := Holder None, invokeSlot := Holder None\<rparr>"
  have "?h () ?ctx = (?ctx, Some ErrContext, 7, [])" by simp
  from runner_calls_observed[where h = ?h and req = "()", OF exampleChain_order exampleLib_contract this,
      of "\<lambda>_. True" sorted_list_of_fset "''hb''" "runnerOpts exampleRunner" "''invoke''"]
  show ?thesis using annotateSpan_iff(2)[of ErrContext "\<lambda>_. True" ?ctx "Some ErrContext"] by auto
qed

text \<open>The same holds for the commander's server, where no method is left out.\<close>

lemma commander_calls_observed:
  fixes ctx :: "'e Ctx"
  assumes "chain_order chain" and "logging_contract lib"
    and "h req (ctx\<lparr>registerRunnerSlot := Holder None, routeFunctionSlot := Holder None\<rparr>) = (c, err, a, ev)"
  shows "\<exists>pre post. list_all isLog (pre @ post) \<and>
    chain (gsInterceptors (commanderGrpcServerOf lib isRec ord opts)) req m h ctx =
      (c\<lparr>routeFunctionSlot := routeFunctionSlot ctx, registerRunnerSlot := registerRunnerSlot ctx\<rparr>, err, a,
       pre @ ev @ post @ annotateSpan isRec c err)"
proof -
  let ?inner = "[grpcServerTraceInterceptor isRec [], grpcServerLogger lib ord opts []]"
  let ?ctx = "ctx\<lparr>registerRunnerSlot := Holder None, routeFunctionSlot := Holder None\<rparr>"
  have "observed (grpcMethodAllowed m []) isRec (h req ?ctx) (chain ?inner req m h ?ctx)"
    by (rule instrumented_core[OF assms(1,2)])
  then obtain pre post where p: "list_all isLog (pre @ post)"
      "chain ?inner req m h ?ctx = (c, err, a, pre @ ev @ post @ annotateSpan isRec c err)"
    unfolding assms(3) observed_def grpcMethodAllowed_def by (auto simp del: list_all_append)
  have i: "gsInterceptors (commanderGrpcServerOf lib isRec ord opts) =
      holderInterceptor WithRegisterRunnerMetaHolder # holderInterceptor WithRouteFunctionMetaHolder # ?inner"
    by (simp add: commanderGrpcServerOf_def InstrumentedGrpcServer_def InstrumentedGrpcServerWithExcludedMethodLogs_def)
  show ?thesis
    unfolding i chain_orderD(2)[OF assms(1), of "holderInterceptor W" for W] holderInterceptor_def holders_run_next
    using p by (intro exI[of _ pre] exI[of _ post]) simp
qed

section \<open>Errors of the gateway are logged\<close>

lemma EncodeError_recorded:
  assumes "EncodeError uri e (ctx, w) = (c, w')" and "apiErrorSlot ctx = Holder z"
  shows "GetAPIError c = Some (NewApiError uri e)"
  using assms by (auto simp: EncodeError_def EncodeApiError_def GetAPIError_def SetAPIError_def)

lemma copyResponse_no_error:
  assumes "copyResponse env uri resp (ctx, w) = Returns (c, w')" and "sent w = None" and "writeErr w = None"
  shows "\<not> failedWith code w w'"
  using copyResponse_answer[OF assms] by (auto simp: answeredWith_def failedWith_def Let_def split: if_splits)

text \<open>Every way a request of the gateway ends: with an encoded error, or with the copy of a response.\<close>

definition endsInError :: "ApiError option \<Rightarrow> string \<Rightarrow> 'p Writer \<Rightarrow> 'p exchange \<Rightarrow> bool" where
  "endsInError z uri w x \<longleftrightarrow> (\<exists>e ctx0. apiErrorSlot ctx0 = Holder z \<and> EncodeError uri e (ctx0, w) = x)"

lemma endsInErrorI: "EncodeError uri e (ctx0, w) = x \<Longrightarrow> apiErrorSlot ctx0 = Holder z \<Longrightarrow> endsInError z uri w x"
  unfolding endsInError_def by blast

lemma gateway_ends:
  assumes "processFunctionRequest env r (ctx, w) h = Returns ((c, w'), h')" and "apiErrorSlot ctx = Holder z"
  shows "endsInError z (hrURI r) w (c, w') \<or> (\<exists>resp ctx0. copyResponse env (hrURI r) resp (ctx0, w) = Returns (c, w'))"
  using assms
  by (auto simp: processFunctionRequest_def forwardTo_def InternalServerError_def Let_def modGwMeta_def
      SetGatewayFunctionRequestMeta_def split: if_splits sum.splits prod.splits outcome.splits intro: endsInErrorI)

lemma gateway_error_recorded:
  assumes "processFunctionRequest env r (ctx, w) h = Returns ((c, w'), h')" and "apiErrorSlot ctx = Holder z"
    and "sent w = None" and "writeErr w = None" and "failedWith code w w'"
  shows "\<exists>e. GetAPIError c = Some (NewApiError (hrURI r) e) \<and> Status e = code"
  using gateway_ends[OF assms(1,2)]
proof (elim disjE exE)
  assume "endsInError z (hrURI r) w (c, w')"
  then obtain e ctx0 where er: "apiErrorSlot ctx0 = Holder z" "EncodeError (hrURI r) e (ctx0, w) = (c, w')"
    by (auto simp: endsInError_def)
  from failedWith_EncodeError[OF assms(3,4) er(2)] assms(5) have "Status e = code" by (auto simp: failedWith_def)
  with EncodeError_recorded[OF er(2,1)] show ?thesis by blast
next
  fix resp ctx0 assume "copyResponse env (hrURI r) resp (ctx0, w) = Returns (c, w')"
  from copyResponse_no_error[OF this assms(3,4)] assms(5) show ?thesis by blast
qed


lemma gateway_stack:
  assumes "stack_order stack" and "http_contract newSpan libs"
    and h: "h w (ctx\<lparr>span := Some (newSpan ctx), apiErrorSlot := Holder None, gatewayFunctionRequestSlot := Holder None\<rparr>) = (c, pn, w', ev)"
    and "pn \<noteq> Some AbortHandler"
    and beat: "\<And>h. hlHeartbeat libs HeartbeatEndpoint (hrMethod r) (hrPath r) h = h"
  shows "\<exists>logged. (hrMethod r \<noteq> ''OPTIONS'' \<longrightarrow> logged) \<and>
    stack (fst (snd (createHttpHandler libs render ord cfg (gatewayOpts conf))) r) h w ctx =
    (c\<lparr>gatewayFunctionRequestSlot := gatewayFunctionRequestSlot ctx, apiErrorSlot := apiErrorSlot ctx, span := span ctx\<rparr>,
     None, recovered pn w', ev @ accessLog logged (httpLogger ord (gatewayOpts conf)) (logExtraAttrs render c))"
proof -
  let ?mws = "[holderMiddleware WithGatewayFunctionRequestMetaHolder]"
  have hold: "stack (?mws @ ms) h w ctx =
      ((fst (stack ms h w (ctx\<lparr>gatewayFunctionRequestSlot := Holder None\<rparr>)))\<lparr>gatewayFunctionRequestSlot := gatewayFunctionRequestSlot ctx\<rparr>,
       snd (stack ms h w (ctx\<lparr>gatewayFunctionRequestSlot := Holder None\<rparr>)))" for ms ctx
    by (simp add: stack_orderD(2)[OF assms(1)] holderMiddleware_def gatewayHolder.runs_next)
  have "moLevel (gatewayOpts conf) \<le> 0" by (simp add: gatewayOpts_def)
  from http_stack[where h = h and w = w and ctx = ctx and mws = ?mws and meth = "hrMethod r" and cfg = cfg
      and enter = "\<lambda>ctx. ctx\<lparr>gatewayFunctionRequestSlot := Holder None\<rparr>"
      and leave = "\<lambda>ctx c. c\<lparr>gatewayFunctionRequestSlot := gatewayFunctionRequestSlot ctx\<rparr>",
      OF assms(1,2) this hold _ assms(4)] h
  have "\<exists>logged. (hrMethod r \<noteq> ''OPTIONS'' \<longrightarrow> logged) \<and>
    stack (HttpMiddleware libs render ord cfg (gatewayOpts conf) ?mws (hrMethod r)) h w ctx =
    (c\<lparr>gatewayFunctionRequestSlot := gatewayFunctionRequestSlot ctx, apiErrorSlot := apiErrorSlot ctx, span := span ctx\<rparr>,
     None, recovered pn w', ev @ accessLog logged (httpLogger ord (gatewayOpts conf)) (logExtraAttrs render c))"
    by simp
  then show ?thesis
    unfolding createHttpHandler_def fst_conv snd_conv
      stack_orderD(2)[OF assms(1), of "hlHeartbeat libs HeartbeatEndpoint (hrMethod r) (hrPath r)"] beat .
qed

text \<open>
  The handler that the middlewares of the gateway surround, for a request: the router, and what it did
  before a panic; the panic comes before a status goes out.
\<close>

definition runsRouter ::
  "(string \<Rightarrow> string option) \<Rightarrow> GatewayEnv \<Rightarrow> HttpRequest \<Rightarrow> gatewayHandler \<Rightarrow> 'p HttpHandler \<Rightarrow> bool" where
  "runsRouter matches env r h hnd \<longleftrightarrow>
     (\<forall>w ctx. case gatewayRouter matches env r (ctx, w) h of
        Returns ((c, w'), h') \<Rightarrow> hnd w ctx = (c, None, w', [])
      | Panics msg \<Rightarrow> \<exists>c w'. hnd w ctx = (c, Some (PanicValue msg), w', []) \<and> sent w' = sent w)"

text \<open>What the client gets and the record of the request has, for a verdict on the request.\<close>

definition loggedAs :: "string \<Rightarrow> 'p Writer \<Rightarrow> Verdict \<Rightarrow> 'p Writer \<Rightarrow> KeyValue list \<Rightarrow> bool" where
  "loggedAs uri w v w' attrs \<longleftrightarrow>
     (case v of
        NoRoute \<Rightarrow> \<exists>hdr. sent w' = Some (404, hdr)
      | Refused code \<Rightarrow> failedWith code w w' \<and> (''api.error.status'', IntAttr code) \<in> set attrs \<and>
          (''api.error.instance'', StringAttr uri) \<in> set attrs
      | Answered resp \<Rightarrow> answeredWith resp w w'
      | Crashed \<Rightarrow> \<exists>hdr. sent w' = Some (500, hdr))"

lemma gateway_refused_recorded:
  assumes "gatewayRouter matches env r (ctx, w) h = Returns ((c, w'), h')" and "apiErrorSlot ctx = Holder z"
    and "sent w = None" and "writeErr w = None" and "failedWith code w w'" and "matches (hrPath r) \<noteq> None"
  shows "(''api.error.status'', IntAttr code) \<in> set (logExtraAttrs render c) \<and>
    (''api.error.instance'', StringAttr (hrURI r)) \<in> set (logExtraAttrs render c)"
proof -
  from assms(6) obtain fid where "matches (hrPath r) = Some fid" by blast
  with assms(1) have "processFunctionRequest env (r\<lparr>hrFunctionId := fid\<rparr>) (ctx, w) h = Returns ((c, w'), h')"
    by (simp add: gatewayRouter_def)
  from gateway_error_recorded[OF this assms(2-5)] show ?thesis
    by (auto simp: logExtraAttrs_def NewApiError_def)
qed

lemma router_handler_logged:
  assumes "gw_inv h" and "gw_calm env" and "sent w = None" and "writeErr w = None"
    and "runsRouter matches env r h hnd" and "apiErrorSlot ctx = Holder z"
  shows "\<exists>c pn w'. hnd w ctx = (c, pn, w', []) \<and> pn \<noteq> Some AbortHandler \<and>
    loggedAs (hrURI r) w (gatewayVerdict matches env r h) (recovered pn w') (logExtraAttrs render c)"
proof (cases "gatewayRouter matches env r (ctx, w) h")
  case (Returns res)
  obtain c w' h' where res: "res = ((c, w'), h')" by (metis prod.exhaust)
  have a: "answersAs w (Returns ((c, w'), h')) (gatewayVerdict matches env r h)"
    using gatewayRouter_answers[OF assms(1-4), of matches r ctx] Returns res by simp
  have "hnd w ctx = (c, None, w', [])"
    using assms(5) Returns res by (auto simp: runsRouter_def dest!: spec[of _ w] spec[of _ ctx])
  moreover have "loggedAs (hrURI r) w (gatewayVerdict matches env r h) w' (logExtraAttrs render c)"
  proof (cases "gatewayVerdict matches env r h")
    case (Refused code)
    then have "failedWith code w w'" "matches (hrPath r) \<noteq> None" using a by (auto simp: answersAs_def gatewayVerdict_def split: option.splits)
    with Refused gateway_refused_recorded[OF _ assms(6,3,4)] Returns res show ?thesis by (simp add: loggedAs_def)
  qed (use a in \<open>auto simp: answersAs_def loggedAs_def\<close>)
  ultimately show ?thesis by (auto simp: recovered_def)
next
  case (Panics msg)
  then have v: "gatewayVerdict matches env r h = Crashed"
    using gatewayRouter_answers[OF assms(1-4), of matches r ctx] by (simp add: answersAs_def)
  obtain c w' where "hnd w ctx = (c, Some (PanicValue msg), w', [])" "sent w' = sent w"
    using assms(5) Panics by (auto simp: runsRouter_def dest!: spec[of _ w] spec[of _ ctx])
  then show ?thesis using v assms(3) by (auto simp: loggedAs_def recovered_def sent_WriteHeader)
qed

lemma heartbeat_answers:
  assumes "heartbeat_contract endpoint m" and "meth \<in> {''GET'', ''HEAD''}"
  obtains answer where "\<And>h w ctx. m endpoint meth endpoint h w ctx = (ctx, None, answer w, [])"
    and "\<And>w. sent w = None \<Longrightarrow> \<exists>hdr. sent (answer w) = Some (200, hdr)"
  using assms(1)[unfolded heartbeat_contract_def, THEN conjunct1, rule_format, OF assms(2)] that by blast

lemma heartbeat_passes:
  assumes "heartbeat_contract endpoint m"
    and "meth \<notin> {''GET'', ''HEAD''} \<or> asciiLower path \<noteq> asciiLower endpoint"
  shows "m endpoint meth path h = h"
  by (rule assms(1)[unfolded heartbeat_contract_def, THEN conjunct2, rule_format, OF assms(2)])

text \<open>
  C13: a heartbeat, a GET or HEAD request for the heartbeat path, is answered with 200 before the router and
  leaves no record. Every other request of the gateway is answered, also when its handler panics, which
  becomes the status 500; a path without a route gets 404, and the answer of the handler is passed on
  unchanged. It leaves at most one record in the access log, and exactly one unless its method is
  OPTIONS, which the logger treats as too unimportant; when the answer is an error of the gateway its
  attributes have the status and the address of the request.
\<close>

theorem gateway_requests_logged:
  fixes ctx :: HttpCtx and w :: "'p Writer" and conf cfg ord render
  assumes "stack_order stack" and "http_contract newSpan libs" and "heartbeat_contract HeartbeatEndpoint (hlHeartbeat libs)"
    and "sent w = None" and "writeErr w = None" and "gw_inv h" and "gw_calm env" and "runsRouter matches env r h hnd"
  defines "run \<equiv> stack (fst (snd (createHttpHandler libs render ord cfg (gatewayOpts conf))) r) hnd w ctx"
  shows "(hrMethod r \<in> {''GET'', ''HEAD''} \<and> hrPath r = HeartbeatEndpoint \<longrightarrow>
      (\<exists>w' hdr. run = (ctx, None, w', []) \<and> sent w' = Some (200, hdr))) \<and>
    (hrMethod r \<notin> {''GET'', ''HEAD''} \<or> asciiLower (hrPath r) \<noteq> asciiLower HeartbeatEndpoint \<longrightarrow>
      (\<exists>ctx2 w' logged attrs. run = (ctx2, None, w', accessLog logged (httpLogger ord (gatewayOpts conf)) attrs) \<and>
        (hrMethod r \<noteq> ''OPTIONS'' \<longrightarrow> logged) \<and> loggedAs (hrURI r) w (gatewayVerdict matches env r h) w' attrs))"
proof (intro conjI impI)
  let ?beat = "hlHeartbeat libs HeartbeatEndpoint (hrMethod r) (hrPath r)"
  assume "hrMethod r \<in> {''GET'', ''HEAD''} \<and> hrPath r = HeartbeatEndpoint"
  then have beat: "hrMethod r \<in> {''GET'', ''HEAD''}" and path: "hrPath r = HeartbeatEndpoint" by blast+
  obtain answer where "\<And>h w ctx. ?beat h w ctx = (ctx, None, answer w, [])"
      and s: "\<And>w. sent w = None \<Longrightarrow> \<exists>hdr. sent (answer w) = Some (200, hdr)"
    using heartbeat_answers[OF assms(3) beat] unfolding path by metis
  then have "run = (ctx, None, answer w, [])"
    unfolding run_def createHttpHandler_def fst_conv snd_conv stack_orderD(2)[OF assms(1), of ?beat] by blast
  with s[OF assms(4)] show "\<exists>w' hdr. run = (ctx, None, w', []) \<and> sent w' = Some (200, hdr)" by blast
next
  let ?inner = "ctx\<lparr>span := Some (newSpan ctx), apiErrorSlot := Holder None, gatewayFunctionRequestSlot := Holder None\<rparr>"
  assume "hrMethod r \<notin> {''GET'', ''HEAD''} \<or> asciiLower (hrPath r) \<noteq> asciiLower HeartbeatEndpoint"
  note beat = heartbeat_passes[OF assms(3) this]
  obtain c pn w' where k: "hnd w ?inner = (c, pn, w', [])" and pn: "pn \<noteq> Some AbortHandler"
      and l: "loggedAs (hrURI r) w (gatewayVerdict matches env r h) (recovered pn w') (logExtraAttrs render c)"
    using router_handler_logged[OF assms(6,7,4,5,8), of ?inner None render] by auto
  from gateway_stack[where h = hnd and w = w and ctx = ctx and r = r, OF assms(1,2) k pn beat, of render ord cfg conf] l
  show "\<exists>ctx2 w' logged attrs. run = (ctx2, None, w', accessLog logged (httpLogger ord (gatewayOpts conf)) attrs) \<and>
      (hrMethod r \<noteq> ''OPTIONS'' \<longrightarrow> logged) \<and> loggedAs (hrURI r) w (gatewayVerdict matches env r h) w' attrs"
    unfolding run_def append_Nil by blast
qed

definition exampleStack :: "'p HttpMw list \<Rightarrow> 'p HttpMw" where
  "exampleStack ms h = foldr (\<lambda>m k. m k) ms h"

lemma exampleStack_order: "stack_order exampleStack"
  by (simp add: stack_order_def exampleStack_def)

definition exampleHttpLibs :: "unit HttpLibs" where
  "exampleHttpLibs =
     \<lparr>hlHeartbeat = (\<lambda>endpoint meth path h w ctx.
        if meth \<in> {''GET'', ''HEAD''} \<and> asciiLower path = asciiLower endpoint
        then (ctx, None, fst (writeChunk (RawChunk (map of_char ''.'')) (WriteHeader 200 (headerSet ''Content-Type'' ''text/plain'' w))), [])
        else h w ctx),
      hlOtelchi = (\<lambda>name h w ctx. let (c, r) = h w (ctx\<lparr>span := Some (''t'', ''s'')\<rparr>) in (c\<lparr>span := span ctx\<rparr>, r)),
      hlRequestLogger = (\<lambda>l opts extra meth h w ctx. let (c, pn, w', ev) = h w ctx
        in (c, pn, w', ev @ (if meth = ''OPTIONS'' then [] else [AccessLog l (extra c)]))),
      hlRecoverer = (\<lambda>h w ctx. case h w ctx of
         (c, Some (PanicValue p), w', ev) \<Rightarrow> (c, None, WriteHeader 500 w', ev) | r \<Rightarrow> r),
      hlRequestDurationMillis = (\<lambda>_. id), hlRequestInFlight = (\<lambda>_. id), hlResponseSizeBytes = (\<lambda>_. id)\<rparr>"

lemma exampleHttpLibs_contract: "http_contract (\<lambda>_. (''t'', ''s'')) exampleHttpLibs"
proof -
  have "logs_request (hlRequestLogger exampleHttpLibs)"
    unfolding logs_request_def
  proof (intro allI impI)
    fix l opts extra meth ctx c w' ev and w :: "unit Writer" and h :: "unit HttpHandler"
    assume "h w ctx = (c, None, w', ev)"
    then show "\<exists>logged. hlRequestLogger exampleHttpLibs l opts extra meth h w ctx = (c, None, w', ev @ accessLog logged l (extra c)) \<and>
        (meth \<noteq> ''OPTIONS'' \<and> hpLevel opts \<le> LevelInfo \<and> hoLevel (lgOptions l) \<le> LevelInfo \<longrightarrow> logged)"
      by (intro exI[of _ "meth \<noteq> ''OPTIONS''"]) (simp add: exampleHttpLibs_def)
  qed
  then show ?thesis by (simp add: http_contract_def exampleHttpLibs_def starts_span_def recovers_def)
qed

lemma exampleHttpLibs_heartbeat: "heartbeat_contract HeartbeatEndpoint (hlHeartbeat exampleHttpLibs)"
  unfolding heartbeat_contract_def
proof (intro conjI allI impI)
  fix meth :: string
  assume "meth \<in> {''GET'', ''HEAD''}"
  then show "\<exists>answer. \<forall>h w ctx. hlHeartbeat exampleHttpLibs HeartbeatEndpoint meth HeartbeatEndpoint h w ctx = (ctx, None, answer w, []) \<and>
      (sent w = None \<longrightarrow> (\<exists>hdr. sent (answer w) = Some (200, hdr)))"
    by (intro exI[of _ "\<lambda>w. fst (writeChunk (RawChunk (map of_char ''.'')) (WriteHeader 200 (headerSet ''Content-Type'' ''text/plain'' w)))"])
      (auto simp: exampleHttpLibs_def writeChunk_def WriteHeader_def headerSet_def Let_def split: option.splits)
next
  fix meth path :: string and h :: "unit HttpHandler"
  assume "meth \<notin> {''GET'', ''HEAD''} \<or> asciiLower path \<noteq> asciiLower HeartbeatEndpoint"
  then show "hlHeartbeat exampleHttpLibs HeartbeatEndpoint meth path h = h"
    by (auto simp: exampleHttpLibs_def)
qed

definition exampleHandler :: "HttpRequest \<Rightarrow> unit HttpHandler" where
  "exampleHandler r w ctx =
     (case gatewayRouter example_matches example_gateway_env r (ctx, w) emptyGateway of
        Returns ((c, w'), h') \<Rightarrow> (c, None, w', [])
      | Panics msg \<Rightarrow> (ctx, Some (PanicValue msg), w, []))"

lemma exampleHandler_runs: "runsRouter example_matches example_gateway_env r emptyGateway (exampleHandler r)"
  by (simp add: runsRouter_def exampleHandler_def split: outcome.splits prod.splits)

theorem gateway_requests_logged_witness:
  "\<exists>ctx2 w2 hdr attrs. exampleStack (fst (snd (createHttpHandler exampleHttpLibs (\<lambda>_. []) sorted_list_of_fset [] (gatewayOpts exampleGateway)))
       \<lparr>hrMethod = ''GET'', hrPath = ''/'', hrURI = ''/'', hrFunctionId = [], hrHeader = fmempty, hrBody = ([], None)\<rparr>)
     (exampleHandler \<lparr>hrMethod = ''GET'', hrPath = ''/'', hrURI = ''/'', hrFunctionId = [], hrHeader = fmempty, hrBody = ([], None)\<rparr>)
     (newWriter None) emptyCtx =
     (ctx2, None, w2, [AccessLog (httpLogger sorted_list_of_fset (gatewayOpts exampleGateway)) attrs]) \<and> sent w2 = Some (404, hdr)"
proof -
  let ?r = "\<lparr>hrMethod = ''GET'', hrPath = ''/'', hrURI = ''/'', hrFunctionId = [], hrHeader = fmempty, hrBody = ([], None)\<rparr>"
  have w: "sent (newWriter None :: unit Writer) = None" "writeErr (newWriter None :: unit Writer) = None"
    by (simp_all add: newWriter_def)
  have "example_matches ''/'' = None" by code_simp
  then have v: "gatewayVerdict example_matches example_gateway_env ?r emptyGateway = NoRoute" by (simp add: gatewayVerdict_def)
  have p: "asciiLower (hrPath ?r) \<noteq> asciiLower HeartbeatEndpoint" by code_simp
  from gateway_requests_logged[OF exampleStack_order exampleHttpLibs_contract exampleHttpLibs_heartbeat w
      example_gateway_ok(2,1) exampleHandler_runs, of ?r "\<lambda>_. []" sorted_list_of_fset "[]" exampleGateway emptyCtx]
  show ?thesis using p v by (fastforce simp: loggedAs_def)
qed

text \<open>The same stack around the handlers of the commander, with its two holders.\<close>

lemma commander_stack:
  assumes "stack_order stack" and "http_contract newSpan libs"
    and h: "h w (ctx\<lparr>span := Some (newSpan ctx), apiErrorSlot := Holder None, createFunctionSlot := Holder None,
      downloadFunctionBinarySlot := Holder None\<rparr>) = (c, pn, w', ev)"
    and "pn \<noteq> Some AbortHandler"
  shows "\<exists>logged. (meth \<noteq> ''OPTIONS'' \<longrightarrow> logged) \<and>
    stack (hsMiddlewares (commanderHttpServerOf libs render ord cfg (commanderOpts conf) conf) meth) h w ctx =
    (c\<lparr>downloadFunctionBinarySlot := downloadFunctionBinarySlot ctx, createFunctionSlot := createFunctionSlot ctx,
       apiErrorSlot := apiErrorSlot ctx, span := span ctx\<rparr>,
     None, recovered pn w', ev @ accessLog logged (httpLogger ord (commanderOpts conf)) (logExtraAttrs render c))"
proof -
  let ?mws = "[holderMiddleware WithCreateFunctionMetaHolder, holderMiddleware WithDownloadFunctionBinaryMetaHolder]"
  let ?enter = "\<lambda>ctx. ctx\<lparr>createFunctionSlot := Holder None, downloadFunctionBinarySlot := Holder None\<rparr>"
  let ?leave = "\<lambda>ctx c. c\<lparr>downloadFunctionBinarySlot := downloadFunctionBinarySlot ctx, createFunctionSlot := createFunctionSlot ctx\<rparr>"
  have hold: "stack (?mws @ ms) h w ctx =
      (?leave ctx (fst (stack ms h w (?enter ctx))), snd (stack ms h w (?enter ctx)))" for ms ctx
    by (simp add: stack_orderD(2)[OF assms(1)] holderMiddleware_def createFunctionHolder.runs_next
        downloadFunctionBinaryHolder.runs_next)
  have "moLevel (commanderOpts conf) \<le> 0" by (simp add: commanderOpts_def)
  from http_stack[where h = h and w = w and ctx = ctx and mws = ?mws and enter = ?enter and leave = ?leave and meth = meth and cfg = cfg,
      OF assms(1,2) this hold _ assms(4)] h
  show ?thesis by (simp add: commanderHttpServerOf_def createMiddleware_def)
qed
end
