(* ===== verification/Spec2Isabelle.thy ===== *)
theory Spec2Isabelle
  imports Prelude GoStd ServerContext ServerHttp Files FuncStorage Caching Routing CommanderDB
    CommanderService CommanderCorrect CommanderHandlers RunnerInstances RunnerFlights RunnerRuntime
    RunnerServer RunnerWorker Guest Gateway TesterRequests TesterWorker TesterSetup TesterModel
    TesterView Monitoring Telemetry Processes
begin

text \<open>
  Servermore runs functions as a service. A developer uploads a binary to the \<^emph>\<open>commander\<close>; a client sends
  requests to the \<^emph>\<open>gateway\<close>, which asks the commander where the function runs and forwards the request
  to an instance on a \<^emph>\<open>runner\<close>; the runner downloads the binary, starts it as a process that is linked
  with the \<^emph>\<open>guest\<close> SDK, and feeds it the requests one after the other. The commander polls the runners
  for heartbeats and routes with what they report. All four are Go programs under \<open>src/pkg\<close>. A terminal
  program, \<open>src/servermore-tester\<close>, starts the whole system locally, deploys functions and sends requests.

  \<^bold>\<open>Theories and sources.\<close>
  \<^item> \<open>Prelude\<close>, \<open>GoStd\<close>: errors as values, panics as \<open>outcome\<close>, maps with an unspecified iteration order
    (\<open>iterorder\<close>), 64 bit integers as words; \<open>strings\<close>, \<open>path/filepath\<close>, \<open>strconv\<close> and \<open>time.Duration\<close>
    as far as the program uses them.
  \<^item> \<open>Files\<close> (\<open>server/files.go\<close> and the calls of \<open>os\<close>): a file system with a script of faults, one for
    each call. \<open>FuncStorage\<close> (\<open>commander/func_storage.go\<close>): names and paths of stored binaries.
  \<^item> \<open>ServerContext\<close> (\<open>server/http_context.go\<close>, \<open>grpc_context.go\<close>): the metas of a request, their holders
    in the context, and the attributes that loggers read. \<open>ServerHttp\<close> (\<open>server/error.go\<close>, \<open>encode.go\<close>,
    \<open>decode.go\<close>, \<open>utils.go\<close>, \<open>assert/assert.go\<close>): error bodies, JSON encoding and decoding over a response writer.
  \<^item> \<open>Caching\<close> (\<open>caching/\<close>): the routing cache. Each operation holds the lock of the cache, so operations
    are functions on its state and a run is a list of operations. \<open>Routing\<close> (\<open>routing/\<close>): the choice of an
    instance or of a runner.
  \<^item> \<open>CommanderDB\<close> (\<open>commander/db.go\<close>, \<open>queries.sql\<close>): tables, statements and the retry loop, with a script
    of database errors. \<open>CommanderService\<close> (\<open>commander/service.go\<close>, \<open>grpc.go\<close>): the service over the
    contracts of database, cache, router and storage, stated as locales; \<open>CommanderCorrect\<close>: its
    properties for the program's own components. \<open>CommanderHandlers\<close> (\<open>commander/handlers.go\<close> and the
    polling loop of \<open>run.go\<close>).
  \<^item> \<open>RunnerInstances\<close> (\<open>runner/instances.go\<close>): results with many consumers, downloads in flight, instances
    with queues and timers. \<open>RunnerFlights\<close>: the contract \<open>single_flight\<close> that downloads and starts share, with
    each access to the shared map and to the result of a flight as a step of its own.
    \<open>RunnerRuntime\<close> (\<open>runner/runtime.go\<close>): the process and the connection of an instance.
    \<open>RunnerServer\<close> (\<open>runner/grpc.go\<close>: preparing and downloading). \<open>RunnerWorker\<close> (\<open>runner/grpc.go\<close>:
    invoking): handlers, workers and the shutdown of an instance as interleaved steps.
  \<^item> \<open>Guest\<close> (\<open>guest/entrypoint.go\<close>) and \<open>Gateway\<close> (\<open>gateway/handler.go\<close>, and the route of \<open>run.go\<close>): the handler
    and the router around it; the cache of connections, also as interleaved steps.
  \<^item> \<open>Monitoring\<close> (\<open>server/monitoring.go\<close>, \<open>server/middleware.go\<close>, the gRPC clients): loggers, interceptors and
    middlewares around handlers that return what they caused; the contract \<open>context_holder\<close> of everything that puts
    a holder into the context. \<open>Telemetry\<close> (\<open>InitOTEL\<close>, \<open>commander/metrics.go\<close>, \<open>runner/metrics.go\<close>,
    \<open>runner/system_metrics.go\<close>): providers, instruments and their callbacks. \<open>Processes\<close> (\<open>server/config.go\<close>, the
    \<open>Run\<close> functions in \<open>commander/run.go\<close>, \<open>runner/run.go\<close>, \<open>gateway/run.go\<close>, opening the database in
    \<open>commander/db.go\<close>, and \<open>cmd\<close>): each process from its configuration to its exit code, with the list of what it
    acquires and releases.
  \<^item> \<open>TesterRequests\<close>, \<open>TesterWorker\<close>, \<open>TesterSetup\<close>, \<open>TesterModel\<close>, \<open>TesterView\<close> (\<open>servermore-tester\<close>): the requests and
    the deployment of a function; the loop that sends them, as steps that interleave with the user and
    with returning requests; the docker commands over a shell; the state machine of the terminal program; what
    it shows.
  \<^item> This theory composes them: an uploaded binary arrives on a runner, a request goes from the client
    through gateway, runner and guest to the function and back, and the requests of the load tester arrive.

  \<^bold>\<open>How effects are modelled.\<close> A Go error is a value of \<open>goerr\<close> and a fallible result a sum. A panic ends
  the goroutine or the process and is a value (\<open>Panics\<close>, \<open>PanicWith\<close>, \<open>crash\<close>); an operation that would block
  is \<open>Blocked\<close> or has no step. Answers of other programs and of the operating system (the runners a
  commander calls, the commander a runner calls, process starts, SHA-256, UUIDs, measured times) are
  parameters: functions, scripts of answers, or labels of steps; what other goroutines do while one of
  them waits is a parameter as well (\<open>between\<close>, \<open>duringDownload\<close>, \<open>duringStart\<close>) with a contract that the
  operations of the model are shown to keep. The operations of the commander's service run one after the
  other; only the goroutines of a heartbeat round are permuted. Handlers do not depend on logs and metrics, which are therefore
  left out of them and modelled around them, in \<open>Monitoring\<close> and \<open>Telemetry\<close>.

  \<^bold>\<open>What is shown.\<close> The cache refines an abstract relation of instances for every run and every iteration
  order; the router picks below the threshold and least loaded; after a heartbeat round the cache
  has of a runner exactly the instances and queue lengths the runner has, in every schedule of the
  poller's goroutines; uploads keep files and rows in step and never
  leave the storage directory; a heartbeat round leaves exactly the registered runners that answered
  available; a download on a runner is atomic and happens once; every flight answers all that join it,
  also those that subscribe after its result is there, in every interleaving; an instance has at most one
  worker, which serves the queue in order, and every request of an undisturbed instance with room in its
  queue is answered; a request that has joined a worker whose idle timeout then fires ends the runner, or
  stays unanswered by all that is under way at that time (\<open>idle_timeout_races\<close>); a request reaches the function of the author through the queue that the handler
  filled; error paths have the documented status codes. The gateway gives each request exactly the answer
  its case asks for and never opens a second connection to a runner, in every interleaving. Monitoring
  changes neither answers nor effects of a handler; a panic of an HTTP handler becomes a 500, heartbeats are
  answered without a record and every other request of the gateway leaves one, \<open>OPTIONS\<close> requests at
  most one. For all three servers it is shown when they exit with code 0 and exactly what each way out
  leaves open: a closer that fails has closed nothing, and a runner leaves the processes of its guests and
  its connections to them. The load tester counts its requests
  correctly, sends batches of the configured size, stops exactly when its settings let it sleep, never
  panics, neither in a step nor in a view, and reaches its dashboard when the commands it runs succeed; an
  answer that comes while its form is open is lost (\<open>early_answer_lost\<close>).

  \<^bold>\<open>Bounds.\<close> Recursion is structural or has a measure, except that loops with an external bound get it as
  an argument: \<open>WithRetry\<close> runs at most twenty attempts, the wait for the first heartbeat of a process at
  most the attempts its deadline allows, \<open>startWithRetry\<close> nine retries, all as in the code. The polling loop and
  the workers, which do not end, are lists of rounds and step relations. \<open>settle\<close>, which runs the commands of the
  terminal program, has fuel; four rounds are enough when the commands succeed, and more do no harm.

  \<^bold>\<open>Not modelled.\<close> What libraries do behind the calls of the sources: HTTP and gRPC transport, OpenTelemetry,
  YAML, SQLite below the level of statements, docker, the terminal library. They are parameters, with
  named hypotheses where something is relied on. The code that is generated from the protocol and API descriptions
  (clients, servers, message types) is not part of the sources. Rounding of durations to floating point
  seconds in the histograms, and the texts of log messages, are left out.
\<close>

section \<open>From the upload to the runner\<close>

text \<open>What a client of \<open>net/http\<close> reads when the handler has returned: the code and the headers that were
  sent, and the bytes of the body.\<close>

fun rawBytes :: "'p Chunk \<Rightarrow> bytes" where
  "rawBytes (RawChunk bs) = bs"
| "rawBytes _ = []"

definition wireResponse :: "'p Writer \<Rightarrow> DownloadResponse" where
  "wireResponse w =
     (case sent w of
        None \<Rightarrow> \<lparr>StatusCode = 200, respHeader = header w, respBody = ([], None)\<rparr>
      | Some (code, hdr) \<Rightarrow> \<lparr>StatusCode = code, respHeader = hdr, respBody = (concat (map rawBytes (body w)), None)\<rparr>)"

text \<open>
  C2: What is uploaded is what runs. When an upload has succeeded and nothing fails afterwards, a runner
  that downloads the function from the commander ends with exactly the uploaded bytes in a file, and at
  the path where \<open>PrepareFunctionInstance\<close> looks for the path that the commander sends it: the two
  programs agree on the place although each computes it on its own.
\<close>

theorem upload_reaches_runner:
  assumes "iter_order ord" and "sleep_ok sleep" and "db_inv (dbS st)" and "cache_inv (cacheS st)"
    and "\<And>b. length (sha256 b) = 32" and "storage_inv sha256 (storageRoot s) (fsS st) (funsOf (dbS st))"
    and "svcCreateFunction sha256 (programService ord sleep n s) name (Inr bs) ctx st = Returns (ctx', st', Inr a)"
    and "dbFaults (dbS st') = []" and "faults (fsS st') = []" and "- (2 ^ 63) \<le> apiId a" and "apiId a < 2 ^ 63"
    and "i = strconv_FormatInt (apiId a)"
    and "client env i = Inr (wireResponse (snd (fst
      (httpDownloadFunctionBinary (programService ord sleep n s) uri i (hctx, newWriter None :: 'p Writer) st'))))"
    and "\<forall>r \<in> set (rands env). slash \<notin> set r"
    and "downloadFunction env root i dctx fs = Done (dctx', fs', path, m, took, None)"
  shows "\<exists>g \<in> funsOf (dbS st'). ID g = apiId a \<and> path = pathOnRunner root (Path g) \<and> m = length bs \<and>
    fmlookup (nodes fs') path = Some (File bs)"
proof -
  obtain g where up: "db_inv (dbS st')" "g \<in> funsOf (dbS st')" "ID g = apiId a"
    "stored sha256 (storageRoot s) (fsS st') g bs"
    using upload_stores_binary_spec[OF assms(1-7)] by auto
  let ?name = "functionFilename (Name g) (Hash g)"
  obtain hctx' w' hdr where dl: "httpDownloadFunctionBinary (programService ord sleep n s) uri i (hctx, newWriter None :: 'p Writer) st' =
      ((hctx', w'), st')" "sent w' = Some (200, hdr)" "body w' = [RawChunk bs]"
    "fmlookup hdr DownloadHeaderFunctionPath = Some (filepath_Clean (storageRoot s))"
    "fmlookup hdr DownloadHeaderFunctionFilename = Some ?name"
    using download_serves_stored_binary[OF up(1) assms(8,9) up(2,4), where x = "(hctx, newWriter None :: 'p Writer)"
        and uri = uri and ord = ord and sleep = sleep and n = n] up(3) assms(10-12)
    by (auto simp: newWriter_def)
  let ?resp = "wireResponse w'"
  have resp: "client env i = Inr ?resp" "respBody ?resp = (bs, None)"
    "headerGet (respHeader ?resp) DownloadHeaderFunctionPath = filepath_Clean (storageRoot s)"
    "?name = headerGet (respHeader ?resp) DownloadHeaderFunctionFilename"
    using assms(13) dl by (simp_all add: wireResponse_def headerGet_def)
  have p: "pathOnRunner root (Path g) = pathOnRunner root
      (filepath_Join [headerGet (respHeader ?resp) DownloadHeaderFunctionPath, ?name])"
    using up(4) Join_Clean[OF functionFilename_plain] by (simp add: stored_def resp(3))
  show ?thesis
    using download_atomic_spec[OF assms(15) resp(1,4) functionFilename_plain assms(14) p] resp(2) up(2,3) by auto
qed

definition commanderAnswer :: "(Tables, InMemoryCache) CommanderState \<Rightarrow> string \<Rightarrow> DownloadResponse res" where
  "commanderAnswer st i =
     Inr (wireResponse (snd (fst (httpDownloadFunctionBinary example_svc ''/'' i (emptyCtx, newWriter None :: unit Writer) st))))"

lemma example_transfer:
  "case svcCreateFunction example_sha example_svc ''f.sh'' (Inr [1, 2, 3])
      (SetCreateFunctionMeta \<lparr>cfFunctionName = [], cfFunctionID = 0, cfFunctionBytes = 0, cfFunctionHash = [],
        cfFunctionPath = [], cfFunctionAlreadyExists = False\<rparr> example_ctx) upload_state of
     Returns (_, st', res) \<Rightarrow> res = Inr \<lparr>apiId = 1, apiName = ''f.sh''\<rparr> \<and> dbFaults (dbS st') = [] \<and> faults (fsS st') = [] \<and>
       (case downloadFunction (example_prepare_env\<lparr>client := commanderAnswer st'\<rparr>) ''/run'' ''1'' example_download_ctx empty_disk of
          Done (_, _, _, _, _, err) \<Rightarrow> err = None | _ \<Rightarrow> False)
   | Panics _ \<Rightarrow> False"
  by code_simp

theorem upload_reaches_runner_witness:
  "\<exists>st' g fs' dctx' took. g \<in> funsOf (dbS st') \<and> ID g = 1 \<and>
     downloadFunction (example_prepare_env\<lparr>client := commanderAnswer st'\<rparr>) ''/run'' ''1'' example_download_ctx empty_disk =
       Done (dctx', fs', pathOnRunner ''/run'' (Path g), 3, took, None) \<and>
     fmlookup (nodes fs') (pathOnRunner ''/run'' (Path g)) = Some (File [1, 2, 3])"
proof -
  obtain ctx' st' where u: "svcCreateFunction example_sha example_svc ''f.sh'' (Inr [1, 2, 3])
      (SetCreateFunctionMeta \<lparr>cfFunctionName = [], cfFunctionID = 0, cfFunctionBytes = 0, cfFunctionHash = [],
        cfFunctionPath = [], cfFunctionAlreadyExists = False\<rparr> example_ctx) upload_state =
      Returns (ctx', st', Inr \<lparr>apiId = 1, apiName = ''f.sh''\<rparr>)" "dbFaults (dbS st') = []" "faults (fsS st') = []"
    "case downloadFunction (example_prepare_env\<lparr>client := commanderAnswer st'\<rparr>) ''/run'' ''1'' example_download_ctx empty_disk of
       Done (_, _, _, _, _, err) \<Rightarrow> err = None | _ \<Rightarrow> False"
    using example_transfer by (auto split: outcome.splits prod.splits)
  obtain dctx' fs' path m took where d: "downloadFunction (example_prepare_env\<lparr>client := commanderAnswer st'\<rparr>) ''/run'' ''1''
      example_download_ctx empty_disk = Done (dctx', fs', path, m, took, None)"
    using u(4) by (auto split: effect.splits prod.splits)
  have len: "length (example_sha b) = 32" for b by (simp add: example_sha_def)
  have i: "''1'' = strconv_FormatInt (apiId \<lparr>apiId = 1, apiName = ''f.sh''\<rparr>)" by code_simp
  have id: "- (2 ^ 63) \<le> apiId \<lparr>apiId = 1, apiName = ''f.sh''\<rparr>" "apiId \<lparr>apiId = 1, apiName = ''f.sh''\<rparr> < 2 ^ 63" by simp_all
  have c: "client (example_prepare_env\<lparr>client := commanderAnswer st'\<rparr>) ''1'' = Inr (wireResponse (snd (fst
      (httpDownloadFunctionBinary example_svc ''/'' ''1'' (emptyCtx, newWriter None :: unit Writer) st'))))"
    by (simp add: commanderAnswer_def)
  have r: "\<forall>r \<in> set (rands (example_prepare_env\<lparr>client := commanderAnswer st'\<rparr>)). slash \<notin> set r"
    by (simp add: example_prepare_env_def slash_def)
  from upload_reaches_runner[OF iter_order_sorted sleep_ok_neverDone upload_state_inv(1,2) len
      upload_state_inv(3) u(1)[unfolded example_svc_def] u(2,3) id i c[unfolded example_svc_def] r d] d
  show ?thesis by (auto simp: numeral_3_eq_3) blast
qed

section \<open>From the runner to the cache of the commander\<close>

text \<open>
  C4: The commander sees the runners as they are. After a heartbeat round, in whichever order its
  goroutines ran, the instances that the cache resolves to a registered runner are exactly those the
  runner has and whose timer leaves them the grace period, each with the true length of its queue, and
  the runner's metrics are those it collected. Whatever the cache knew about the runner before is gone.
  The answer is computed by the runner's own handler, the cache by the commander's polling.
\<close>

theorem heartbeat_mirrors_runner:
  assumes "iter_order ord" and "sleep_ok sleep" and "db_inv (dbS st)" and "cache_inv (cacheS st)"
    and "\<And>r. r \<in> runnsOf (dbS st) \<Longrightarrow> Addr r \<noteq> ''''" and "\<And>rs. mset (sched rs) = mset rs"
    and "own_reports net (Addr ` runnsOf (dbS st)) (abs_cache (cacheS st))"
    and "PollRunnerHeartbeats sched (programService ord sleep n s) net st = (st', None)"
    and "addr \<in> Addr ` runnsOf (dbS st)" and "CommanderService.CreateRunnerClient net addr = None"
    and "callHeartbeat net addr = map_sum id Some (runnerHeartbeat now (Inr (cpu, mem)) rnr)"
    and "queues_bounded (instances rnr)"
  shows "(RunnerAddressOfInstance i (cacheS st') = Inr addr \<longleftrightarrow>
      (\<exists>x. fmlookup (instanceStates (instances rnr)) i = Some x \<and> instanceGracePeriod rnr \<le> lastUsedTimerEnd x - now)) \<and>
    (\<forall>x. fmlookup (instanceStates (instances rnr)) i = Some x \<and> instanceGracePeriod rnr \<le> lastUsedTimerEnd x - now \<longrightarrow>
      (\<exists>q. fmlookup (instanceQueue (cacheS st')) i = Some q \<and> unat q = length (queue x))) \<and>
    fmlookup (runnerStats (cacheS st')) addr = Some \<lparr>CpuPercent = cpu, UnusedMemoryBytes = mem\<rparr>"
proof -
  let ?depths = "RunnerInstances.QueueDepths now (instanceGracePeriod rnr) (instances rnr)"
  note R = heartbeat_round_reported[OF assms(1-9)]
  have ans: "answered net addr = Some \<lparr>HeartbeatResponse.QueueDepths = ?depths, hbCpuPercent = cpu, hbUnusedMemoryBytes = mem\<rparr>"
    using assms(10,11) by (simp add: answered_def runnerHeartbeat_def)
  then have rep: "reportOf net addr i = fmlookup ?depths i" by (simp add: reportOf_def)
  note E = QueueDepths_exact[OF assms(12), of now "instanceGracePeriod rnr" i]
  have "\<exists>q. fmlookup (instanceQueue (cacheS st')) i = Some q \<and> unat q = length (queue x)"
    if x: "fmlookup (instanceStates (instances rnr)) i = Some x" "instanceGracePeriod rnr \<le> lastUsedTimerEnd x - now" for x
  proof -
    obtain d where d: "fmlookup ?depths i = Some d" "unat d = length (queue x)" using E x by auto
    then have "fmlookup (instanceQueue (cacheS st')) i = Some (ucast d)" using R(2) rep by simp
    moreover have "unat (ucast d :: goint) = unat d"
      by (simp add: unsigned_ucast_eq take_bit_nat_eq_self order_less_trans[OF unsigned_less])
    ultimately show ?thesis using d(2) by simp
  qed
  moreover have "RunnerAddressOfInstance i (cacheS st') = Inr addr \<longleftrightarrow>
      (\<exists>x. fmlookup (instanceStates (instances rnr)) i = Some x \<and> instanceGracePeriod rnr \<le> lastUsedTimerEnd x - now)"
    using R(1)[of i] E rep by simp
  ultimately show ?thesis using R(3) ans by (simp add: metricsOf_def)
qed

text \<open>The runner \<open>r1\<close> has started one instance; the cache had \<open>a\<close> there, which is gone after the round.\<close>

definition mirrored_runner :: "unit runnerGrpcServer" where
  "mirrored_runner = RunnerServer.example_runner
     \<lparr>instances := fst (Submit 0 ''/f'' ''i1'' 60 DetermineFuncRuntime NewInstanceStates)\<rparr>"

definition mirrored_net :: RunnerNet where
  "mirrored_net = example_net
     \<lparr>callHeartbeat := (\<lambda>a. if a = ''r1'' then map_sum id Some (runnerHeartbeat 1 (Inr (0, 7)) mirrored_runner)
        else Inl (ErrExternal ''unreachable''))\<rparr>"

lemma mirrored_poll: "snd (PollRunnerHeartbeats rev example_svc mirrored_net example_state) = None"
  by code_simp

lemmas mirrored_simps = mirrored_runner_def RunnerServer.example_runner_def Submit_def RemoveStartingInstance_def
  NewInstanceStates_def Let_def

lemma mirrored_own:
  "own_reports mirrored_net (Addr ` runnsOf (dbS example_state)) (abs_cache (cacheS example_state))"
proof -
  have "absRunnerOf (abs_cache (cacheS example_state)) ''i1'' = None" by code_simp
  then show ?thesis
    by (auto simp: own_reports_def reportOf_def answered_def mirrored_net_def example_net_def runnerHeartbeat_def
        mirrored_simps RunnerInstances.QueueDepths_def split: if_splits option.splits)
qed

theorem heartbeat_mirrors_runner_witness:
  "RunnerAddressOfInstance ''i1'' (cacheS (fst (PollRunnerHeartbeats rev example_svc mirrored_net example_state))) =
     Inr ''r1'' \<and>
   RunnerAddressOfInstance ''a'' (cacheS (fst (PollRunnerHeartbeats rev example_svc mirrored_net example_state))) \<noteq>
     Inr ''r1''"
proof -
  have p: "PollRunnerHeartbeats rev example_svc mirrored_net example_state =
      (fst (PollRunnerHeartbeats rev example_svc mirrored_net example_state), None)"
    using mirrored_poll by (metis prod.collapse)
  have m: "''r1'' \<in> Addr ` runnsOf (dbS example_state)"
    by (simp add: example_state_def example_tables_def runnsOf_def)
  have c: "CommanderService.CreateRunnerClient mirrored_net ''r1'' = None"
    "callHeartbeat mirrored_net ''r1'' = map_sum id Some (runnerHeartbeat 1 (Inr (0, 7)) mirrored_runner)"
    by (simp_all add: mirrored_net_def example_net_def)
  have b: "queues_bounded (instances mirrored_runner)"
    by (simp add: queues_bounded_def mirrored_simps)
  note M = heartbeat_mirrors_runner[where sched = rev, OF iter_order_sorted sleep_ok_neverDone example_invs
      example_addrs mset_rev mirrored_own p[unfolded example_svc_def] m c b, folded example_svc_def]
  show ?thesis using M[of "''i1''"] M[of "''a''"] by (simp add: mirrored_simps)
qed

section \<open>From the client to the function and back\<close>

text \<open>A runner as the gateway calls it: the handler puts the request into the queue of the instance, and what
  arrives on its channel is what the worker sends there when it serves the queue as the handler left it.
  The guest is asked for nothing but what is in that queue. A panic or a handler that does not return is
  seen as an unavailable runner.\<close>

definition callRunner ::
  "(string \<Rightarrow> string res) \<Rightarrow> FunctionHandler \<Rightarrow> int \<Rightarrow> nat \<Rightarrow> (invocation, 'rt) InstancesStates \<Rightarrow>
   InvokeInstanceRequest \<Rightarrow> InvokeInstanceResponse res" where
  "callRunner parse f now ch is req =
     (let guest = (\<lambda>g. snd (InvokeFunction f 0 (Some g) (emptyCtx :: unit Ctx)));
          await = (\<lambda>inst. map_of (serveQueue 0 0 guest (queue inst)) ch)
      in case InvokeFunctionInstance parse now 0 ch await req (emptyCtx :: unit Ctx) is of
           Done (_, _, _, _, Some err) \<Rightarrow> Inl (ErrStatus ''Unknown'' (ErrText err))
         | Done (_, _, _, Some resp, None) \<Rightarrow> Inr resp
         | _ \<Rightarrow> Inl (ErrStatus ''Unavailable'' (Lit ''error reading from server: EOF'')))"

lemma callRunner_ok:
  assumes "parse (irInstanceId req) = Inr i" and "fmlookup (instanceStates is) i = Some inst"
    and "lastUsedTimer inst = TimerPending" and "\<not> queueClosed inst" and "length (queue inst) < InvocationsQueueMaxLen"
    and "ch \<notin> invCh ` set (queue inst)"
    and "f \<lparr>gMethod = irMethod req, gPath = irPath req, gHeaders = irHeaders req, gBody = irBody req\<rparr> = (Some resp, None)"
  shows "callRunner parse f now ch is req =
    Inr \<lparr>iiStatusCode = gStatusCode resp, iiHeaders = gRespHeaders resp, iiBody = gRespBody resp\<rparr>"
proof -
  let ?g = "\<lparr>gMethod = irMethod req, gPath = irPath req, gHeaders = irHeaders req, gBody = irBody req\<rparr>"
  have g: "snd (InvokeFunction f 0 (Some ?g) (emptyCtx :: unit Ctx)) = Inr resp"
    using assms(7) by (simp add: InvokeFunction_ok)
  show ?thesis
    using assms(1-5) g unfolding callRunner_def Let_def
    by (simp add: InvokeFunctionInstance_def InstanceState_def AddToQueue_def ResetTimer_def workerResult_def
        answerInvocation_def serveQueue_fresh[OF assms(6)] toGuestRequest_def Let_def)
qed

text \<open>
  C3: A request goes through the whole system unharmed. When the commander has routed it to an instance
  that its runner knows and can still take requests, the runner's handler puts it into the queue of the
  instance with a new channel, behind whatever waits there, and when the worker serves that queue the
  function of the author is called with the method, the rest of the path, the first value of each header
  and the body that the client sent, and the client gets the status, the headers and the body that the
  function returned.
\<close>

theorem request_end_to_end:
  assumes "gw_inv h" and "gw_calm env" and "hrFunctionId r \<noteq> []" and "hrPath r = slash # hrFunctionId r @ rest"
    and "route env (hrFunctionId r) = Inr ro" and "dialErr env (RunnerAddr ro) = None"
    and "hrBody r = (bs, None)" and "int (length bs) \<le> MaxBytes"
    and "invoke env (RunnerAddr ro) = callRunner parse f now ch is"
    and "parse (InstanceId ro) = Inr i" and "fmlookup (instanceStates is) i = Some inst"
    and "lastUsedTimer inst = TimerPending" and "\<not> queueClosed inst" and "length (queue inst) < InvocationsQueueMaxLen"
    and "ch \<notin> invCh ` set (queue inst)"
    and "f \<lparr>gMethod = hrMethod r, gPath = (if rest = [] then ''/'' else rest), gHeaders = flattenHeaders (hrHeader r),
      gBody = bs\<rparr> = (Some resp, None)"
    and "200 \<le> gStatusCode resp" and "gStatusCode resp \<le> 999"
    and "gRespBody resp = [] \<or> bodyAllowedForStatus (gStatusCode resp)"
    and "iter_order (headerOrder env)" and "inj_on canonicalHeaderKey (fset (fmdom (gRespHeaders resp)))"
  shows "\<exists>ctx' w' h' hdr. processFunctionRequest env r (ctx, newWriter None) h = Returns ((ctx', w'), h') \<and>
    sent w' = Some (gStatusCode resp, hdr) \<and> body w' = [RawChunk (gRespBody resp)] \<and>
    (\<forall>k v. fmlookup (gRespHeaders resp) k = Some v \<longrightarrow> fmlookup hdr (canonicalHeaderKey k) = Some v)"
proof -
  let ?req = "\<lparr>irInstanceId = InstanceId ro, irMethod = hrMethod r, irPath = (if rest = [] then ''/'' else rest),
     irHeaders = flattenHeaders (hrHeader r), irBody = bs\<rparr>"
  let ?resp = "\<lparr>iiStatusCode = gStatusCode resp, iiHeaders = gRespHeaders resp, iiBody = gRespBody resp\<rparr>"
  have inv: "invoke env (RunnerAddr ro) ?req = Inr ?resp"
    unfolding assms(9) using callRunner_ok[OF _ assms(11-15), of parse ?req f resp now] assms(10,16) by simp
  have "200 \<le> iiStatusCode ?resp" "iiStatusCode ?resp \<le> 999" "sent (newWriter None) = None" "writeErr (newWriter None) = None"
    "iiBody ?resp = [] \<or> bodyAllowedForStatus (iiStatusCode ?resp)"
    "inj_on canonicalHeaderKey (fset (fmdom (iiHeaders ?resp)))"
    using assms(17-19,21) by (simp_all add: newWriter_def)
  note w = this
  from gateway_forwards[OF assms(1-8) inv w(1-5) assms(20) w(6), where ctx = ctx]
  show ?thesis by (auto simp: newWriter_def)
qed

text \<open>A function that returns what it gets.\<close>

definition example_echo :: FunctionHandler where
  "example_echo g = (Some \<lparr>gStatusCode = 200, gRespHeaders = fmupd ''x-path'' (gPath g) fmempty, gRespBody = gBody g\<rparr>, None)"

definition example_runner :: "(invocation, unit) InstancesStates" where
  "example_runner = fst (Submit 0 ''/f'' ''i'' 60 () NewInstanceStates)"

definition example_system :: GatewayEnv where
  "example_system = example_gateway_env\<lparr>invoke := (\<lambda>_. callRunner Inr example_echo 1 0 example_runner)\<rparr>"

theorem request_end_to_end_witness:
  "\<exists>ctx' w' h' hdr. processFunctionRequest example_system
      \<lparr>hrMethod = ''POST'', hrPath = ''/7'', hrURI = ''/7'', hrFunctionId = ''7'', hrHeader = fmempty, hrBody = ([5], None)\<rparr>
      (emptyCtx, newWriter None :: unit Writer) emptyGateway = Returns ((ctx', w'), h') \<and>
    sent w' = Some (200, hdr) \<and> body w' = [RawChunk [5]] \<and> fmlookup hdr ''X-Path'' = Some ''/''"
proof -
  let ?r = "\<lparr>hrMethod = ''POST'', hrPath = ''/7'', hrURI = ''/7'', hrFunctionId = ''7'', hrHeader = fmempty, hrBody = ([5], None)\<rparr>"
  let ?ro = "\<lparr>RunnerAddr = ''r:1'', InstanceId = ''i''\<rparr>"
  let ?resp = "\<lparr>gStatusCode = 200, gRespHeaders = fmupd ''x-path'' ''/'' fmempty, gRespBody = [5]\<rparr>"
  obtain inst where inst: "fmlookup (instanceStates example_runner) ''i'' = Some inst" "lastUsedTimer inst = TimerPending"
    "\<not> queueClosed inst" "length (queue inst) < InvocationsQueueMaxLen" "0 \<notin> invCh ` set (queue inst)"
    by (simp add: example_runner_def Submit_def NewInstanceStates_def InvocationsQueueMaxLen_def Let_def)
  have calm: "gw_calm example_system" using example_gateway_ok(1) by (simp add: example_system_def gw_calm_def)
  have a: "hrFunctionId ?r \<noteq> []" "hrPath ?r = slash # hrFunctionId ?r @ []"
    "route example_system (hrFunctionId ?r) = Inr ?ro" "dialErr example_system (RunnerAddr ?ro) = None"
    "hrBody ?r = ([5], None)" "int (length [5 :: 8 word]) \<le> MaxBytes"
    "invoke example_system (RunnerAddr ?ro) = callRunner Inr example_echo 1 0 example_runner" "Inr (InstanceId ?ro) = Inr ''i''"
    by (simp_all add: example_system_def example_gateway_env_def slash_def MaxBytes_def)
  have b: "example_echo \<lparr>gMethod = hrMethod ?r, gPath = (if [] = [] then ''/'' else []), gHeaders = flattenHeaders (hrHeader ?r),
      gBody = [5]\<rparr> = (Some ?resp, None)" "200 \<le> gStatusCode ?resp" "gStatusCode ?resp \<le> 999"
    "gRespBody ?resp = [] \<or> bodyAllowedForStatus (gStatusCode ?resp)" "iter_order (headerOrder example_system)"
    "inj_on canonicalHeaderKey (fset (fmdom (gRespHeaders ?resp)))"
    by (simp_all add: example_echo_def example_system_def example_gateway_env_def bodyAllowedForStatus_def iter_order_sorted)
  have k: "canonicalHeaderKey ''x-path'' = ''X-Path''" by code_simp
  obtain ctx' w' h' hdr where o: "processFunctionRequest example_system ?r (emptyCtx, newWriter None :: unit Writer) emptyGateway =
      Returns ((ctx', w'), h')" "sent w' = Some (gStatusCode ?resp, hdr)" "body w' = [RawChunk (gRespBody ?resp)]"
    "\<And>k v. fmlookup (gRespHeaders ?resp) k = Some v \<Longrightarrow> fmlookup hdr (canonicalHeaderKey k) = Some v"
    using request_end_to_end[OF example_gateway_ok(2) calm a inst b, where ctx = emptyCtx] by blast
  have "fmlookup hdr ''X-Path'' = Some ''/''" using o(4)[of "''x-path''" "''/''"] k by simp
  with o(1-3) show ?thesis by auto
qed

section \<open>From the load tester to the test functions\<close>

text \<open>What a server takes from the URL of a request of the tester: its path, and in it the first name.\<close>

definition serverPath :: "string \<Rightarrow> string" where
  "serverPath url = pathPart (drop (length gatewayURL) url)"

definition firstName :: "string \<Rightarrow> string" where
  "firstName path = takeWhile (\<lambda>c. c \<noteq> slash) (tl path)"

lemma digits_not:
  assumes "0 \<le> i" and "c \<in> set (strconv_FormatInt i)"
  shows "c \<noteq> CHR ''?'' \<and> c \<noteq> slash"
  using FormatInt_chars[OF assms] by (auto simp: slash_def)

text \<open>
  C40: Every request of the load tester reaches a route that its test function has. For each requester
  and whatever its random numbers, the gateway finds the id of the deployed function in the URL, and the
  path that it forwards is the route the requester chose, one of those the function answers. The query
  of the request is not part of what is forwarded.
\<close>

theorem tester_requests_served:
  assumes "NextInvocation intn r g = (spec, g')" and "0 \<le> i" and "fid = strconv_FormatInt i"
    and "path = serverPath (orURL (invocationRequest ord fid spec))"
  shows "firstName path = fid \<and> forwardedPath path fid = Returns (pathPart (isPath spec)) \<and>
    pathPart (isPath spec) \<in> set (servedRoutes r)"
proof -
  obtain q where q: "isPath spec = slash # q" and served: "pathPart (isPath spec) \<in> set (servedRoutes r)"
    using NextInvocation_shape[OF assms(1)] by blast
  have trim: "strings_TrimRightSlash gatewayURL = gatewayURL" by code_simp
  have fid: "\<And>c. c \<in> set fid \<Longrightarrow> c \<noteq> CHR ''?'' \<and> c \<noteq> slash" "fid \<noteq> []"
    using digits_not[OF assms(2)] FormatInt_ne assms(3) by auto
  have url: "orURL (invocationRequest ord fid spec) = gatewayURL @ slash # fid @ isPath spec"
    by (simp add: invocationRequest_def Let_def trim q strings_HasPrefix_def)
  have "serverPath (gatewayURL @ slash # fid @ isPath spec) = pathPart (slash # fid @ isPath spec)"
    by (simp add: serverPath_def)
  also have "\<dots> = slash # takeWhile (\<lambda>c. c \<noteq> CHR ''?'') (fid @ isPath spec)" by (simp add: pathPart_def slash_def)
  also have "\<dots> = slash # fid @ pathPart (isPath spec)" using fid(1) by (simp add: pathPart_def takeWhile_append2)
  finally have path: "path = slash # fid @ pathPart (isPath spec)" using assms(4) url by simp
  have p: "pathPart (isPath spec) = slash # pathPart q" by (simp add: q pathPart_def slash_def)
  have "takeWhile (\<lambda>c. c \<noteq> slash) (fid @ slash # pathPart q) = fid" using fid(1) by (simp add: takeWhile_append2)
  then have "firstName path = fid" by (simp add: firstName_def path p)
  moreover have "forwardedPath path fid = Returns (pathPart (isPath spec))"
    using forwardedPath_strip[OF fid(2), of "pathPart (isPath spec)"] p by (simp add: path)
  ultimately show ?thesis using served by blast
qed

theorem tester_requests_served_witness:
  "forwardedPath (serverPath (orURL (invocationRequest sorted_list_of_fset ''7''
      (fst (NextInvocation (\<lambda>m g. (g mod m, g + 1)) routesRequester (3 :: int)))))) ''7'' = Returns ''/math/add''"
proof -
  obtain spec g' where n: "NextInvocation (\<lambda>m g. (g mod m, g + 1)) routesRequester (3 :: int) = (spec, g')" by fastforce
  have i: "''7'' = strconv_FormatInt 7" by code_simp
  have "pathPart (isPath (fst (NextInvocation (\<lambda>m g. (g mod m, g + 1)) routesRequester (3 :: int)))) = ''/math/add''"
    by code_simp
  with tester_requests_served[OF n _ i refl, where ord = sorted_list_of_fset] n show ?thesis by simp
qed

end
